(* ===== verification/Prelude.thy ===== *)
theory Prelude
  imports Main "HOL-Library.Word"
begin

text \<open>
  Shared vocabulary of the development: bytes and machine integers, the exceptions of
  \<^verbatim>\<open>src/common/include/praas/common/exceptions.hpp\<close> as values, the result type of fallible code,
  reads and writes at an offset of a byte array (what the sources do with
  \<^verbatim>\<open>reinterpret_cast\<close>), the two functions of \<^verbatim>\<open><cstring>\<close> that the message types use, and a
  locale for state machines whose invariant is kept by every step.

  A byte is a HOL \<^typ>\<open>char\<close> (exactly eight bits), so that an array of \<^verbatim>\<open>int8_t\<close>, a payload of
  \<^verbatim>\<open>char\<close> and a \<^verbatim>\<open>std::string\<close> all have the type \<^typ>\<open>char list\<close>, as the sources
  reinterpret one as the other. Machine integers are words; the byte order is little endian,
  which is the order of every platform the build files name.
\<close>

section \<open>Types\<close>

type_synonym byte = char
type_synonym bytes = "char list"
type_synonym int16 = "16 word"
type_synonym int32 = "32 word"
type_synonym uint64 = "64 word"

text \<open>
  The exceptions of the code base, without the text that is only logged. Ten constructors are
  not classes of \<^verbatim>\<open>exceptions.hpp\<close>: \<open>BadOptionalAccess\<close> is what \<^verbatim>\<open>std::optional::value\<close>
  throws, \<open>BadAlloc\<close> what \<^verbatim>\<open>new\<close> throws for an array of impossible size, \<open>StdInvalidArgument\<close>
  and \<open>StdOutOfRange\<close> are the two exceptions of \<^verbatim>\<open>std::stoi\<close>, \<open>CerealException\<close> is the
  exception of the library that reads configuration files, with its text, \<open>JsonException\<close> the one of the
  library for JSON documents, \<open>SystemError\<close> the one of a lock, \<open>StdTerminate\<close> the end of the program when an exception
  leaves a function that is \<^verbatim>\<open>noexcept\<close>, \<open>ProcessExit\<close> the
  \<^verbatim>\<open>exit(1)\<close> of the assertions of \<^verbatim>\<open>src/common/include/praas/common/util.hpp\<close>, and
  \<open>UndefinedBehaviour\<close> stands for an access the C++ standard gives no meaning to (a write past
  the end of an array, a dereferenced end iterator).
\<close>

datatype error =
    PraaSException
  | NotImplementedError
  | InvalidConfigurationError
  | ObjectExists string
  | ObjectDoesNotExist string
  | FailedAllocationError string
  | InvalidProcessState
  | InvalidMessage
  | InvalidJSON
  | InvalidArgument
  | FunctionGetFailure
  | BadOptionalAccess
  | BadAlloc
  | StdInvalidArgument
  | StdOutOfRange
  | CerealException string
  | JsonException
  | SystemError
  | StdTerminate
  | ProcessExit
  | UndefinedBehaviour

type_synonym 'a result = "error + 'a"

named_theorems mem_simps "reads of and writes to byte arrays"
named_theorems wire_defs "definitions of the message accessors"

definition and_then :: "'a result \<Rightarrow> ('a \<Rightarrow> 'b result) \<Rightarrow> 'b result" where
  "and_then r f = (case r of Inl e \<Rightarrow> Inl e | Inr a \<Rightarrow> f a)"

text \<open>The exceptions of the code base that a handler for \<^verbatim>\<open>PraaSException\<close> catches.\<close>

definition is_praas_exception :: "error \<Rightarrow> bool" where
  "is_praas_exception e \<longleftrightarrow>
     (case e of
        BadOptionalAccess \<Rightarrow> False | BadAlloc \<Rightarrow> False | StdInvalidArgument \<Rightarrow> False | StdOutOfRange \<Rightarrow> False
      | CerealException _ \<Rightarrow> False | JsonException \<Rightarrow> False | SystemError \<Rightarrow> False | StdTerminate \<Rightarrow> False
      | ProcessExit \<Rightarrow> False | UndefinedBehaviour \<Rightarrow> False
      | _ \<Rightarrow> True)"

section \<open>Little-endian integers\<close>

fun le_bytes :: "nat \<Rightarrow> nat \<Rightarrow> bytes" where
  "le_bytes 0 n = []"
| "le_bytes (Suc k) n = char_of n # le_bytes k (n div 256)"

fun le_nat :: "bytes \<Rightarrow> nat" where
  "le_nat [] = 0"
| "le_nat (c # cs) = of_char c + 256 * le_nat cs"

section \<open>Byte arrays\<close>

definition peek :: "bytes \<Rightarrow> nat \<Rightarrow> nat \<Rightarrow> bytes" where
  "peek buf off k = take k (drop off buf)"

definition poke :: "bytes \<Rightarrow> nat \<Rightarrow> bytes \<Rightarrow> bytes" where
  "poke buf off bs = take off buf @ bs @ drop (off + length bs) buf"

definition get_i16 :: "bytes \<Rightarrow> nat \<Rightarrow> int16" where
  "get_i16 buf off = of_nat (le_nat (peek buf off 2))"

definition put_i16 :: "bytes \<Rightarrow> nat \<Rightarrow> int16 \<Rightarrow> bytes" where
  "put_i16 buf off v = poke buf off (le_bytes 2 (unat v))"

definition get_i32 :: "bytes \<Rightarrow> nat \<Rightarrow> int32" where
  "get_i32 buf off = of_nat (le_nat (peek buf off 4))"

definition put_i32 :: "bytes \<Rightarrow> nat \<Rightarrow> int32 \<Rightarrow> bytes" where
  "put_i32 buf off v = poke buf off (le_bytes 4 (unat v))"

definition get_u64 :: "bytes \<Rightarrow> nat \<Rightarrow> uint64" where
  "get_u64 buf off = of_nat (le_nat (peek buf off 8))"

definition put_u64 :: "bytes \<Rightarrow> nat \<Rightarrow> uint64 \<Rightarrow> bytes" where
  "put_u64 buf off v = poke buf off (le_bytes 8 (unat v))"

text \<open>A \<^verbatim>\<open>bool\<close> is one byte; any byte but zero reads as true.\<close>

definition get_bool :: "bytes \<Rightarrow> nat \<Rightarrow> bool" where
  "get_bool buf off \<longleftrightarrow> peek buf off 1 \<noteq> [CHR 0x00]"

definition put_bool :: "bytes \<Rightarrow> nat \<Rightarrow> bool \<Rightarrow> bytes" where
  "put_bool buf off v = poke buf off [if v then CHR 0x01 else CHR 0x00]"

text \<open>Consecutive writes through a pointer that is advanced by each, \<^verbatim>\<open>*ptr++ = w\<close>.\<close>

fun put_i32s :: "bytes \<Rightarrow> nat \<Rightarrow> int32 list \<Rightarrow> bytes" where
  "put_i32s buf off [] = buf"
| "put_i32s buf off (w # ws) = put_i32s (put_i32 buf off w) (off + 4) ws"

text \<open>The conversion of an \<^verbatim>\<open>int32_t\<close> to \<^verbatim>\<open>size_t\<close>: a negative value wraps around at \<open>2 ^ 64\<close>.\<close>

definition size_of_i32 :: "int32 \<Rightarrow> nat" where
  "size_of_i32 w = nat (sint w mod 2 ^ 64)"

text \<open>The conversion of a \<^verbatim>\<open>size_t\<close> to \<^verbatim>\<open>int32_t\<close> keeps the low 32 bits.\<close>

definition i32_of_size :: "nat \<Rightarrow> int32" where
  "i32_of_size n = of_nat n"

section \<open>C strings\<close>

abbreviation NUL :: byte where
  "NUL \<equiv> CHR 0x00"

definition c_str :: "string \<Rightarrow> bytes" where
  "c_str s = s @ [NUL]"

definition strnlen :: "bytes \<Rightarrow> nat \<Rightarrow> nat" where
  "strnlen mem n = length (takeWhile (\<lambda>c. c \<noteq> NUL) (take n mem))"

text \<open>The \<open>n\<close> bytes that \<^verbatim>\<open>strncpy(dst, src, n)\<close> stores at \<open>dst\<close>: the source up to its
  terminator and at most \<open>n\<close> bytes of it, then zeros.\<close>

definition strncpy_bytes :: "bytes \<Rightarrow> nat \<Rightarrow> bytes" where
  "strncpy_bytes src n =
     (let t = takeWhile (\<lambda>c. c \<noteq> NUL) (take n src) in t @ replicate (n - length t) NUL)"

definition put_cstr :: "bytes \<Rightarrow> nat \<Rightarrow> nat \<Rightarrow> string \<Rightarrow> bytes" where
  "put_cstr buf off n s = poke buf off (strncpy_bytes (c_str s) n)"

definition no_nul :: "string \<Rightarrow> bool" where
  "no_nul s \<longleftrightarrow> NUL \<notin> set s"

section \<open>Numbers in strings\<close>

text \<open>
  \<^verbatim>\<open>std::stoi\<close>: white space, an optional sign and at least one digit; what follows the digits is
  ignored. A number that is no \<^verbatim>\<open>int\<close> is out of range.
\<close>

definition is_space :: "char \<Rightarrow> bool" where
  "is_space c \<longleftrightarrow> c = CHR '' '' \<or> (9 \<le> (of_char c :: nat) \<and> (of_char c :: nat) \<le> 13)"

definition is_digit :: "char \<Rightarrow> bool" where
  "is_digit c \<longleftrightarrow> 48 \<le> (of_char c :: nat) \<and> (of_char c :: nat) \<le> 57"

fun digits_value :: "nat \<Rightarrow> string \<Rightarrow> nat" where
  "digits_value acc [] = acc"
| "digits_value acc (c # cs) = digits_value (10 * acc + (of_char c - 48)) cs"

definition stoi :: "string \<Rightarrow> int32 result" where
  "stoi str =
     (let s1 = dropWhile is_space str;
          neg = (s1 \<noteq> [] \<and> hd s1 = CHR ''-'');
          s2 = (if s1 \<noteq> [] \<and> (hd s1 = CHR ''-'' \<or> hd s1 = CHR ''+'') then tl s1 else s1);
          ds = takeWhile is_digit s2;
          v = (if neg then - int (digits_value 0 ds) else int (digits_value 0 ds)) in
      if ds = [] then Inl StdInvalidArgument
      else if v < - (2 ^ 31) \<or> 2 ^ 31 \<le> v then Inl StdOutOfRange
      else Inr (word_of_int v))"

text \<open>A number in decimal, as \<^verbatim>\<open>fmt::format\<close> prints it.\<close>

fun decimal :: "nat \<Rightarrow> string" where
  "decimal n = (if n < 10 then [char_of (48 + n)] else decimal (n div 10) @ [char_of (48 + n mod 10)])"

declare decimal.simps [simp del]

definition decimal_int :: "int32 \<Rightarrow> string" where
  "decimal_int i = (if sint i < 0 then ''-'' @ decimal (nat (- sint i)) else decimal (nat (sint i)))"

section \<open>Lemmas on results\<close>

lemma and_then_simps [simp]:
  "and_then (Inl e) f = Inl e"
  "and_then (Inr a) f = f a"
  by (simp_all add: and_then_def)

lemma and_then_cong:
  "r = r' \<Longrightarrow> (\<And>a. r' = Inr a \<Longrightarrow> f a = f' a) \<Longrightarrow> and_then r f = and_then r' f'"
  by (cases r') auto

lemma and_then_eq_Inr:
  "and_then r f = Inr b \<longleftrightarrow> (\<exists>a. r = Inr a \<and> f a = Inr b)"
  by (cases r) auto

lemma list_all2_choice: "list_all (\<lambda>x. \<exists>y. P x y) xs \<Longrightarrow> \<exists>ys. list_all2 P xs ys"
  by (induction xs) (auto simp: list_all2_Cons1)

section \<open>Lemmas on integers in byte arrays\<close>

lemma length_le_bytes [simp]: "length (le_bytes k n) = k"
  by (induction k arbitrary: n) auto

lemma le_nat_le_bytes [simp]: "le_nat (le_bytes k n) = n mod 256 ^ k"
proof (induction k arbitrary: n)
  case 0
  then show ?case by simp
next
  case (Suc k)
  have "n mod 256 ^ Suc k = n mod 256 + 256 * (n div 256 mod 256 ^ k)"
    by (simp add: mod_mult2_eq)
  with Suc.IH show ?case by simp
qed

lemma le_nat_less: "le_nat bs < 256 ^ length bs"
proof (induction bs)
  case Nil
  then show ?case by simp
next
  case (Cons c cs)
  have "of_char c < (256::nat)" by simp
  moreover from Cons have "256 * le_nat cs + 256 \<le> 256 * 256 ^ length cs" by simp
  ultimately have "of_char c + 256 * le_nat cs < 256 * 256 ^ length cs" by linarith
  then show ?case by simp
qed

lemma length_poke [simp]:
  "off + length bs \<le> length buf \<Longrightarrow> length (poke buf off bs) = length buf"
  by (simp add: poke_def)

lemma peek_poke_same [mem_simps]:
  "off \<le> length buf \<Longrightarrow> k = length bs \<Longrightarrow> peek (poke buf off bs) off k = bs"
  by (simp add: peek_def poke_def)

lemma peek_poke_before [mem_simps]:
  "off' + k \<le> off \<Longrightarrow> off \<le> length buf \<Longrightarrow> peek (poke buf off bs) off' k = peek buf off' k"
  by (simp add: peek_def poke_def take_drop min_def)

lemma peek_poke_after [mem_simps]:
  "off + length bs \<le> off' \<Longrightarrow> off \<le> length buf \<Longrightarrow>
     peek (poke buf off bs) off' k = peek buf off' k"
  by (simp add: peek_def poke_def)

section \<open>Lemmas on C strings\<close>

lemma takeWhile_no_nul: "no_nul s \<Longrightarrow> takeWhile (\<lambda>c. c \<noteq> NUL) (s @ xs) = s @ takeWhile (\<lambda>c. c \<noteq> NUL) xs"
  unfolding no_nul_def by (rule takeWhile_append2) auto

lemma no_nul_takeWhile [simp]: "no_nul s \<Longrightarrow> takeWhile (\<lambda>c. c \<noteq> NUL) s = s"
  by (auto simp: no_nul_def takeWhile_eq_all_conv)

lemma length_strncpy_bytes [simp]: "length (strncpy_bytes src n) = n"
proof -
  have "length (takeWhile (\<lambda>c. c \<noteq> NUL) (take n src)) \<le> length (take n src)"
    by (rule length_takeWhile_le)
  then show ?thesis by (simp add: strncpy_bytes_def Let_def)
qed

lemma strncpy_no_nul:
  assumes "no_nul s" and "length s \<le> n"
  shows "strncpy_bytes (c_str s) n = s @ replicate (n - length s) NUL"
proof (cases "length s < n")
  case True
  then have "take n (c_str s) = c_str s"
    by (simp add: c_str_def)
  moreover have "takeWhile (\<lambda>c. c \<noteq> NUL) (c_str s) = s"
    using assms(1) by (simp add: c_str_def takeWhile_no_nul)
  ultimately show ?thesis by (simp add: strncpy_bytes_def)
next
  case False
  with assms(2) have "take n (c_str s) = s" by (simp add: c_str_def)
  with assms(1) show ?thesis by (simp add: strncpy_bytes_def)
qed

lemma strnlen_padded:
  assumes "no_nul s" and "length s \<le> n" and "take n mem = s @ replicate (n - length s) NUL"
  shows "strnlen mem n = length s"
proof -
  have "takeWhile (\<lambda>c. c \<noteq> NUL) (replicate (n - length s) NUL) = []"
    by (cases "n - length s") auto
  with assms show ?thesis by (simp add: strnlen_def takeWhile_no_nul)
qed

lemma strnlen_le: "strnlen mem n \<le> n"
proof -
  have "strnlen mem n \<le> length (take n mem)"
    unfolding strnlen_def by (rule length_takeWhile_le)
  then show ?thesis by simp
qed

section \<open>Fields of a byte array\<close>

text \<open>
  What every field of a message promises: its values are encoded in a fixed number of bytes
  and decoding gives the value back. From this, a field reads what was last written to it,
  whatever is written outside its bytes. The integer and string fields below interpret it.
\<close>

locale fixed_width_codec =
  fixes width :: nat
    and enc :: "'a \<Rightarrow> bytes"
    and dec :: "bytes \<Rightarrow> 'a"
    and ok :: "'a \<Rightarrow> bool"
  assumes length_enc: "length (enc v) = width"
    and dec_enc: "ok v \<Longrightarrow> dec (enc v) = v"
begin

lemma length_poke_enc:
  "off + width \<le> length buf \<Longrightarrow> length (poke buf off (enc v)) = length buf"
  by (simp add: length_enc)

lemma dec_put_same:
  "off \<le> length buf \<Longrightarrow> ok v \<Longrightarrow> dec (peek (poke buf off (enc v)) off width) = v"
  by (simp add: peek_poke_same length_enc dec_enc)

lemma dec_poke_other:
  "off' + length bs \<le> off \<or> off + width \<le> off' \<Longrightarrow> off' \<le> length buf \<Longrightarrow>
     dec (peek (poke buf off' bs) off width) = dec (peek buf off width)"
  by (auto simp: peek_poke_before peek_poke_after)

end

interpretation i16: fixed_width_codec 2 "\<lambda>v :: int16. le_bytes 2 (unat v)" "\<lambda>b. of_nat (le_nat b)" "\<lambda>_. True"
proof
  fix v :: int16
  have "unat v < 256 ^ 2" using unsigned_less [of v, where 'a = nat] by simp
  then show "of_nat (le_nat (le_bytes 2 (unat v))) = v" by simp
qed simp

interpretation i32: fixed_width_codec 4 "\<lambda>v :: int32. le_bytes 4 (unat v)" "\<lambda>b. of_nat (le_nat b)" "\<lambda>_. True"
proof
  fix v :: int32
  have "unat v < 256 ^ 4" using unsigned_less [of v, where 'a = nat] by simp
  then show "of_nat (le_nat (le_bytes 4 (unat v))) = v" by simp
qed simp

interpretation u64: fixed_width_codec 8 "\<lambda>v :: uint64. le_bytes 8 (unat v)" "\<lambda>b. of_nat (le_nat b)" "\<lambda>_. True"
proof
  fix v :: uint64
  have "unat v < 256 ^ 8" using unsigned_less [of v, where 'a = nat] by simp
  then show "of_nat (le_nat (le_bytes 8 (unat v))) = v" by simp
qed simp

interpretation cstr: fixed_width_codec n "\<lambda>s. strncpy_bytes (c_str s) n" "takeWhile (\<lambda>c. c \<noteq> NUL)"
    "\<lambda>s. no_nul s \<and> length s \<le> n" for n
proof
  fix s :: string
  have "takeWhile (\<lambda>c. c \<noteq> NUL) (replicate k NUL) = []" for k by (cases k) auto
  then show "takeWhile (\<lambda>c. c \<noteq> NUL) (strncpy_bytes (c_str s) n) = s"
    if "no_nul s \<and> length s \<le> n"
    using that by (simp add: strncpy_no_nul takeWhile_no_nul)
qed simp

text \<open>The string at a field, as \<^verbatim>\<open>std::string_view{p, strnlen(p, n)}\<close> reads it.\<close>

lemma string_view_strnlen:
  "peek buf off (strnlen (drop off buf) n) = takeWhile (\<lambda>c. c \<noteq> NUL) (peek buf off n)"
  unfolding peek_def strnlen_def
  by (metis min.absorb1 length_takeWhile_le length_take min.bounded_iff take_take takeWhile_eq_take)

lemma length_put_int [simp]:
  "off + 2 \<le> length buf \<Longrightarrow> length (put_i16 buf off v) = length buf"
  "off + 4 \<le> length buf \<Longrightarrow> length (put_i32 buf off w) = length buf"
  "off + 8 \<le> length buf \<Longrightarrow> length (put_u64 buf off u) = length buf"
  by (simp_all add: put_i16_def put_i32_def put_u64_def)

lemma length_put_cstr [simp]:
  "off + n \<le> length buf \<Longrightarrow> length (put_cstr buf off n s) = length buf"
  by (simp add: put_cstr_def)

lemmas put_defs = put_i16_def put_i32_def put_u64_def put_cstr_def
lemmas get_defs = get_i16_def get_i32_def get_u64_def

lemma get_put_same [mem_simps]:
  "off + 2 \<le> length buf \<Longrightarrow> get_i16 (put_i16 buf off v) off = v"
  "off + 4 \<le> length buf \<Longrightarrow> get_i32 (put_i32 buf off w) off = w"
  "off + 8 \<le> length buf \<Longrightarrow> get_u64 (put_u64 buf off u) off = u"
  by (simp_all add: put_defs get_defs i16.dec_put_same i32.dec_put_same u64.dec_put_same)

lemma get_i16_put_other [mem_simps]:
  "off' + 4 \<le> off \<or> off + 2 \<le> off' \<Longrightarrow> off' \<le> length buf \<Longrightarrow>
     get_i16 (put_i32 buf off' w) off = get_i16 buf off"
  "off' + 8 \<le> off \<or> off + 2 \<le> off' \<Longrightarrow> off' \<le> length buf \<Longrightarrow>
     get_i16 (put_u64 buf off' u) off = get_i16 buf off"
  "off' + n \<le> off \<or> off + 2 \<le> off' \<Longrightarrow> off' \<le> length buf \<Longrightarrow>
     get_i16 (put_cstr buf off' n s) off = get_i16 buf off"
  by (simp_all add: put_defs get_defs i16.dec_poke_other)

lemma get_i32_put_other [mem_simps]:
  "off' + 2 \<le> off \<or> off + 4 \<le> off' \<Longrightarrow> off' \<le> length buf \<Longrightarrow>
     get_i32 (put_i16 buf off' v) off = get_i32 buf off"
  "off' + 4 \<le> off \<or> off + 4 \<le> off' \<Longrightarrow> off' \<le> length buf \<Longrightarrow>
     get_i32 (put_i32 buf off' w) off = get_i32 buf off"
  "off' + 8 \<le> off \<or> off + 4 \<le> off' \<Longrightarrow> off' \<le> length buf \<Longrightarrow>
     get_i32 (put_u64 buf off' u) off = get_i32 buf off"
  "off' + n \<le> off \<or> off + 4 \<le> off' \<Longrightarrow> off' \<le> length buf \<Longrightarrow>
     get_i32 (put_cstr buf off' n s) off = get_i32 buf off"
  by (simp_all add: put_defs get_defs i32.dec_poke_other)

lemma get_u64_put_other [mem_simps]:
  "off' + 2 \<le> off \<or> off + 8 \<le> off' \<Longrightarrow> off' \<le> length buf \<Longrightarrow>
     get_u64 (put_i16 buf off' v) off = get_u64 buf off"
  "off' + 4 \<le> off \<or> off + 8 \<le> off' \<Longrightarrow> off' \<le> length buf \<Longrightarrow>
     get_u64 (put_i32 buf off' w) off = get_u64 buf off"
  by (simp_all add: put_defs get_defs u64.dec_poke_other)

lemma peek_put_cstr_same [mem_simps]:
  "off \<le> length buf \<Longrightarrow> no_nul s \<Longrightarrow> length s \<le> n \<Longrightarrow>
     takeWhile (\<lambda>c. c \<noteq> NUL) (peek (put_cstr buf off n s) off n) = s"
  by (simp add: put_defs cstr.dec_put_same)

lemma peek_put_other [mem_simps]:
  "off' + 2 \<le> off \<or> off + k \<le> off' \<Longrightarrow> off' \<le> length buf \<Longrightarrow>
     peek (put_i16 buf off' v) off k = peek buf off k"
  "off' + 4 \<le> off \<or> off + k \<le> off' \<Longrightarrow> off' \<le> length buf \<Longrightarrow>
     peek (put_i32 buf off' w) off k = peek buf off k"
  "off' + 8 \<le> off \<or> off + k \<le> off' \<Longrightarrow> off' \<le> length buf \<Longrightarrow>
     peek (put_u64 buf off' u) off k = peek buf off k"
  "off' + n \<le> off \<or> off + k \<le> off' \<Longrightarrow> off' \<le> length buf \<Longrightarrow>
     peek (put_cstr buf off' n s) off k = peek buf off k"
  by (auto simp: put_defs peek_poke_before peek_poke_after)

lemma strnlen_peek [mem_simps]:
  "strnlen (drop off buf) n = length (takeWhile (\<lambda>c. c \<noteq> NUL) (peek buf off n))"
  by (simp add: strnlen_def peek_def)

lemma peek_put_cstr_prefix [mem_simps]:
  "off + n \<le> length buf \<Longrightarrow> no_nul s \<Longrightarrow> length s \<le> n \<Longrightarrow>
     peek (put_cstr buf off n s) off (length s) = s"
  by (simp add: put_cstr_def peek_def poke_def strncpy_no_nul)

lemma length_put_bool [simp]: "off < length buf \<Longrightarrow> length (put_bool buf off v) = length buf"
  by (simp add: put_bool_def)

lemma get_put_bool [mem_simps]:
  "off < length buf \<Longrightarrow> get_bool (put_bool buf off v) off = v"
  "off' + 4 \<le> off \<or> off < off' \<Longrightarrow> off' \<le> length buf \<Longrightarrow>
     get_bool (put_i32 buf off' w) off = get_bool buf off"
  "off' + n \<le> off \<or> off < off' \<Longrightarrow> off' \<le> length buf \<Longrightarrow>
     get_bool (put_cstr buf off' n s) off = get_bool buf off"
  by (simp_all add: get_bool_def put_bool_def peek_poke_same peek_put_other Suc_le_eq)

lemma read_put_bool_other [mem_simps]:
  "off' < off \<or> off + 2 \<le> off' \<Longrightarrow> off' \<le> length buf \<Longrightarrow>
     get_i16 (put_bool buf off' v) off = get_i16 buf off"
  "off' < off \<or> off + 4 \<le> off' \<Longrightarrow> off' \<le> length buf \<Longrightarrow>
     get_i32 (put_bool buf off' v) off = get_i32 buf off"
  "off' < off \<or> off + k \<le> off' \<Longrightarrow> off' \<le> length buf \<Longrightarrow>
     peek (put_bool buf off' v) off k = peek buf off k"
  by (auto simp: put_bool_def get_defs peek_poke_before peek_poke_after Suc_le_eq)

lemma length_put_i32s [simp]:
  "off + 4 * length ws \<le> length buf \<Longrightarrow> length (put_i32s buf off ws) = length buf"
  by (induction ws arbitrary: buf off) auto

lemma peek_put_i32s_before [mem_simps]:
  "off' + k \<le> off \<Longrightarrow> off + 4 * length ws \<le> length buf \<Longrightarrow>
     peek (put_i32s buf off ws) off' k = peek buf off' k"
  by (induction ws arbitrary: buf off) (auto simp: peek_put_other)

lemma get_i32_put_i32s [mem_simps]:
  "i < length ws \<Longrightarrow> off + 4 * length ws \<le> length buf \<Longrightarrow>
     get_i32 (put_i32s buf off ws) (off + 4 * i) = ws ! i"
proof (induction ws arbitrary: buf off i)
  case Nil
  then show ?case by simp
next
  case (Cons w ws)
  show ?case
  proof (cases i)
    case 0
    with Cons.prems show ?thesis
      by (simp add: get_i32_def peek_put_i32s_before) (simp add: get_put_same flip: get_i32_def)
  next
    case (Suc j)
    with Cons.prems Cons.IH [of j "off + 4" "put_i32 buf off w"] show ?thesis
      by (simp add: algebra_simps)
  qed
qed

section \<open>Lemmas on size conversions\<close>

lemma size_of_i32_nonneg: "0 \<le> sint w \<Longrightarrow> size_of_i32 w = unat w"
proof -
  assume nonneg: "0 \<le> sint w"
  have "sint w < 2 ^ 31" using sint_lt [of w] by simp
  with nonneg have "sint w mod 2 ^ 32 = sint w" by simp
  then have "sint w = uint w" by (simp add: uint_sint take_bit_eq_mod)
  with nonneg \<open>sint w < 2 ^ 31\<close> show ?thesis by (simp add: size_of_i32_def)
qed

lemma sint_i32_of_size: "n < 2 ^ 31 \<Longrightarrow> sint (i32_of_size n) = int n"
  by (simp add: i32_of_size_def signed_of_nat signed_take_bit_int_eq_self)

lemma size_of_i32_of_size [simp]: "n < 2 ^ 31 \<Longrightarrow> size_of_i32 (i32_of_size n) = n"
  by (simp add: size_of_i32_def sint_i32_of_size)

lemma size_of_i32_negative: "sint w < 0 \<Longrightarrow> 2 ^ 63 \<le> size_of_i32 w"
proof -
  assume neg: "sint w < 0"
  have "- (2 ^ 31) \<le> sint w" using sint_ge [of w] by simp
  with neg have "(sint w + 2 ^ 64) mod 2 ^ 64 = sint w + 2 ^ 64" by (intro mod_pos_pos_trivial) simp_all
  then have "sint w mod 2 ^ 64 = sint w + 2 ^ 64" by simp
  with \<open>- (2 ^ 31) \<le> sint w\<close> show ?thesis by (simp add: size_of_i32_def)
qed

section \<open>Streams of messages\<close>

text \<open>The bytes of a list of messages, each a header and a payload.\<close>

definition byte_stream :: "(bytes \<times> bytes) list \<Rightarrow> bytes" where
  "byte_stream fs = concat (map (\<lambda>(h, p). h @ p) fs)"

lemma byte_stream_simps [simp]:
  "byte_stream [] = []"
  "byte_stream ((h, p) # fs) = h @ p @ byte_stream fs"
  "byte_stream (fs @ gs) = byte_stream fs @ byte_stream gs"
  by (simp_all add: byte_stream_def)

section \<open>Lemmas on numbers in strings\<close>

lemma digits_value_append: "digits_value acc (xs @ ys) = digits_value (digits_value acc xs) ys"
  by (induction xs arbitrary: acc) simp_all

lemma decimal_digits: "list_all is_digit (decimal n) \<and> decimal n \<noteq> [] \<and> digits_value 0 (decimal n) = n"
proof (induction n rule: decimal.induct)
  case (1 n)
  have digit: "of_char (char_of (48 + k) :: char) = 48 + k" if "k < 10" for k :: nat
    using that by (simp add: of_char_of)
  show ?case
  proof (cases "n < 10")
    case True
    then show ?thesis using digit [of n] by (simp add: decimal.simps [of n] is_digit_def)
  next
    case False
    with 1 digit [of "n mod 10"] show ?thesis
      by (simp add: decimal.simps [of n] is_digit_def digits_value_append)
  qed
qed

lemma is_digit_not:
  "is_digit c \<Longrightarrow> \<not> is_space c" "is_digit c \<Longrightarrow> c \<noteq> CHR ''-''" "is_digit c \<Longrightarrow> c \<noteq> CHR ''+''"
  "is_digit c \<Longrightarrow> c \<noteq> CHR '':''" "is_digit c \<Longrightarrow> c \<noteq> CHR ''=''"
  by (auto simp: is_digit_def is_space_def)

text \<open>A number that is printed is read back.\<close>

lemma stoi_decimal_int: "stoi (decimal_int i) = Inr i"
proof -
  have d: "list_all is_digit (decimal n)" "decimal n \<noteq> []" "digits_value 0 (decimal n) = n" for n
    using decimal_digits by auto
  obtain c cs where c: "decimal (nat (sint i)) = c # cs" "is_digit c" using d(1,2) [of "nat (sint i)"]
    by (cases "decimal (nat (sint i))") auto
  have tw: "takeWhile is_digit (decimal n) = decimal n" for n using d(1) by (simp add: takeWhile_eq_all_conv list_all_iff)
  have rng: "- (2 ^ 31) \<le> sint i" "sint i < 2 ^ 31" using sint_greater_eq [of i] sint_less [of i] by simp_all
  show ?thesis
  proof (cases "sint i < 0")
    case True
    then show ?thesis using d(2,3) [of "nat (- sint i)"] rng by (simp add: stoi_def decimal_int_def Let_def is_space_def tw)
  next
    case False
    then show ?thesis using d(3) [of "nat (sint i)"] rng tw [of "nat (sint i)"] is_digit_not [OF c(2)]
      unfolding stoi_def decimal_int_def c(1) by (simp add: Let_def takeWhile_eq_all_conv [THEN iffD2])
  qed
qed

section \<open>State machines\<close>

text \<open>
  The interface between a component's operations and the claims about its runs: a state is
  good initially, and every step the component can take from a good state leads to a good
  state. The components interpret it on their own step relations.
\<close>

inductive reachable :: "('s \<Rightarrow> bool) \<Rightarrow> ('s \<Rightarrow> 's \<Rightarrow> bool) \<Rightarrow> 's \<Rightarrow> bool"
  for initial :: "'s \<Rightarrow> bool" and step :: "'s \<Rightarrow> 's \<Rightarrow> bool" where
  reachable_start: "initial s \<Longrightarrow> reachable initial step s"
| reachable_step: "reachable initial step s \<Longrightarrow> step s t \<Longrightarrow> reachable initial step t"

locale invariant_machine =
  fixes initial :: "'s \<Rightarrow> bool"
    and step :: "'s \<Rightarrow> 's \<Rightarrow> bool"
    and good :: "'s \<Rightarrow> bool"
  assumes good_initial: "initial s \<Longrightarrow> good s"
    and good_step: "good s \<Longrightarrow> step s t \<Longrightarrow> good t"
begin

lemma reachable_good: "reachable initial step s \<Longrightarrow> good s"
proof (induction rule: reachable.induct)
  case (reachable_start s)
  then show ?case by (rule good_initial)
next
  case (reachable_step s t)
  then show ?case by (blast intro: good_step)
qed

lemma steps_good: "step\<^sup>*\<^sup>* s t \<Longrightarrow> good s \<Longrightarrow> good t"
  by (induction rule: rtranclp_induct) (auto intro: good_step)

end

end
