(* ===== verification/Wire_Messages.thy ===== *)
theory Wire_Messages
  imports Prelude
begin

text \<open>
  The messages that processes, the control plane and the SDK exchange over TCP:
  \<^verbatim>\<open>src/common/include/praas/common/messages.hpp\<close>. A message is a header of exactly
  \<open>BUF_SIZE\<close> bytes, a two-byte type, a four-byte length of the payload that follows, and
  fields at fixed offsets. A message object also caches the lengths of its string fields, as
  the classes do. The lemmas show that every message that is built with the setters is parsed
  back to the same fields, that setters touch nothing but their own field, and which headers
  the parser accepts.
\<close>

section \<open>Layout\<close>

definition BUF_SIZE :: nat where "BUF_SIZE = 70"
definition HEADER_OFFSET :: nat where "HEADER_OFFSET = 6"
definition NAME_LENGTH :: nat where "NAME_LENGTH = 32"
definition ID_LENGTH :: nat where "ID_LENGTH = 16"

lemmas wire_layout [simp] = BUF_SIZE_def HEADER_OFFSET_def NAME_LENGTH_def ID_LENGTH_def

datatype MessageType =
    GENERIC_HEADER
  | PROCESS_CONNECTION
  | SWAP_REQUEST
  | SWAP_CONFIRMATION
  | INVOCATION_REQUEST
  | INVOCATION_RESULT
  | DATAPLANE_METRICS
  | PROCESS_CLOSURE
  | APPLICATION_UPDATE
  | PUT_MESSAGE
  | END_FLAG

fun type_code :: "MessageType \<Rightarrow> int16" where
  "type_code GENERIC_HEADER = 0"
| "type_code PROCESS_CONNECTION = 1"
| "type_code SWAP_REQUEST = 2"
| "type_code SWAP_CONFIRMATION = 3"
| "type_code INVOCATION_REQUEST = 4"
| "type_code INVOCATION_RESULT = 5"
| "type_code DATAPLANE_METRICS = 6"
| "type_code PROCESS_CLOSURE = 7"
| "type_code APPLICATION_UPDATE = 8"
| "type_code PUT_MESSAGE = 9"
| "type_code END_FLAG = 10"

section \<open>Message objects\<close>

text \<open>
  The two instances of the class template parameter \<^verbatim>\<open>Data\<close>: a message that owns its bytes
  and one that points at bytes of a receive buffer. The argument of \<open>MessagePtr\<close> is the
  header's bytes at that address.
\<close>

datatype Data = MessageData bytes | MessagePtr bytes

definition MessageData_default :: Data where
  "MessageData_default = MessageData (replicate BUF_SIZE NUL)"

text \<open>The base class stamps the type into a message that owns its bytes, and only then.\<close>

fun Message_init :: "Data \<Rightarrow> MessageType \<Rightarrow> bytes" where
  "Message_init (MessageData b) t = put_i16 b 0 (type_code t)"
| "Message_init (MessagePtr b) t = b"

record message =
  msg_data :: bytes

record process_connection = message +
  process_name_len :: nat

record swap_request = message +
  path_len :: nat

record invocation_request = message +
  fname_len :: nat
  invocation_id_len :: nat

record invocation_result = message +
  result_id_len :: nat

record application_update = message +
  update_id_len :: nat
  ip_len :: nat

record put_message = message +
  name_len :: nat
  id_len :: nat

definition message_type :: "'a message_scheme \<Rightarrow> MessageType result" where
  "message_type m =
     (let t = sint (get_i16 (msg_data m) 0) in
      if t \<ge> sint (type_code END_FLAG) \<or> t < sint (type_code GENERIC_HEADER) then Inl InvalidMessage
      else Inr ([GENERIC_HEADER, PROCESS_CONNECTION, SWAP_REQUEST, SWAP_CONFIRMATION,
                 INVOCATION_REQUEST, INVOCATION_RESULT, DATAPLANE_METRICS, PROCESS_CLOSURE,
                 APPLICATION_UPDATE, PUT_MESSAGE] ! nat t))"

definition total_length :: "'a message_scheme \<Rightarrow> int32" where
  "total_length m = get_i32 (msg_data m) 2"

definition set_total_length :: "int32 \<Rightarrow> 'a message_scheme \<Rightarrow> 'a message_scheme" where
  "set_total_length len m = m\<lparr>msg_data := put_i32 (msg_data m) 2 len\<rparr>"

subsection \<open>Process connection\<close>

definition ProcessConnection :: "Data \<Rightarrow> process_connection" where
  "ProcessConnection d =
     (let b = Message_init d PROCESS_CONNECTION in
      \<lparr>msg_data = b, process_name_len = strnlen (drop HEADER_OFFSET b) NAME_LENGTH\<rparr>)"

definition process_name :: "process_connection \<Rightarrow> string" where
  "process_name m = peek (msg_data m) HEADER_OFFSET (process_name_len m)"

definition set_process_name :: "string \<Rightarrow> process_connection \<Rightarrow> process_connection result" where
  "set_process_name name m =
     (if length name > NAME_LENGTH then Inl InvalidArgument
      else Inr (m\<lparr>msg_data := put_cstr (msg_data m) HEADER_OFFSET NAME_LENGTH name,
                  process_name_len := length name\<rparr>))"

subsection \<open>Swap request and confirmation\<close>

definition SwapRequest :: "Data \<Rightarrow> swap_request" where
  "SwapRequest d =
     (let b = Message_init d SWAP_REQUEST in
      \<lparr>msg_data = b, path_len = strnlen (drop HEADER_OFFSET b) NAME_LENGTH\<rparr>)"

definition swap_path :: "swap_request \<Rightarrow> string" where
  "swap_path m = peek (msg_data m) HEADER_OFFSET (path_len m)"

definition set_path :: "string \<Rightarrow> swap_request \<Rightarrow> swap_request result" where
  "set_path p m =
     (if length p > ID_LENGTH then Inl InvalidArgument
      else Inr (m\<lparr>msg_data := put_cstr (msg_data m) HEADER_OFFSET ID_LENGTH p,
                  path_len := length p\<rparr>))"

definition SwapConfirmation :: "Data \<Rightarrow> message" where
  "SwapConfirmation d = \<lparr>msg_data = Message_init d SWAP_CONFIRMATION\<rparr>"

definition swap_size :: "message \<Rightarrow> int32" where
  "swap_size m = get_i32 (msg_data m) HEADER_OFFSET"

definition set_swap_size :: "int32 \<Rightarrow> message \<Rightarrow> message" where
  "set_swap_size sz m = m\<lparr>msg_data := put_i32 (msg_data m) HEADER_OFFSET sz\<rparr>"

subsection \<open>Invocation request\<close>

definition InvocationRequest :: "Data \<Rightarrow> invocation_request" where
  "InvocationRequest d =
     (let b = Message_init d INVOCATION_REQUEST in
      \<lparr>msg_data = b,
       fname_len = strnlen (drop (HEADER_OFFSET + 4) b) NAME_LENGTH,
       invocation_id_len = strnlen (drop (HEADER_OFFSET + NAME_LENGTH + 4) b) ID_LENGTH\<rparr>)"

definition set_invocation_id :: "string \<Rightarrow> invocation_request \<Rightarrow> invocation_request result" where
  "set_invocation_id name m =
     (if length name > ID_LENGTH then Inl InvalidArgument
      else Inr (m\<lparr>msg_data := put_cstr (msg_data m) (HEADER_OFFSET + NAME_LENGTH + 4) ID_LENGTH name,
                  invocation_id_len := length name\<rparr>))"

definition invocation_id :: "invocation_request \<Rightarrow> string" where
  "invocation_id m = peek (msg_data m) (HEADER_OFFSET + NAME_LENGTH + 4) (invocation_id_len m)"

definition function_name :: "invocation_request \<Rightarrow> string" where
  "function_name m = peek (msg_data m) (HEADER_OFFSET + 4) (fname_len m)"

definition set_function_name :: "string \<Rightarrow> invocation_request \<Rightarrow> invocation_request result" where
  "set_function_name name m =
     (if length name > NAME_LENGTH then Inl InvalidArgument
      else Inr (m\<lparr>msg_data := put_cstr (msg_data m) (HEADER_OFFSET + 4) NAME_LENGTH name,
                  fname_len := length name\<rparr>))"

definition payload_size :: "invocation_request \<Rightarrow> int32" where
  "payload_size m = get_i32 (msg_data m) HEADER_OFFSET"

definition set_payload_size :: "int32 \<Rightarrow> invocation_request \<Rightarrow> invocation_request result" where
  "set_payload_size sz m =
     (if sint sz < 0 then Inl InvalidArgument
      else Inr (m\<lparr>msg_data := put_i32 (msg_data m) HEADER_OFFSET sz\<rparr>))"

subsection \<open>Invocation result\<close>

definition InvocationResult :: "Data \<Rightarrow> invocation_result" where
  "InvocationResult d =
     (let b = Message_init d INVOCATION_RESULT in
      \<lparr>msg_data = b, result_id_len = strnlen (drop (HEADER_OFFSET + 4) b) ID_LENGTH\<rparr>)"

definition set_result_id :: "string \<Rightarrow> invocation_result \<Rightarrow> invocation_result result" where
  "set_result_id name m =
     (if length name > ID_LENGTH then Inl InvalidArgument
      else Inr (m\<lparr>msg_data := put_cstr (msg_data m) (HEADER_OFFSET + 4) ID_LENGTH name,
                  result_id_len := length name\<rparr>))"

definition result_id :: "invocation_result \<Rightarrow> string" where
  "result_id m = peek (msg_data m) (HEADER_OFFSET + 4) (result_id_len m)"

definition return_code :: "invocation_result \<Rightarrow> int32" where
  "return_code m = get_i32 (msg_data m) HEADER_OFFSET"

definition set_return_code :: "int32 \<Rightarrow> invocation_result \<Rightarrow> invocation_result" where
  "set_return_code code m = m\<lparr>msg_data := put_i32 (msg_data m) HEADER_OFFSET code\<rparr>"

subsection \<open>Data plane metrics and process closure\<close>

definition DataPlaneMetrics :: "Data \<Rightarrow> message" where
  "DataPlaneMetrics d = \<lparr>msg_data = Message_init d DATAPLANE_METRICS\<rparr>"

definition invocations :: "message \<Rightarrow> int32" where
  "invocations m = get_i32 (msg_data m) HEADER_OFFSET"

definition set_invocations :: "int32 \<Rightarrow> message \<Rightarrow> message result" where
  "set_invocations n m =
     (if sint n < 0 then Inl InvalidArgument
      else Inr (m\<lparr>msg_data := put_i32 (msg_data m) HEADER_OFFSET n\<rparr>))"

definition last_invocation_timestamp :: "message \<Rightarrow> uint64" where
  "last_invocation_timestamp m = get_u64 (msg_data m) (HEADER_OFFSET + 8)"

definition set_last_invocation_timestamp :: "uint64 \<Rightarrow> message \<Rightarrow> message" where
  "set_last_invocation_timestamp t m = m\<lparr>msg_data := put_u64 (msg_data m) (HEADER_OFFSET + 8) t\<rparr>"

definition computation_time :: "message \<Rightarrow> int32" where
  "computation_time m = get_i32 (msg_data m) (HEADER_OFFSET + 4)"

definition set_computation_time :: "int32 \<Rightarrow> message \<Rightarrow> message result" where
  "set_computation_time t m =
     (if sint t < 0 then Inl InvalidArgument
      else Inr (m\<lparr>msg_data := put_i32 (msg_data m) (HEADER_OFFSET + 4) t\<rparr>))"

definition ProcessClosure :: "Data \<Rightarrow> message" where
  "ProcessClosure d = \<lparr>msg_data = Message_init d PROCESS_CLOSURE\<rparr>"

subsection \<open>Application update\<close>

definition ApplicationUpdate :: "Data \<Rightarrow> application_update" where
  "ApplicationUpdate d =
     (let b = Message_init d APPLICATION_UPDATE in
      \<lparr>msg_data = b,
       update_id_len = strnlen (drop HEADER_OFFSET b) NAME_LENGTH,
       ip_len = strnlen (drop (HEADER_OFFSET + NAME_LENGTH) b) ID_LENGTH\<rparr>)"

definition update_process_id :: "application_update \<Rightarrow> string" where
  "update_process_id m = peek (msg_data m) HEADER_OFFSET (update_id_len m)"

definition set_update_process_id :: "string \<Rightarrow> application_update \<Rightarrow> application_update result" where
  "set_update_process_id name m =
     (if length name > NAME_LENGTH then Inl InvalidArgument
      else Inr (m\<lparr>msg_data := put_cstr (msg_data m) HEADER_OFFSET NAME_LENGTH name,
                  update_id_len := length name\<rparr>))"

definition set_ip_address :: "string \<Rightarrow> application_update \<Rightarrow> application_update result" where
  "set_ip_address ip m =
     (if length ip > ID_LENGTH then Inl InvalidArgument
      else Inr (m\<lparr>msg_data := put_cstr (msg_data m) (HEADER_OFFSET + NAME_LENGTH) ID_LENGTH ip,
                  ip_len := length ip\<rparr>))"

definition ip_address :: "application_update \<Rightarrow> string" where
  "ip_address m = peek (msg_data m) (HEADER_OFFSET + NAME_LENGTH) (ip_len m)"

definition status_change :: "application_update \<Rightarrow> int32" where
  "status_change m = get_i32 (msg_data m) (HEADER_OFFSET + NAME_LENGTH + ID_LENGTH)"

definition set_status_change :: "int32 \<Rightarrow> application_update \<Rightarrow> application_update" where
  "set_status_change st m =
     m\<lparr>msg_data := put_i32 (msg_data m) (HEADER_OFFSET + NAME_LENGTH + ID_LENGTH) st\<rparr>"

definition update_port :: "application_update \<Rightarrow> int32" where
  "update_port m = get_i32 (msg_data m) (HEADER_OFFSET + NAME_LENGTH + ID_LENGTH + 4)"

definition set_port :: "int32 \<Rightarrow> application_update \<Rightarrow> application_update" where
  "set_port p m =
     m\<lparr>msg_data := put_i32 (msg_data m) (HEADER_OFFSET + NAME_LENGTH + ID_LENGTH + 4) p\<rparr>"

subsection \<open>Put message\<close>

definition PutMessage :: "Data \<Rightarrow> put_message" where
  "PutMessage d =
     (let b = Message_init d PUT_MESSAGE in
      \<lparr>msg_data = b,
       name_len = strnlen (drop HEADER_OFFSET b) NAME_LENGTH,
       id_len = strnlen (drop (HEADER_OFFSET + NAME_LENGTH) b) NAME_LENGTH\<rparr>)"

definition set_put_name :: "string \<Rightarrow> put_message \<Rightarrow> put_message result" where
  "set_put_name name m =
     (if length name > NAME_LENGTH then Inl InvalidArgument
      else Inr (m\<lparr>msg_data := put_cstr (msg_data m) HEADER_OFFSET NAME_LENGTH name,
                  name_len := length name\<rparr>))"

definition put_name :: "put_message \<Rightarrow> string" where
  "put_name m = peek (msg_data m) HEADER_OFFSET (name_len m)"

definition set_put_process_id :: "string \<Rightarrow> put_message \<Rightarrow> put_message result" where
  "set_put_process_id name m =
     (if length name > NAME_LENGTH then Inl InvalidArgument
      else Inr (m\<lparr>msg_data := put_cstr (msg_data m) (HEADER_OFFSET + NAME_LENGTH) NAME_LENGTH name,
                  id_len := length name\<rparr>))"

definition put_process_id :: "put_message \<Rightarrow> string" where
  "put_process_id m = peek (msg_data m) (HEADER_OFFSET + NAME_LENGTH) (id_len m)"

section \<open>The parser\<close>

datatype MessageVariants =
    Monostate
  | ProcessConnectionPtr process_connection
  | SwapRequestPtr swap_request
  | SwapConfirmationPtr message
  | InvocationRequestPtr invocation_request
  | InvocationResultPtr invocation_result
  | DataPlaneMetricsPtr message
  | ProcessClosurePtr message
  | ApplicationUpdatePtr application_update
  | PutMessagePtr put_message

definition parse :: "bytes \<Rightarrow> MessageVariants result" where
  "parse data =
     (let t = get_i16 data 0; p = MessagePtr data in
      if sint t \<ge> sint (type_code END_FLAG) \<or> sint t < sint (type_code GENERIC_HEADER)
      then Inl InvalidMessage
      else if t = type_code PROCESS_CONNECTION then Inr (ProcessConnectionPtr (ProcessConnection p))
      else if t = type_code SWAP_REQUEST then Inr (SwapRequestPtr (SwapRequest p))
      else if t = type_code SWAP_CONFIRMATION then Inr (SwapConfirmationPtr (SwapConfirmation p))
      else if t = type_code INVOCATION_REQUEST then Inr (InvocationRequestPtr (InvocationRequest p))
      else if t = type_code INVOCATION_RESULT then Inr (InvocationResultPtr (InvocationResult p))
      else if t = type_code DATAPLANE_METRICS then Inr (DataPlaneMetricsPtr (DataPlaneMetrics p))
      else if t = type_code PROCESS_CLOSURE then Inr (ProcessClosurePtr (ProcessClosure p))
      else if t = type_code APPLICATION_UPDATE then Inr (ApplicationUpdatePtr (ApplicationUpdate p))
      else if t = type_code PUT_MESSAGE then Inr (PutMessagePtr (PutMessage p))
      else Inl NotImplementedError)"

text \<open>The type tag of a parsed message, for the statements below.\<close>

fun variant_type :: "MessageVariants \<Rightarrow> MessageType" where
  "variant_type Monostate = GENERIC_HEADER"
| "variant_type (ProcessConnectionPtr _) = PROCESS_CONNECTION"
| "variant_type (SwapRequestPtr _) = SWAP_REQUEST"
| "variant_type (SwapConfirmationPtr _) = SWAP_CONFIRMATION"
| "variant_type (InvocationRequestPtr _) = INVOCATION_REQUEST"
| "variant_type (InvocationResultPtr _) = INVOCATION_RESULT"
| "variant_type (DataPlaneMetricsPtr _) = DATAPLANE_METRICS"
| "variant_type (ProcessClosurePtr _) = PROCESS_CLOSURE"
| "variant_type (ApplicationUpdatePtr _) = APPLICATION_UPDATE"
| "variant_type (PutMessagePtr _) = PUT_MESSAGE"

section \<open>Type codes\<close>

lemma type_code_inj [simp]: "type_code s = type_code t \<longleftrightarrow> s = t"
  by (cases s; cases t) simp_all

lemma sint_type_code [simp]:
  "sint (type_code t) = (case t of GENERIC_HEADER \<Rightarrow> 0 | PROCESS_CONNECTION \<Rightarrow> 1 | SWAP_REQUEST \<Rightarrow> 2
     | SWAP_CONFIRMATION \<Rightarrow> 3 | INVOCATION_REQUEST \<Rightarrow> 4 | INVOCATION_RESULT \<Rightarrow> 5
     | DATAPLANE_METRICS \<Rightarrow> 6 | PROCESS_CLOSURE \<Rightarrow> 7 | APPLICATION_UPDATE \<Rightarrow> 8
     | PUT_MESSAGE \<Rightarrow> 9 | END_FLAG \<Rightarrow> 10)"
  by (cases t) simp_all

lemma valid_type_code:
  assumes "0 \<le> sint (w :: int16)" and "sint w < 10"
  shows "\<exists>t. t \<noteq> END_FLAG \<and> w = type_code t"
proof -
  from assms have "sint w \<in> {0, 1, 2, 3, 4, 5, 6, 7, 8, 9}" by simp presburger
  moreover have "w = word_of_int (sint w)" by simp
  ultimately have "w \<in> {0, 1, 2, 3, 4, 5, 6, 7, 8, 9}"
    by (elim insertE emptyE) (metis insert_iff of_int_0 of_int_1 of_int_numeral)+
  then have "w \<in> type_code ` {GENERIC_HEADER, PROCESS_CONNECTION, SWAP_REQUEST, SWAP_CONFIRMATION,
      INVOCATION_REQUEST, INVOCATION_RESULT, DATAPLANE_METRICS, PROCESS_CLOSURE,
      APPLICATION_UPDATE, PUT_MESSAGE}" by simp
  then show ?thesis by auto
qed

lemma parse_type_code:
  "get_i16 b 0 = type_code t \<Longrightarrow>
     parse b = (case t of GENERIC_HEADER \<Rightarrow> Inl NotImplementedError
       | PROCESS_CONNECTION \<Rightarrow> Inr (ProcessConnectionPtr (ProcessConnection (MessagePtr b)))
       | SWAP_REQUEST \<Rightarrow> Inr (SwapRequestPtr (SwapRequest (MessagePtr b)))
       | SWAP_CONFIRMATION \<Rightarrow> Inr (SwapConfirmationPtr (SwapConfirmation (MessagePtr b)))
       | INVOCATION_REQUEST \<Rightarrow> Inr (InvocationRequestPtr (InvocationRequest (MessagePtr b)))
       | INVOCATION_RESULT \<Rightarrow> Inr (InvocationResultPtr (InvocationResult (MessagePtr b)))
       | DATAPLANE_METRICS \<Rightarrow> Inr (DataPlaneMetricsPtr (DataPlaneMetrics (MessagePtr b)))
       | PROCESS_CLOSURE \<Rightarrow> Inr (ProcessClosurePtr (ProcessClosure (MessagePtr b)))
       | APPLICATION_UPDATE \<Rightarrow> Inr (ApplicationUpdatePtr (ApplicationUpdate (MessagePtr b)))
       | PUT_MESSAGE \<Rightarrow> Inr (PutMessagePtr (PutMessage (MessagePtr b)))
       | END_FLAG \<Rightarrow> Inl InvalidMessage)"
  by (cases t) (simp_all add: parse_def Let_def)

lemma parse_out_of_range:
  "sint (get_i16 b 0) < 0 \<or> 10 \<le> sint (get_i16 b 0) \<Longrightarrow> parse b = Inl InvalidMessage"
  by (auto simp: parse_def Let_def)

lemma parse_cases:
  obtains (Range) "sint (get_i16 b 0) < 0 \<or> 10 \<le> sint (get_i16 b 0)"
  | (Type) t where "get_i16 b 0 = type_code t" "t \<noteq> END_FLAG"
  using valid_type_code [of "get_i16 b 0"] by fastforce

section \<open>Message classes\<close>

text \<open>
  What the message classes have in common, and what their users rely on: the cached lengths
  of an object agree with its bytes, and the parser dispatches on the type that the
  constructor stamps. An object with this property is parsed back to itself. The nine classes
  interpret the locale.
\<close>

definition coherent :: "(Data \<Rightarrow> 'm) \<Rightarrow> ('m \<Rightarrow> bytes) \<Rightarrow> MessageType \<Rightarrow> 'm \<Rightarrow> bool" where
  "coherent ctor raw t m \<longleftrightarrow>
     length (raw m) = BUF_SIZE \<and> get_i16 (raw m) 0 = type_code t \<and> m = ctor (MessagePtr (raw m))"

locale message_class =
  fixes ctor :: "Data \<Rightarrow> 'm"
    and raw :: "'m \<Rightarrow> bytes"
    and t :: MessageType
    and wrap :: "'m \<Rightarrow> MessageVariants"
  assumes raw_ptr: "raw (ctor (MessagePtr b)) = b"
    and ctor_data: "ctor (MessageData b) = ctor (MessagePtr (put_i16 b 0 (type_code t)))"
    and dispatch: "get_i16 b 0 = type_code t \<Longrightarrow> parse b = Inr (wrap (ctor (MessagePtr b)))"
begin

lemma parse_coherent: "coherent ctor raw t m \<Longrightarrow> parse (raw m) = Inr (wrap m)"
  by (metis coherent_def dispatch)

lemma coherent_fresh: "coherent ctor raw t (ctor MessageData_default)"
  by (simp add: coherent_def MessageData_default_def ctor_data raw_ptr get_put_same)

end

interpretation pc: message_class ProcessConnection msg_data PROCESS_CONNECTION ProcessConnectionPtr
  by unfold_locales (auto simp: ProcessConnection_def parse_def Let_def)

interpretation sr: message_class SwapRequest msg_data SWAP_REQUEST SwapRequestPtr
  by unfold_locales (auto simp: SwapRequest_def parse_def Let_def)

interpretation sc: message_class SwapConfirmation msg_data SWAP_CONFIRMATION SwapConfirmationPtr
  by unfold_locales (auto simp: SwapConfirmation_def parse_def)

interpretation iq: message_class InvocationRequest msg_data INVOCATION_REQUEST InvocationRequestPtr
  by unfold_locales (auto simp: InvocationRequest_def parse_def Let_def)

interpretation ir: message_class InvocationResult msg_data INVOCATION_RESULT InvocationResultPtr
  by unfold_locales (auto simp: InvocationResult_def parse_def Let_def)

interpretation dm: message_class DataPlaneMetrics msg_data DATAPLANE_METRICS DataPlaneMetricsPtr
  by unfold_locales (auto simp: DataPlaneMetrics_def parse_def)

interpretation cl: message_class ProcessClosure msg_data PROCESS_CLOSURE ProcessClosurePtr
  by unfold_locales (auto simp: ProcessClosure_def parse_def)

interpretation au: message_class ApplicationUpdate msg_data APPLICATION_UPDATE ApplicationUpdatePtr
  by unfold_locales (auto simp: ApplicationUpdate_def parse_def Let_def)

interpretation pm: message_class PutMessage msg_data PUT_MESSAGE PutMessagePtr
  by unfold_locales (auto simp: PutMessage_def parse_def Let_def)

section \<open>Setters and getters\<close>

lemmas message_ctors = ProcessConnection_def SwapRequest_def SwapConfirmation_def
  InvocationRequest_def InvocationResult_def DataPlaneMetrics_def ProcessClosure_def
  ApplicationUpdate_def PutMessage_def MessageData_default_def

lemmas message_setters = set_total_length_def set_process_name_def set_path_def set_swap_size_def
  set_invocation_id_def set_function_name_def set_payload_size_def set_result_id_def
  set_return_code_def set_invocations_def set_last_invocation_timestamp_def
  set_computation_time_def set_update_process_id_def set_ip_address_def set_status_change_def
  set_port_def set_put_name_def set_put_process_id_def

lemmas message_getters = process_name_def swap_path_def swap_size_def function_name_def
  invocation_id_def payload_size_def result_id_def return_code_def invocations_def
  last_invocation_timestamp_def computation_time_def update_process_id_def ip_address_def
  status_change_def update_port_def put_name_def put_process_id_def total_length_def

lemmas message_simps = coherent_def Let_def message_ctors message_setters message_getters mem_simps

text \<open>Every setter keeps an object coherent, whatever the order they are called in.\<close>

lemma coherent_set_total_length:
  "coherent ProcessConnection msg_data PROCESS_CONNECTION p \<Longrightarrow>
     coherent ProcessConnection msg_data PROCESS_CONNECTION (set_total_length len p)"
  "coherent InvocationRequest msg_data INVOCATION_REQUEST q \<Longrightarrow>
     coherent InvocationRequest msg_data INVOCATION_REQUEST (set_total_length len q)"
  "coherent InvocationResult msg_data INVOCATION_RESULT r \<Longrightarrow>
     coherent InvocationResult msg_data INVOCATION_RESULT (set_total_length len r)"
  "coherent PutMessage msg_data PUT_MESSAGE u \<Longrightarrow>
     coherent PutMessage msg_data PUT_MESSAGE (set_total_length len u)"
  by (cases p; cases q; cases r; cases u; auto simp: message_simps)+

lemma coherent_set_invocation_request:
  assumes "coherent InvocationRequest msg_data INVOCATION_REQUEST m"
  shows "no_nul s \<Longrightarrow> set_function_name s m = Inr m' \<Longrightarrow>
           coherent InvocationRequest msg_data INVOCATION_REQUEST m'"
    and "no_nul s \<Longrightarrow> set_invocation_id s m = Inr m' \<Longrightarrow>
           coherent InvocationRequest msg_data INVOCATION_REQUEST m'"
    and "set_payload_size n m = Inr m' \<Longrightarrow>
           coherent InvocationRequest msg_data INVOCATION_REQUEST m'"
  using assms by (cases m; auto simp: message_simps split: if_splits)+

text \<open>A swap request writes a path of at most sixteen characters, and reads up to thirty-two back.\<close>

lemma swap_request_ok:
  assumes "no_nul p" and "length p \<le> ID_LENGTH"
  shows "\<exists>m. set_path p (SwapRequest MessageData_default) = Inr m \<and>
             parse (msg_data m) = Inr (SwapRequestPtr m) \<and> swap_path m = p"
proof -
  let ?b = "put_i16 (replicate 70 NUL) 0 2"
  have "peek (put_cstr ?b 6 16 p) 6 32 = p @ replicate (32 - length p) NUL"
    using assms by (simp add: put_defs poke_def peek_def strncpy_no_nul flip: replicate_add)
  then have "takeWhile (\<lambda>c. c \<noteq> NUL) (peek (put_cstr ?b 6 16 p) 6 32) = p"
    using assms by (simp add: takeWhile_no_nul takeWhile_eq_Nil_iff hd_replicate)
  with assms show ?thesis by (simp add: message_simps parse_def)
qed

section \<open>Properties\<close>

text \<open>
  C33. The parser accepts exactly the headers whose type field is one of the nine message types,
  and returns the class of that type; a generic header is refused as not implemented, any other
  value of the field as an invalid message.
\<close>

theorem parse_classifies:
  "((\<exists>v. parse b = Inr v \<and> variant_type v = t) \<longleftrightarrow>
      get_i16 b 0 = type_code t \<and> t \<noteq> GENERIC_HEADER \<and> t \<noteq> END_FLAG) \<and>
   (parse b = Inl NotImplementedError \<longleftrightarrow> get_i16 b 0 = type_code GENERIC_HEADER) \<and>
   (parse b = Inl InvalidMessage \<longleftrightarrow> sint (get_i16 b 0) < 0 \<or> 10 \<le> sint (get_i16 b 0))"
proof (cases b rule: parse_cases)
  case Range
  moreover from Range have "get_i16 b 0 = type_code u \<Longrightarrow> u = END_FLAG" for u by (cases u) auto
  ultimately show ?thesis by (auto simp: parse_out_of_range)
next
  case (Type u)
  from Type(1) have "sint (get_i16 b 0) = sint (type_code u)" by simp
  with Type(2) parse_type_code [OF Type(1)] show ?thesis
    unfolding Type(1) type_code_inj by (cases u) auto
qed

text \<open>
  C34. An invocation request that a client fills in, with names that fit their fields and a
  non-negative payload size, is parsed by the receiver to an identical object: function name,
  invocation id, payload size and total length arrive as they were set.
\<close>

theorem invocation_request_roundtrip:
  assumes "no_nul f" and "length f \<le> NAME_LENGTH" and "no_nul i" and "length i \<le> ID_LENGTH"
    and "0 \<le> sint n"
  shows "\<exists>m. and_then (set_invocation_id i (InvocationRequest MessageData_default))
               (\<lambda>m. and_then (set_function_name f m) (set_payload_size n)) = Inr m \<and>
             (let m' = set_total_length len m in
              parse (msg_data m') = Inr (InvocationRequestPtr m') \<and>
              function_name m' = f \<and> invocation_id m' = i \<and> payload_size m' = n \<and>
              total_length m' = len)"
  using assms by (simp add: message_simps parse_def)

theorem invocation_request_roundtrip_witness:
  "\<exists>m. and_then (set_invocation_id ''id-1'' (InvocationRequest MessageData_default))
         (\<lambda>m. and_then (set_function_name ''add'' m) (set_payload_size 8)) = Inr m \<and>
       (let m' = set_total_length 8 m in
        parse (msg_data m') = Inr (InvocationRequestPtr m') \<and>
        function_name m' = ''add'' \<and> invocation_id m' = ''id-1'' \<and> payload_size m' = 8 \<and>
        total_length m' = 8)"
  by (rule invocation_request_roundtrip) (simp_all add: no_nul_def)

text \<open>
  An application update built by the control plane is parsed by the process to an identical
  object: the process name, its address, the port and the status change arrive as they were set,
  none of the five fields overlapping another.
\<close>

lemma application_update_roundtrip:
  assumes "no_nul p" and "length p \<le> NAME_LENGTH" and "no_nul a" and "length a \<le> ID_LENGTH"
  shows "\<exists>m. and_then (set_update_process_id p (set_status_change st (ApplicationUpdate MessageData_default)))
               (set_ip_address a) = Inr m \<and>
             (let m' = set_total_length len (set_port pt m) in
              parse (msg_data m') = Inr (ApplicationUpdatePtr m') \<and>
              update_process_id m' = p \<and> ip_address m' = a \<and> status_change m' = st \<and>
              update_port m' = pt \<and> total_length m' = len)"
  using assms by (simp add: message_simps parse_def)

lemma application_update_roundtrip_witness:
  "\<exists>m. and_then (set_update_process_id ''proc'' (set_status_change 1 (ApplicationUpdate MessageData_default)))
         (set_ip_address ''127.0.0.1'') = Inr m \<and>
       (let m' = set_total_length 0 (set_port 8080 m) in
        parse (msg_data m') = Inr (ApplicationUpdatePtr m') \<and>
        update_process_id m' = ''proc'' \<and> ip_address m' = ''127.0.0.1'' \<and> status_change m' = 1 \<and>
        update_port m' = 8080 \<and> total_length m' = 0)"
  by (rule application_update_roundtrip) (simp_all add: no_nul_def)

text \<open>
  The messages that travel between two processes, the connection header, a put and an
  invocation result, are parsed to identical objects with the fields that were set.
\<close>

lemma peer_messages_roundtrip:
  assumes "no_nul s" and "length s \<le> NAME_LENGTH" and "no_nul p" and "length p \<le> NAME_LENGTH"
    and "no_nul i" and "length i \<le> ID_LENGTH"
  shows "(\<exists>m. set_process_name s (ProcessConnection MessageData_default) = Inr m \<and>
              parse (msg_data m) = Inr (ProcessConnectionPtr m) \<and> process_name m = s) \<and>
         (\<exists>m. and_then (set_put_name s (PutMessage MessageData_default)) (set_put_process_id p) = Inr m \<and>
              (let m' = set_total_length len m in
               parse (msg_data m') = Inr (PutMessagePtr m') \<and>
               put_name m' = s \<and> put_process_id m' = p \<and> total_length m' = len)) \<and>
         (\<exists>m. set_result_id i (set_return_code rc (InvocationResult MessageData_default)) = Inr m \<and>
              (let m' = set_total_length len m in
               parse (msg_data m') = Inr (InvocationResultPtr m') \<and>
               result_id m' = i \<and> return_code m' = rc \<and> total_length m' = len))"
  using assms by (simp add: message_simps parse_def)

lemma peer_messages_roundtrip_witness:
  "\<exists>m. and_then (set_put_name ''msg'' (PutMessage MessageData_default)) (set_put_process_id ''other'') = Inr m \<and>
       (let m' = set_total_length 12 m in
        parse (msg_data m') = Inr (PutMessagePtr m') \<and>
        put_name m' = ''msg'' \<and> put_process_id m' = ''other'' \<and> total_length m' = 12)"
  using peer_messages_roundtrip [of "''msg''" "''other''" "''id''" 12 0] by (simp add: no_nul_def)

text \<open>
  The messages between a process and the control plane: data plane metrics, a swap request
  and its confirmation are parsed to identical objects. Negative counts and times, and a swap
  location of more than sixteen characters, are refused.
\<close>

lemma control_messages_roundtrip:
  assumes "0 \<le> sint n" and "0 \<le> sint t" and "no_nul p" and "length p \<le> ID_LENGTH"
  shows "(\<exists>m. and_then (set_invocations n (DataPlaneMetrics MessageData_default)) (set_computation_time t) = Inr m \<and>
              (let m' = set_last_invocation_timestamp ts m in
               parse (msg_data m') = Inr (DataPlaneMetricsPtr m') \<and>
               invocations m' = n \<and> computation_time m' = t \<and> last_invocation_timestamp m' = ts)) \<and>
         (let m = set_swap_size sz (SwapConfirmation MessageData_default) in
          parse (msg_data m) = Inr (SwapConfirmationPtr m) \<and> swap_size m = sz) \<and>
         (\<exists>m. set_path p (SwapRequest MessageData_default) = Inr m \<and>
              parse (msg_data m) = Inr (SwapRequestPtr m) \<and> swap_path m = p) \<and>
         (\<forall>v m. sint v < 0 \<longrightarrow> set_invocations v m = Inl InvalidArgument \<and> set_computation_time v m = Inl InvalidArgument) \<and>
         (\<forall>s m. ID_LENGTH < length s \<longrightarrow> set_path s m = Inl InvalidArgument)"
proof (intro conjI)
  show "\<exists>m. set_path p (SwapRequest MessageData_default) = Inr m \<and>
            parse (msg_data m) = Inr (SwapRequestPtr m) \<and> swap_path m = p"
    using assms(3,4) by (rule swap_request_ok)
qed (use assms in \<open>simp_all add: message_simps parse_def\<close>)

lemma control_messages_roundtrip_witness:
  "\<exists>m. set_path ''swaps/app/proc'' (SwapRequest MessageData_default) = Inr m \<and>
       parse (msg_data m) = Inr (SwapRequestPtr m) \<and> swap_path m = ''swaps/app/proc''"
  using control_messages_roundtrip [of 3 100 "''swaps/app/proc''" 0 0] by (simp add: no_nul_def)

end
