(* ===== verification/Ipc_Messages.thy ===== *)
theory Ipc_Messages
  imports Prelude
begin

text \<open>
  The messages between a process controller and its function invokers:
  \<^verbatim>\<open>src/process/runtime/include/praas/process/runtime/internal/ipc/messages.hpp\<close> and
  \<^verbatim>\<open>src/process/runtime/src/internal/messages.cpp\<close>. Each class has a parsed form, which holds
  a pointer into a received header and the lengths of the string fields, and a form that owns
  the header and adds the setters; its inherited parsed part points into its own header. Both
  are one record here: the bytes of the header and the cached lengths.
\<close>

section \<open>Layout\<close>

definition IPC_HEADER_OFFSET :: nat where "IPC_HEADER_OFFSET = 6"
definition IPC_NAME_LENGTH :: nat where "IPC_NAME_LENGTH = 32"
definition IPC_ID_LENGTH :: nat where "IPC_ID_LENGTH = 16"
definition IPC_BUF_SIZE :: nat where "IPC_BUF_SIZE = 128"
definition MAX_BUFFERS :: nat where "MAX_BUFFERS = 16"

lemmas ipc_layout [simp] = IPC_HEADER_OFFSET_def IPC_NAME_LENGTH_def IPC_ID_LENGTH_def
  IPC_BUF_SIZE_def MAX_BUFFERS_def

datatype ipc_type =
    IPC_GENERIC_HEADER
  | IPC_GET_REQUEST
  | IPC_PUT_REQUEST
  | IPC_INVOCATION_REQUEST
  | IPC_INVOCATION_RESULT
  | IPC_APPLICATION_UPDATE
  | IPC_STATE_KEYS_REQUEST
  | IPC_STATE_KEYS_RESULT
  | IPC_END_FLAG

fun ipc_type_code :: "ipc_type \<Rightarrow> int16" where
  "ipc_type_code IPC_GENERIC_HEADER = 0"
| "ipc_type_code IPC_GET_REQUEST = 1"
| "ipc_type_code IPC_PUT_REQUEST = 2"
| "ipc_type_code IPC_INVOCATION_REQUEST = 3"
| "ipc_type_code IPC_INVOCATION_RESULT = 4"
| "ipc_type_code IPC_APPLICATION_UPDATE = 5"
| "ipc_type_code IPC_STATE_KEYS_REQUEST = 6"
| "ipc_type_code IPC_STATE_KEYS_RESULT = 7"
| "ipc_type_code IPC_END_FLAG = 8"

section \<open>Messages\<close>

definition ipc_Message :: "ipc_type \<Rightarrow> bytes" where
  "ipc_Message t = put_i16 (replicate IPC_BUF_SIZE NUL) 0 (ipc_type_code t)"

definition ipc_type_of :: "bytes \<Rightarrow> ipc_type result" where
  "ipc_type_of buf =
     (let t = sint (get_i16 buf 0) in
      if t \<ge> sint (ipc_type_code IPC_END_FLAG) \<or> t < sint (ipc_type_code IPC_GENERIC_HEADER)
      then Inl InvalidMessage
      else Inr ([IPC_GENERIC_HEADER, IPC_GET_REQUEST, IPC_PUT_REQUEST, IPC_INVOCATION_REQUEST,
                 IPC_INVOCATION_RESULT, IPC_APPLICATION_UPDATE, IPC_STATE_KEYS_REQUEST,
                 IPC_STATE_KEYS_RESULT] ! nat t))"

definition ipc_total_length :: "bytes \<Rightarrow> int32" where
  "ipc_total_length buf = get_i32 buf 2"

definition set_ipc_total_length :: "int32 \<Rightarrow> bytes \<Rightarrow> bytes" where
  "set_ipc_total_length len buf = put_i32 buf 2 len"

subsection \<open>Get and put requests\<close>

record generic_request =
  gr_data :: bytes
  gr_id_len :: nat
  gr_name_len :: nat

definition GenericRequestParsed :: "bytes \<Rightarrow> generic_request" where
  "GenericRequestParsed buf =
     \<lparr>gr_data = buf,
      gr_id_len = strnlen (drop (IPC_HEADER_OFFSET + 4) buf) IPC_NAME_LENGTH,
      gr_name_len = strnlen (drop (IPC_HEADER_OFFSET + 4 + IPC_NAME_LENGTH) buf) IPC_NAME_LENGTH\<rparr>"

definition gr_state :: "generic_request \<Rightarrow> bool" where
  "gr_state m = get_bool (gr_data m) (IPC_HEADER_OFFSET + IPC_NAME_LENGTH * 2 + 4)"

definition set_gr_state :: "bool \<Rightarrow> generic_request \<Rightarrow> generic_request" where
  "set_gr_state v m =
     m\<lparr>gr_data := put_bool (gr_data m) (IPC_HEADER_OFFSET + IPC_NAME_LENGTH * 2 + 4) v\<rparr>"

definition GenericRequest :: "ipc_type \<Rightarrow> generic_request" where
  "GenericRequest t = set_gr_state False (GenericRequestParsed (ipc_Message t))"

definition GetRequest :: generic_request where
  "GetRequest = GenericRequest IPC_GET_REQUEST"

definition PutRequest :: generic_request where
  "PutRequest = GenericRequest IPC_PUT_REQUEST"

definition gr_data_len :: "generic_request \<Rightarrow> int32" where
  "gr_data_len m = get_i32 (gr_data m) IPC_HEADER_OFFSET"

definition gr_process_id :: "generic_request \<Rightarrow> string" where
  "gr_process_id m = peek (gr_data m) (IPC_HEADER_OFFSET + 4) (gr_id_len m)"

definition gr_name :: "generic_request \<Rightarrow> string" where
  "gr_name m = peek (gr_data m) (IPC_HEADER_OFFSET + IPC_NAME_LENGTH + 4) (gr_name_len m)"

definition set_gr_data_len :: "int32 \<Rightarrow> generic_request \<Rightarrow> generic_request" where
  "set_gr_data_len len m = m\<lparr>gr_data := put_i32 (gr_data m) IPC_HEADER_OFFSET len\<rparr>"

definition set_gr_process_id :: "string \<Rightarrow> generic_request \<Rightarrow> generic_request result" where
  "set_gr_process_id pid m =
     (if length pid > IPC_NAME_LENGTH then Inl InvalidArgument
      else Inr (m\<lparr>gr_data := put_cstr (gr_data m) (IPC_HEADER_OFFSET + 4) IPC_NAME_LENGTH pid,
                  gr_id_len := length pid\<rparr>))"

definition set_gr_name :: "string \<Rightarrow> generic_request \<Rightarrow> generic_request result" where
  "set_gr_name name m =
     (if length name > IPC_NAME_LENGTH then Inl InvalidArgument
      else Inr (m\<lparr>gr_data := put_cstr (gr_data m) (IPC_HEADER_OFFSET + 4 + IPC_NAME_LENGTH)
                                IPC_NAME_LENGTH name,
                  gr_name_len := length name\<rparr>))"

subsection \<open>Invocation request\<close>

record ipc_invocation_request =
  irq_data :: bytes
  irq_process_id_len :: nat
  irq_id_len :: nat
  irq_name_len :: nat

definition InvocationRequestParsed :: "bytes \<Rightarrow> ipc_invocation_request" where
  "InvocationRequestParsed buf =
     \<lparr>irq_data = buf,
      irq_process_id_len =
        strnlen (drop (IPC_HEADER_OFFSET + IPC_ID_LENGTH + IPC_NAME_LENGTH) buf) IPC_ID_LENGTH,
      irq_id_len = strnlen (drop IPC_HEADER_OFFSET buf) IPC_ID_LENGTH,
      irq_name_len = strnlen (drop (IPC_HEADER_OFFSET + IPC_ID_LENGTH) buf) IPC_NAME_LENGTH\<rparr>"

definition ipc_InvocationRequest :: ipc_invocation_request where
  "ipc_InvocationRequest = InvocationRequestParsed (ipc_Message IPC_INVOCATION_REQUEST)"

definition irq_buffers :: "ipc_invocation_request \<Rightarrow> int32" where
  "irq_buffers m = get_i32 (irq_data m) (IPC_HEADER_OFFSET + 2 * IPC_ID_LENGTH + IPC_NAME_LENGTH)"

text \<open>Element \<open>i\<close> of the array that \<^verbatim>\<open>buffers_lengths\<close> returns a pointer to.\<close>

definition irq_buffers_lengths :: "ipc_invocation_request \<Rightarrow> nat \<Rightarrow> int32" where
  "irq_buffers_lengths m i =
     get_i32 (irq_data m) (IPC_HEADER_OFFSET + 2 * IPC_ID_LENGTH + IPC_NAME_LENGTH + 4 + 4 * i)"

definition irq_process_id :: "ipc_invocation_request \<Rightarrow> string" where
  "irq_process_id m =
     peek (irq_data m) (IPC_HEADER_OFFSET + IPC_ID_LENGTH + IPC_NAME_LENGTH) (irq_process_id_len m)"

definition irq_invocation_id :: "ipc_invocation_request \<Rightarrow> string" where
  "irq_invocation_id m = peek (irq_data m) IPC_HEADER_OFFSET (irq_id_len m)"

definition irq_function_name :: "ipc_invocation_request \<Rightarrow> string" where
  "irq_function_name m = peek (irq_data m) (IPC_HEADER_OFFSET + IPC_ID_LENGTH) (irq_name_len m)"

definition set_irq_process_id :: "string \<Rightarrow> ipc_invocation_request \<Rightarrow> ipc_invocation_request result" where
  "set_irq_process_id pid m =
     (if length pid > IPC_ID_LENGTH then Inl InvalidArgument
      else Inr (m\<lparr>irq_data := put_cstr (irq_data m)
                     (IPC_HEADER_OFFSET + IPC_ID_LENGTH + IPC_NAME_LENGTH) IPC_ID_LENGTH pid,
                  irq_process_id_len := length pid\<rparr>))"

definition set_irq_invocation_id :: "string \<Rightarrow> ipc_invocation_request \<Rightarrow> ipc_invocation_request result" where
  "set_irq_invocation_id iid m =
     (if length iid > IPC_ID_LENGTH then Inl InvalidArgument
      else Inr (m\<lparr>irq_data := put_cstr (irq_data m) IPC_HEADER_OFFSET IPC_ID_LENGTH iid,
                  irq_id_len := length iid\<rparr>))"

definition set_irq_function_name :: "string \<Rightarrow> ipc_invocation_request \<Rightarrow> ipc_invocation_request result" where
  "set_irq_function_name name m =
     (if length name > IPC_NAME_LENGTH then Inl InvalidArgument
      else Inr (m\<lparr>irq_data := put_cstr (irq_data m) (IPC_HEADER_OFFSET + IPC_ID_LENGTH)
                                 IPC_NAME_LENGTH name,
                  irq_name_len := length name\<rparr>))"

definition set_irq_buffer :: "int32 \<Rightarrow> ipc_invocation_request \<Rightarrow> ipc_invocation_request" where
  "set_irq_buffer len m =
     m\<lparr>irq_data := put_i32s (irq_data m) (IPC_HEADER_OFFSET + IPC_NAME_LENGTH + 2 * IPC_ID_LENGTH)
                     [1, len]\<rparr>"

text \<open>
  The two overloads that take a range of lengths, one of \<^verbatim>\<open>int32_t\<close> and one of buffers. The
  check against \<open>MAX_BUFFERS\<close> is the code's; the writes go past the end of the header when
  the count and the lengths do not fit behind offset 70, which C++ gives no meaning to.
\<close>

definition set_irq_buffers :: "int32 list \<Rightarrow> ipc_invocation_request \<Rightarrow> ipc_invocation_request result" where
  "set_irq_buffers lens m =
     (let elems = length lens; off = IPC_HEADER_OFFSET + IPC_NAME_LENGTH + 2 * IPC_ID_LENGTH in
      if elems > MAX_BUFFERS then Inl InvalidArgument
      else if off + 4 + 4 * elems > IPC_BUF_SIZE then Inl UndefinedBehaviour
      else Inr (m\<lparr>irq_data := put_i32s (irq_data m) off (i32_of_size elems # lens)\<rparr>))"

definition set_irq_buffers_iter :: "nat list \<Rightarrow> ipc_invocation_request \<Rightarrow> ipc_invocation_request result" where
  "set_irq_buffers_iter lens m = set_irq_buffers (map i32_of_size lens) m"

subsection \<open>Invocation result\<close>

record ipc_invocation_result =
  irs_data :: bytes
  irs_id_len :: nat

definition InvocationResultParsed :: "bytes \<Rightarrow> ipc_invocation_result" where
  "InvocationResultParsed buf =
     \<lparr>irs_data = buf, irs_id_len = strnlen (drop IPC_HEADER_OFFSET buf) IPC_ID_LENGTH\<rparr>"

definition ipc_InvocationResult :: ipc_invocation_result where
  "ipc_InvocationResult = InvocationResultParsed (ipc_Message IPC_INVOCATION_RESULT)"

definition irs_invocation_id :: "ipc_invocation_result \<Rightarrow> string" where
  "irs_invocation_id m = peek (irs_data m) IPC_HEADER_OFFSET (irs_id_len m)"

definition irs_buffer_length :: "ipc_invocation_result \<Rightarrow> int32" where
  "irs_buffer_length m = get_i32 (irs_data m) (IPC_HEADER_OFFSET + IPC_ID_LENGTH)"

definition irs_return_code :: "ipc_invocation_result \<Rightarrow> int32" where
  "irs_return_code m = get_i32 (irs_data m) (IPC_HEADER_OFFSET + IPC_ID_LENGTH + 4)"

definition set_irs_invocation_id :: "string \<Rightarrow> ipc_invocation_result \<Rightarrow> ipc_invocation_result result" where
  "set_irs_invocation_id iid m =
     (if length iid > IPC_ID_LENGTH then Inl InvalidArgument
      else Inr (m\<lparr>irs_data := put_cstr (irs_data m) IPC_HEADER_OFFSET IPC_ID_LENGTH iid,
                  irs_id_len := length iid\<rparr>))"

definition set_irs_return_code :: "int32 \<Rightarrow> ipc_invocation_result \<Rightarrow> ipc_invocation_result" where
  "set_irs_return_code code m =
     m\<lparr>irs_data := put_i32 (irs_data m) (IPC_HEADER_OFFSET + IPC_ID_LENGTH + 4) code\<rparr>"

definition set_irs_buffer_length :: "int32 \<Rightarrow> ipc_invocation_result \<Rightarrow> ipc_invocation_result" where
  "set_irs_buffer_length len m =
     m\<lparr>irs_data := put_i32 (irs_data m) (IPC_HEADER_OFFSET + IPC_ID_LENGTH) len\<rparr>"

subsection \<open>State keys\<close>

record state_keys =
  sk_data :: bytes

definition StateKeysParsed :: "bytes \<Rightarrow> state_keys" where
  "StateKeysParsed buf = \<lparr>sk_data = buf\<rparr>"

definition StateKeysRequest :: state_keys where
  "StateKeysRequest = StateKeysParsed (ipc_Message IPC_STATE_KEYS_REQUEST)"

definition StateKeysResult :: state_keys where
  "StateKeysResult = StateKeysParsed (ipc_Message IPC_STATE_KEYS_RESULT)"

definition sk_buffer_length :: "state_keys \<Rightarrow> int32" where
  "sk_buffer_length m = get_i32 (sk_data m) IPC_HEADER_OFFSET"

definition set_sk_buffer_length :: "int32 \<Rightarrow> state_keys \<Rightarrow> state_keys" where
  "set_sk_buffer_length len m = m\<lparr>sk_data := put_i32 (sk_data m) IPC_HEADER_OFFSET len\<rparr>"

subsection \<open>Application update\<close>

record ipc_application_update =
  iau_data :: bytes
  iau_id_len :: nat

definition ApplicationUpdateParsed :: "bytes \<Rightarrow> ipc_application_update" where
  "ApplicationUpdateParsed buf =
     \<lparr>iau_data = buf, iau_id_len = strnlen (drop IPC_HEADER_OFFSET buf) IPC_NAME_LENGTH\<rparr>"

definition ipc_ApplicationUpdate :: ipc_application_update where
  "ipc_ApplicationUpdate = ApplicationUpdateParsed (ipc_Message IPC_APPLICATION_UPDATE)"

definition iau_process_id :: "ipc_application_update \<Rightarrow> string" where
  "iau_process_id m = peek (iau_data m) IPC_HEADER_OFFSET (iau_id_len m)"

definition iau_status_change :: "ipc_application_update \<Rightarrow> int32" where
  "iau_status_change m = get_i32 (iau_data m) (IPC_HEADER_OFFSET + IPC_NAME_LENGTH)"

definition set_iau_process_id :: "string \<Rightarrow> ipc_application_update \<Rightarrow> ipc_application_update result" where
  "set_iau_process_id pid m =
     (if length pid > IPC_NAME_LENGTH then Inl InvalidArgument
      else Inr (m\<lparr>iau_data := put_cstr (iau_data m) IPC_HEADER_OFFSET IPC_NAME_LENGTH pid,
                  iau_id_len := length pid\<rparr>))"

definition set_iau_status_change :: "int32 \<Rightarrow> ipc_application_update \<Rightarrow> ipc_application_update" where
  "set_iau_status_change code m =
     m\<lparr>iau_data := put_i32 (iau_data m) (IPC_HEADER_OFFSET + IPC_NAME_LENGTH) code\<rparr>"

section \<open>The parser\<close>

datatype ipc_variants =
    GetRequestV generic_request
  | PutRequestV generic_request
  | InvocationRequestV ipc_invocation_request
  | InvocationResultV ipc_invocation_result
  | ApplicationUpdateV ipc_application_update
  | StateKeysResultV state_keys
  | StateKeysRequestV state_keys

definition parse_message :: "bytes \<Rightarrow> ipc_variants result" where
  "parse_message buf =
     (let t = get_i16 buf 0 in
      if sint t \<ge> sint (ipc_type_code IPC_END_FLAG) \<or> sint t < sint (ipc_type_code IPC_GENERIC_HEADER)
      then Inl InvalidMessage
      else if t = ipc_type_code IPC_GET_REQUEST then Inr (GetRequestV (GenericRequestParsed buf))
      else if t = ipc_type_code IPC_PUT_REQUEST then Inr (PutRequestV (GenericRequestParsed buf))
      else if t = ipc_type_code IPC_INVOCATION_REQUEST then Inr (InvocationRequestV (InvocationRequestParsed buf))
      else if t = ipc_type_code IPC_INVOCATION_RESULT then Inr (InvocationResultV (InvocationResultParsed buf))
      else if t = ipc_type_code IPC_APPLICATION_UPDATE then Inr (ApplicationUpdateV (ApplicationUpdateParsed buf))
      else if t = ipc_type_code IPC_STATE_KEYS_RESULT then Inr (StateKeysResultV (StateKeysParsed buf))
      else if t = ipc_type_code IPC_STATE_KEYS_REQUEST then Inr (StateKeysRequestV (StateKeysParsed buf))
      else Inl PraaSException)"

section \<open>Setters and getters\<close>

lemmas ipc_ctors = ipc_Message_def GenericRequestParsed_def GenericRequest_def GetRequest_def
  PutRequest_def InvocationRequestParsed_def ipc_InvocationRequest_def InvocationResultParsed_def
  ipc_InvocationResult_def StateKeysParsed_def StateKeysRequest_def StateKeysResult_def
  ApplicationUpdateParsed_def ipc_ApplicationUpdate_def

lemmas ipc_setters = set_ipc_total_length_def set_gr_state_def set_gr_data_len_def
  set_gr_process_id_def set_gr_name_def set_irq_process_id_def set_irq_invocation_id_def
  set_irq_function_name_def set_irq_buffer_def set_irq_buffers_def set_irs_invocation_id_def
  set_irs_return_code_def set_irs_buffer_length_def set_sk_buffer_length_def
  set_iau_process_id_def set_iau_status_change_def

lemmas ipc_getters = ipc_total_length_def gr_state_def gr_data_len_def gr_process_id_def gr_name_def
  irq_buffers_def irq_buffers_lengths_def irq_process_id_def irq_invocation_id_def
  irq_function_name_def irs_invocation_id_def irs_buffer_length_def irs_return_code_def
  sk_buffer_length_def iau_process_id_def iau_status_change_def

lemmas ipc_simps = Let_def ipc_ctors ipc_setters ipc_getters mem_simps

lemma get_i16_put_i32s_before [mem_simps]:
  "off' + 2 \<le> off \<Longrightarrow> off + 4 * length ws \<le> length buf \<Longrightarrow>
     get_i16 (put_i32s buf off ws) off' = get_i16 buf off'"
  by (simp add: get_i16_def peek_put_i32s_before)

lemma irq_parsed_strings:
  "irq_invocation_id (InvocationRequestParsed b) = takeWhile (\<lambda>c. c \<noteq> NUL) (peek b 6 16)"
  "irq_function_name (InvocationRequestParsed b) = takeWhile (\<lambda>c. c \<noteq> NUL) (peek b 22 32)"
  "irq_process_id (InvocationRequestParsed b) = takeWhile (\<lambda>c. c \<noteq> NUL) (peek b 54 16)"
  by (simp_all add: ipc_getters InvocationRequestParsed_def string_view_strnlen)

text \<open>The lengths of a range of buffers are read back one by one, when they fit the header.\<close>

lemma irq_buffers_read_back:
  assumes "length (irq_data m) = IPC_BUF_SIZE" and "length lens \<le> 13"
  shows "\<exists>m'. set_irq_buffers lens m = Inr m' \<and> length (irq_data m') = IPC_BUF_SIZE \<and>
           get_i16 (irq_data m') 0 = get_i16 (irq_data m) 0 \<and>
           (\<forall>off k. off + k \<le> 70 \<longrightarrow> peek (irq_data m') off k = peek (irq_data m) off k) \<and>
           irq_buffers m' = i32_of_size (length lens) \<and>
           (\<forall>i < length lens. irq_buffers_lengths m' i = lens ! i)"
proof -
  let ?ws = "i32_of_size (length lens) # lens"
  have "get_i32 (put_i32s (irq_data m) 70 ?ws) (70 + 4 * i) = ?ws ! i" if "i < length ?ws" for i
    using that assms by (intro get_i32_put_i32s) simp_all
  from this [of 0] this [of "Suc i" for i] assms show ?thesis
    by (simp add: set_irq_buffers_def Let_def irq_buffers_def irq_buffers_lengths_def
        peek_put_i32s_before get_i16_put_i32s_before del: put_i32s.simps)
qed

section \<open>Properties\<close>

text \<open>
  A get or put request that an invoker writes to its queue is parsed by the controller to an
  identical object: process id, key, data length and the state flag arrive as they were set, and
  the flag is off unless it was switched on.
\<close>

lemma ipc_generic_request_roundtrip:
  assumes "no_nul p" and "length p \<le> IPC_NAME_LENGTH" and "no_nul k" and "length k \<le> IPC_NAME_LENGTH"
  shows "\<exists>g u. and_then (set_gr_process_id p GetRequest) (set_gr_name k) = Inr g \<and>
               parse_message (gr_data g) = Inr (GetRequestV g) \<and> \<not> gr_state g \<and>
               gr_process_id g = p \<and> gr_name g = k \<and>
               and_then (set_gr_process_id p PutRequest) (set_gr_name k) = Inr u \<and>
               (let u' = set_gr_data_len len (set_gr_state st u) in
                parse_message (gr_data u') = Inr (PutRequestV u') \<and> gr_state u' = st \<and>
                gr_process_id u' = p \<and> gr_name u' = k \<and> gr_data_len u' = len)"
  using assms by (simp add: ipc_simps parse_message_def)

lemma ipc_generic_request_roundtrip_witness:
  "\<exists>g u. and_then (set_gr_process_id ''SELF'' GetRequest) (set_gr_name ''key'') = Inr g \<and>
         parse_message (gr_data g) = Inr (GetRequestV g) \<and> \<not> gr_state g \<and>
         gr_process_id g = ''SELF'' \<and> gr_name g = ''key'' \<and>
         and_then (set_gr_process_id ''SELF'' PutRequest) (set_gr_name ''key'') = Inr u \<and>
         (let u' = set_gr_data_len 5 (set_gr_state True u) in
          parse_message (gr_data u') = Inr (PutRequestV u') \<and> gr_state u' = True \<and>
          gr_process_id u' = ''SELF'' \<and> gr_name u' = ''key'' \<and> gr_data_len u' = 5)"
  by (rule ipc_generic_request_roundtrip) (simp_all add: no_nul_def)

text \<open>
  An invocation request to a worker with at most thirteen arguments is parsed to an
  identical object: ids, function name, the number of buffers and the length of each buffer
  arrive as they were set.
\<close>

lemma ipc_invocation_request_roundtrip:
  assumes "no_nul p" and "length p \<le> IPC_ID_LENGTH" and "no_nul f" and "length f \<le> IPC_NAME_LENGTH"
    and "no_nul i" and "length i \<le> IPC_ID_LENGTH" and "length lens \<le> 13"
  shows "\<exists>m. and_then (set_irq_invocation_id i ipc_InvocationRequest)
               (\<lambda>m. and_then (set_irq_function_name f m)
               (\<lambda>m. and_then (set_irq_process_id p m) (set_irq_buffers lens))) = Inr m \<and>
             parse_message (irq_data m) = Inr (InvocationRequestV m) \<and>
             irq_invocation_id m = i \<and> irq_function_name m = f \<and> irq_process_id m = p \<and>
             irq_buffers m = i32_of_size (length lens) \<and>
             (\<forall>j < length lens. irq_buffers_lengths m j = lens ! j)"
proof -
  obtain m where m: "and_then (set_irq_invocation_id i ipc_InvocationRequest)
      (\<lambda>m. and_then (set_irq_function_name f m) (set_irq_process_id p)) = Inr m"
    and len: "length (irq_data m) = 128" and ty: "get_i16 (irq_data m) 0 = 3"
    and coh: "m = InvocationRequestParsed (irq_data m)"
    and get: "irq_invocation_id m = i" "irq_function_name m = f" "irq_process_id m = p"
    using assms by (simp add: ipc_simps)
  from irq_buffers_read_back [of m lens] len assms(7)
  obtain m' where m': "set_irq_buffers lens m = Inr m'"
      "get_i16 (irq_data m') 0 = get_i16 (irq_data m) 0" "irq_buffers m' = i32_of_size (length lens)"
      "\<forall>j < length lens. irq_buffers_lengths m' j = lens ! j"
    and eq: "\<And>off k. off + k \<le> 70 \<Longrightarrow> peek (irq_data m') off k = peek (irq_data m) off k"
    by auto
  from m' have upd: "m' = m\<lparr>irq_data := irq_data m'\<rparr>"
    by (auto simp: set_irq_buffers_def Let_def split: if_splits)
  have "parse_message (irq_data m') = Inr (InvocationRequestV (InvocationRequestParsed (irq_data m')))"
    using m'(2) ty by (simp add: parse_message_def)
  moreover have parsed: "InvocationRequestParsed (irq_data m') = m'"
    using coh upd eq by (cases m) (simp add: InvocationRequestParsed_def strnlen_peek)
  moreover have "irq_invocation_id m' = i \<and> irq_function_name m' = f \<and> irq_process_id m' = p"
    using get eq [of 6 16] eq [of 22 32] eq [of 54 16]
      irq_parsed_strings [of "irq_data m"] irq_parsed_strings [of "irq_data m'"]
    unfolding parsed coh [symmetric] by simp
  ultimately show ?thesis
    using m m'(1,3,4) by (auto simp: and_then_eq_Inr)
qed

lemma ipc_invocation_request_roundtrip_witness:
  "\<exists>m. and_then (set_irq_invocation_id ''id'' ipc_InvocationRequest)
         (\<lambda>m. and_then (set_irq_function_name ''add'' m)
         (\<lambda>m. and_then (set_irq_process_id ''p'' m) (set_irq_buffers [4, 9]))) = Inr m \<and>
       parse_message (irq_data m) = Inr (InvocationRequestV m) \<and>
       irq_invocation_id m = ''id'' \<and> irq_function_name m = ''add'' \<and> irq_process_id m = ''p'' \<and>
       irq_buffers m = i32_of_size (length [4 :: int32, 9]) \<and>
       (\<forall>j < length [4 :: int32, 9]. irq_buffers_lengths m j = [4, 9] ! j)"
  by (rule ipc_invocation_request_roundtrip) (simp_all add: no_nul_def)


text \<open>
  The answers a worker and the controller exchange, an invocation result, a list of state
  keys and an application update, are parsed to identical objects.
\<close>

lemma ipc_results_roundtrip:
  assumes "no_nul i" and "length i \<le> IPC_ID_LENGTH" and "no_nul p" and "length p \<le> IPC_NAME_LENGTH"
  shows "(\<exists>m. set_irs_invocation_id i ipc_InvocationResult = Inr m \<and>
              (let m' = set_irs_return_code rc (set_irs_buffer_length len m) in
               parse_message (irs_data m') = Inr (InvocationResultV m') \<and>
               irs_invocation_id m' = i \<and> irs_return_code m' = rc \<and> irs_buffer_length m' = len)) \<and>
         (let m = set_sk_buffer_length len StateKeysResult in
          parse_message (sk_data m) = Inr (StateKeysResultV m) \<and> sk_buffer_length m = len) \<and>
         (\<exists>m. set_iau_process_id p (set_iau_status_change st ipc_ApplicationUpdate) = Inr m \<and>
              parse_message (iau_data m) = Inr (ApplicationUpdateV m) \<and>
              iau_process_id m = p \<and> iau_status_change m = st)"
  using assms by (simp add: ipc_simps parse_message_def)

lemma ipc_results_roundtrip_witness:
  "\<exists>m. set_irs_invocation_id ''id'' ipc_InvocationResult = Inr m \<and>
       (let m' = set_irs_return_code 0 (set_irs_buffer_length 7 m) in
        parse_message (irs_data m') = Inr (InvocationResultV m') \<and>
        irs_invocation_id m' = ''id'' \<and> irs_return_code m' = 0 \<and> irs_buffer_length m' = 7)"
  using ipc_results_roundtrip [of "''id''" "''p''" 0 7 0] by (simp add: no_nul_def)

end
