(* ===== verification/Buffers.thy ===== *)
theory Buffers
  imports Prelude
begin

text \<open>
  Payload buffers: \<^verbatim>\<open>src/process/runtime/include/praas/process/runtime/internal/buffer.hpp\<close>.
  A buffer owns an array of \<open>buf_size\<close> elements of which the first \<open>buf_len\<close> hold data; an
  accessor is a non-owning view. A moved-from object is the second component of a move. The
  elements of a fresh array are indeterminate in C++; they are zeros here and no operation of the
  development reads an element at or after \<open>buf_len\<close>.
\<close>

section \<open>Accessors\<close>

record accessor =
  acc_ptr :: "bytes option"
  acc_len :: nat

definition accessor_null :: "accessor \<Rightarrow> bool" where
  "accessor_null a \<longleftrightarrow> acc_ptr a = None"

definition accessor_empty :: "accessor \<Rightarrow> bool" where
  "accessor_empty a \<longleftrightarrow> acc_len a = 0"

definition accessor_data :: "accessor \<Rightarrow> bytes" where
  "accessor_data a = take (acc_len a) (case acc_ptr a of None \<Rightarrow> [] | Some m \<Rightarrow> m)"

section \<open>Buffers\<close>

record buffer =
  buf_ptr :: "bytes option"
  buf_size :: nat
  buf_len :: nat

definition Buffer_default :: buffer where
  "Buffer_default = \<lparr>buf_ptr = None, buf_size = 0, buf_len = 0\<rparr>"

definition Buffer_new :: "nat \<Rightarrow> buffer" where
  "Buffer_new sz = \<lparr>buf_ptr = Some (replicate sz NUL), buf_size = sz, buf_len = 0\<rparr>"

definition accessor_copy :: "accessor \<Rightarrow> buffer" where
  "accessor_copy a =
     (if accessor_null a then Buffer_default
      else \<lparr>buf_ptr = Some (accessor_data a), buf_size = acc_len a, buf_len = acc_len a\<rparr>)"

text \<open>A move: the new object and what is left of the old one.\<close>

definition buffer_move :: "buffer \<Rightarrow> buffer \<times> buffer" where
  "buffer_move b = (b, b\<lparr>buf_ptr := None, buf_size := 0, buf_len := 0\<rparr>)"

definition buffer_empty :: "buffer \<Rightarrow> bool" where
  "buffer_empty b \<longleftrightarrow> buf_len b = 0"

definition buffer_null :: "buffer \<Rightarrow> bool" where
  "buffer_null b \<longleftrightarrow> buf_ptr b = None"

definition buffer_resize :: "nat \<Rightarrow> buffer \<Rightarrow> buffer" where
  "buffer_resize sz b = b\<lparr>buf_ptr := Some (replicate sz NUL), buf_size := sz, buf_len := 0\<rparr>"

definition buffer_accessor :: "buffer \<Rightarrow> accessor" where
  "buffer_accessor b = \<lparr>acc_ptr = buf_ptr b, acc_len = buf_len b\<rparr>"

text \<open>The data of a buffer, \<^verbatim>\<open>data()\<close> up to \<^verbatim>\<open>len\<close>.\<close>

definition buffer_data :: "buffer \<Rightarrow> bytes" where
  "buffer_data b = accessor_data (buffer_accessor b)"

section \<open>Buffer queues\<close>

type_synonym buffer_queue = "buffer list"

definition BufferQueue :: "nat \<Rightarrow> nat \<Rightarrow> buffer_queue" where
  "BufferQueue elements elem_size = replicate elements (Buffer_new elem_size)"

definition allocate_buffer :: "nat \<Rightarrow> buffer" where
  "allocate_buffer sz = Buffer_new sz"

fun retrieve_buffer :: "nat \<Rightarrow> buffer_queue \<Rightarrow> buffer \<times> buffer_queue" where
  "retrieve_buffer sz [] = (allocate_buffer sz, [])"
| "retrieve_buffer sz (b # bs) =
     (if length bs < sz then (buffer_resize sz b, bs) else (b, bs))"

definition return_buffer :: "buffer \<Rightarrow> buffer_queue \<Rightarrow> buffer_queue" where
  "return_buffer b bs = bs @ [b\<lparr>buf_len := 0\<rparr>]"

section \<open>Well-formed buffers\<close>

definition wf_buffer :: "buffer \<Rightarrow> bool" where
  "wf_buffer b \<longleftrightarrow> (case buf_ptr b of
      None \<Rightarrow> buf_size b = 0 \<and> buf_len b = 0
    | Some m \<Rightarrow> length m = buf_size b \<and> buf_len b \<le> buf_size b)"

lemma wf_buffer_fresh [simp]:
  "wf_buffer Buffer_default"
  "wf_buffer (Buffer_new sz)"
  "wf_buffer (buffer_resize sz b)"
  by (simp_all add: wf_buffer_def Buffer_default_def Buffer_new_def buffer_resize_def)

lemma fresh_buffer_fields [simp]:
  "buf_size (Buffer_new sz) = sz"
  "buf_len (Buffer_new sz) = 0"
  "buf_ptr (Buffer_new sz) = Some (replicate sz NUL)"
  "buffer_resize sz b = Buffer_new sz"
  by (simp_all add: Buffer_new_def buffer_resize_def)

lemma buffer_data_simps [simp]:
  "buffer_data Buffer_default = []"
  "buffer_data (Buffer_new sz) = []"
  by (simp_all add: buffer_data_def accessor_data_def buffer_accessor_def Buffer_default_def)

lemma length_buffer_data: "wf_buffer b \<Longrightarrow> length (buffer_data b) = buf_len b"
  by (cases "buf_ptr b") (simp_all add: wf_buffer_def buffer_data_def accessor_data_def buffer_accessor_def)

lemma retrieve_buffer_large:
  "length bs \<le> sz \<Longrightarrow> 0 < sz \<Longrightarrow> retrieve_buffer sz bs = (Buffer_new sz, tl bs)"
  by (cases bs) (auto simp: allocate_buffer_def)

section \<open>Properties\<close>

text \<open>
  A buffer keeps its data through a copy of its accessor and through a move, which leaves
  the source empty; every operation yields a well-formed buffer.
\<close>

lemma buffer_ownership:
  assumes "wf_buffer b"
  shows "buffer_data (accessor_copy (buffer_accessor b)) = buffer_data b \<and>
         wf_buffer (accessor_copy (buffer_accessor b)) \<and>
         (case buffer_move b of (new, old) \<Rightarrow>
            buffer_data new = buffer_data b \<and> wf_buffer new \<and>
            old = Buffer_default)"
proof (cases "buf_ptr b")
  case None
  with assms show ?thesis
    by (cases b) (simp add: wf_buffer_def accessor_copy_def accessor_null_def buffer_accessor_def buffer_data_def
        accessor_data_def buffer_move_def Buffer_default_def)
next
  case (Some m)
  with assms show ?thesis
    by (cases b) (simp add: wf_buffer_def accessor_copy_def accessor_null_def buffer_accessor_def buffer_data_def
        accessor_data_def buffer_move_def Buffer_default_def)
qed

lemma buffer_ownership_witness:
  "buffer_data (accessor_copy (buffer_accessor \<lparr>buf_ptr = Some ''abcd'', buf_size = 4, buf_len = 2\<rparr>)) = ''ab''"
  using buffer_ownership [of "\<lparr>buf_ptr = Some ''abcd'', buf_size = 4, buf_len = 2\<rparr>"]
  by (simp add: wf_buffer_def buffer_data_def accessor_data_def buffer_accessor_def)

text \<open>
  A retrieved buffer. The queue compares the requested size with the number of buffers that
  remain in it, not with the size of the buffer it hands out. A request that exceeds the number
  of buffers is therefore always served by a fresh array of exactly that size, whatever the size
  of the pooled buffer, and a smaller request can be served by a buffer that is too small.
\<close>

lemma retrieve_buffer_behaviour:
  "(length bs \<le> sz \<and> 0 < sz \<longrightarrow> retrieve_buffer sz bs = (Buffer_new sz, tl bs)) \<and>
   (\<exists>cs. list_all wf_buffer cs \<and> (case retrieve_buffer 3 cs of (b, _) \<Rightarrow> buf_size b < 3))"
proof -
  let ?cs = "return_buffer (Buffer_new 1) [] @ replicate 3 (Buffer_new 1)"
  have "list_all wf_buffer ?cs \<and> (case retrieve_buffer 3 ?cs of (b, _) \<Rightarrow> buf_size b < 3)"
    by (simp add: return_buffer_def numeral_3_eq_3 wf_buffer_def)
  with retrieve_buffer_large [of bs sz] show ?thesis by (intro conjI impI exI [of _ ?cs]) simp_all
qed

lemma retrieve_buffer_behaviour_witness:
  "retrieve_buffer 8 (BufferQueue 5 4) = (Buffer_new 8, tl (BufferQueue 5 4))"
  using retrieve_buffer_behaviour [of "BufferQueue 5 4" 8] by (simp add: BufferQueue_def)

end
