(* ===== verification/Ipc_Channel.thy ===== *)
theory Ipc_Channel
  imports Ipc_Messages Buffers
begin

text \<open>
  The channel between a controller and an invoker:
  \<^verbatim>\<open>src/process/runtime/src/internal/ipc.cpp\<close> and \<^verbatim>\<open>ipc/ipc.hpp\<close>. A channel sends a header
  of \<open>IPC_BUF_SIZE\<close> bytes and then the payload in fragments of at most the message size of a
  POSIX message queue, a bounded first-in first-out queue of byte strings; the receiver
  reassembles them, over as many calls as it takes when its descriptor does not block.
  The lemmas show that every interleaving of sender and receiver delivers exactly the sent
  messages in order, that the receiver never fails on such traffic, and that a drained queue has
  delivered everything.
\<close>

section \<open>Channels\<close>

definition MAX_MSGS :: nat where "MAX_MSGS = 5"
definition MAX_MSG_SIZE :: nat where "MAX_MSG_SIZE = 1024"
definition BUFFER_ELEMS :: nat where "BUFFER_ELEMS = 5"
definition BUFFER_SIZE :: nat where "BUFFER_SIZE = 1024 * 1024"

datatype IPCMode = POSIX_MQ | NONE

definition deserialize_mode :: "string \<Rightarrow> IPCMode" where
  "deserialize_mode mode = (if mode = ''posix_mq'' then POSIX_MQ else NONE)"

record ipc_channel =
  ch_created :: bool
  ch_nonblock :: bool
  ch_name :: string
  ch_msg_size :: nat
  ch_buffers :: buffer_queue
  ch_msg_read :: bool
  ch_msg :: bytes
  ch_msg_payload :: buffer

subsection \<open>Opening and closing\<close>

text \<open>
  The operating system's table of message queues, by name: the message size the queue was
  created with and the messages in it. \<^verbatim>\<open>mq_open\<close> with \<^verbatim>\<open>O_CREAT | O_EXCL\<close> fails when the name
  exists or when the message size is not positive, without \<^verbatim>\<open>O_CREAT\<close> when it does not exist.
\<close>

type_synonym mq_table = "string \<rightharpoonup> nat \<times> bytes list"

definition mq_open_create :: "string \<Rightarrow> nat \<Rightarrow> mq_table \<Rightarrow> mq_table option" where
  "mq_open_create name msgsize k = (if msgsize > 0 \<and> k name = None then Some (k(name \<mapsto> (msgsize, []))) else None)"

definition POSIXMQChannel :: "string \<Rightarrow> bool \<Rightarrow> bool \<Rightarrow> nat \<Rightarrow> mq_table \<Rightarrow> (ipc_channel \<times> mq_table) result" where
  "POSIXMQChannel queue_name send create message_size k =
     (let ch = \<lparr>ch_created = create, ch_nonblock = create \<and> \<not> send, ch_name = queue_name,
                ch_msg_size = message_size, ch_buffers = BufferQueue BUFFER_ELEMS BUFFER_SIZE,
                ch_msg_read = False, ch_msg = ipc_Message IPC_GENERIC_HEADER,
                ch_msg_payload = Buffer_default\<rparr> in
      if create then
        (case mq_open_create queue_name message_size k of
           Some k' \<Rightarrow> Inr (ch, k')
         | None \<Rightarrow>
             (case mq_open_create queue_name message_size (k(queue_name := None)) of
                Some k' \<Rightarrow> Inr (ch, k')
              | None \<Rightarrow> Inl ProcessExit))
      else
        (case k queue_name of
           None \<Rightarrow> Inl ProcessExit
         | Some (msgsize, _) \<Rightarrow> Inr (ch\<lparr>ch_msg_size := msgsize\<rparr>, k)))"

definition channel_shutdown :: "ipc_channel \<Rightarrow> mq_table \<Rightarrow> mq_table result" where
  "channel_shutdown ch k =
     (if ch_created ch then
        (if k (ch_name ch) = None then Inl ProcessExit else Inr (k(ch_name ch := None)))
      else Inr k)"

subsection \<open>Sending\<close>

text \<open>
  The calls of \<^verbatim>\<open>mq_send\<close> that \<^verbatim>\<open>_send\<close> makes, in order. The loop does not return for a message
  size of zero, so its value is an option.
\<close>

partial_function (option) send_loop :: "nat \<Rightarrow> bytes \<Rightarrow> int \<Rightarrow> int \<Rightarrow> bytes list option" where
  "send_loop ms data len pos =
     (if pos < len then
        (let sz = (if len - pos < int ms then len - pos else int ms) in
         Option.bind (send_loop ms data len (pos + sz))
           (\<lambda>cs. Some (peek data (nat pos) (nat sz) # cs)))
      else Some [])"

definition channel_send :: "nat \<Rightarrow> bytes \<Rightarrow> nat \<Rightarrow> bytes list option" where
  "channel_send ms data len = send_loop ms data (sint (i32_of_size len)) 0"

text \<open>The overloads of \<^verbatim>\<open>send\<close>: the message with its length set, and the fragments.\<close>

definition ipc_send :: "nat \<Rightarrow> bytes \<Rightarrow> (bytes \<times> bytes list) option" where
  "ipc_send ms msg =
     (let m = set_ipc_total_length 0 msg in
      Option.bind (channel_send ms m IPC_BUF_SIZE) (\<lambda>cs. Some (m, cs)))"

definition ipc_send_accessor :: "nat \<Rightarrow> bytes \<Rightarrow> accessor \<Rightarrow> (bytes \<times> bytes list) option" where
  "ipc_send_accessor ms msg buf =
     (let m = set_ipc_total_length (i32_of_size (acc_len buf)) msg in
      Option.bind (channel_send ms m IPC_BUF_SIZE) (\<lambda>hs.
      if acc_len buf > 0
      then Option.bind (channel_send ms (accessor_data buf) (acc_len buf)) (\<lambda>cs. Some (m, hs @ cs))
      else Some (m, hs)))"

fun send_buffers :: "nat \<Rightarrow> buffer list \<Rightarrow> bytes list option" where
  "send_buffers ms [] = Some []"
| "send_buffers ms (b # bs) =
     (if buf_len b > 0
      then Option.bind (channel_send ms (buffer_data b) (buf_len b)) (\<lambda>cs.
           Option.bind (send_buffers ms bs) (\<lambda>ds. Some (cs @ ds)))
      else send_buffers ms bs)"

definition ipc_send_buffers :: "nat \<Rightarrow> bytes \<Rightarrow> buffer list \<Rightarrow> (bytes \<times> bytes list) option" where
  "ipc_send_buffers ms msg bufs =
     (let len = sum_list (map buf_len bufs); m = set_ipc_total_length (i32_of_size len) msg in
      Option.bind (channel_send ms m IPC_BUF_SIZE) (\<lambda>hs.
      Option.bind (send_buffers ms bufs) (\<lambda>cs. Some (m, hs @ cs))))"

subsection \<open>Receiving\<close>

text \<open>
  \<^verbatim>\<open>_recv\<close> on an array with room for \<open>cap\<close> bytes: it takes messages off the queue until \<open>len\<close>
  bytes have been read or the queue is empty. A message that does not fit the array is written
  past its end.
\<close>

fun recv_loop :: "nat \<Rightarrow> bytes list \<Rightarrow> nat \<Rightarrow> bytes \<Rightarrow> (bytes \<times> bytes list) result" where
  "recv_loop cap [] len acc = Inr (acc, [])"
| "recv_loop cap (m # q) len acc =
     (if length acc < len then
        if length acc + length m > cap then Inl UndefinedBehaviour
        else recv_loop cap q len (acc @ m)
      else Inr (acc, m # q))"

definition channel_recv :: "nat \<Rightarrow> bytes list \<Rightarrow> nat \<Rightarrow> (bytes \<times> bytes list) result" where
  "channel_recv cap q len = recv_loop cap q len []"

text \<open>\<^verbatim>\<open>receive\<close>, its two halves first: the header unless it was read by an earlier call, then
  the payload. The first Boolean of \<open>receive_header\<close> says whether there is a header.\<close>

definition receive_header :: "ipc_channel \<Rightarrow> bytes list \<Rightarrow> (ipc_channel \<times> bytes list \<times> bool) result" where
  "receive_header ch q =
     (if ch_msg_read ch then Inr (ch, q, True)
      else
        and_then (channel_recv (ch_msg_size ch) q IPC_BUF_SIZE) (\<lambda>(d, q').
          if length d = 0 then Inr (ch, q', False)
          else if length d < IPC_BUF_SIZE then Inl NotImplementedError
          else Inr (ch\<lparr>ch_msg := take IPC_BUF_SIZE d, ch_msg_read := True\<rparr>, q', True)))"

definition receive_payload :: "ipc_channel \<Rightarrow> bytes list \<Rightarrow> (ipc_channel \<times> bytes list \<times> bool \<times> buffer) result" where
  "receive_payload ch q =
     (let tl = ipc_total_length (ch_msg ch) in
      if sint tl > 0 then
        (let (pl, bufs) =
           (if buffer_null (ch_msg_payload ch)
            then retrieve_buffer (nat (max (sint tl) (int (ch_msg_size ch)))) (ch_buffers ch)
            else (ch_msg_payload ch, ch_buffers ch));
           data_to_read = (size_of_i32 tl + 2 ^ 64 - buf_len pl) mod 2 ^ 64 in
         and_then (channel_recv (buf_size pl - buf_len pl) q data_to_read) (\<lambda>(d, q').
           let pl' = pl\<lparr>buf_ptr := map_option (\<lambda>m. poke m (buf_len pl) d) (buf_ptr pl),
                        buf_len := buf_len pl + length d\<rparr> in
           if length d = data_to_read
           then Inr (ch\<lparr>ch_buffers := bufs, ch_msg_read := False, ch_msg_payload := Buffer_default\<rparr>,
                     q', True, pl')
           else Inr (ch\<lparr>ch_buffers := bufs, ch_msg_payload := pl'\<rparr>, q', False, Buffer_default)))
      else Inr (ch\<lparr>ch_msg_read := False\<rparr>, q, True, Buffer_default))"

definition receive :: "ipc_channel \<Rightarrow> bytes list \<Rightarrow> (ipc_channel \<times> bytes list \<times> bool \<times> buffer) result" where
  "receive ch q =
     and_then (receive_header ch q) (\<lambda>(ch', q', have_header).
       if have_header then receive_payload ch' q' else Inr (ch', q', False, Buffer_default))"

text \<open>
  \<^verbatim>\<open>blocking_receive\<close>, on the invoker's end, which waits for messages: None is a call that is
  still waiting after it has taken all of \<open>q\<close>.
\<close>

definition blocking_recv :: "nat \<Rightarrow> bytes list \<Rightarrow> nat \<Rightarrow> (bytes \<times> bytes list) result option" where
  "blocking_recv cap q len =
     (case channel_recv cap q len of
        Inl e \<Rightarrow> Some (Inl e)
      | Inr (d, q') \<Rightarrow> if length d < len then None else Some (Inr (d, q')))"

definition blocking_receive ::
    "ipc_channel \<Rightarrow> buffer \<Rightarrow> bytes list \<Rightarrow> (ipc_channel \<times> buffer \<times> bytes list \<times> bool) result option" where
  "blocking_receive ch buf q =
     (case blocking_recv (ch_msg_size ch) q IPC_BUF_SIZE of
        None \<Rightarrow> None
      | Some (Inl e) \<Rightarrow> Some (Inl e)
      | Some (Inr (h, q1)) \<Rightarrow>
          (let ch' = ch\<lparr>ch_msg := take IPC_BUF_SIZE h\<rparr>;
               data_to_read = size_of_i32 (ipc_total_length (ch_msg ch')) in
           if data_to_read \<ge> 2 ^ 63 then Some (Inl BadAlloc)
           else
             (let b = (if buf_size buf < data_to_read then buffer_resize data_to_read buf else buf) in
              case blocking_recv (buf_size b) q1 data_to_read of
                None \<Rightarrow> None
              | Some (Inl e) \<Rightarrow> Some (Inl e)
              | Some (Inr (d, q2)) \<Rightarrow>
                  Some (Inr (ch', b\<lparr>buf_ptr := map_option (\<lambda>m. poke m 0 d) (buf_ptr b),
                                    buf_len := length d\<rparr>,
                             q2, length d \<ge> data_to_read)))))"

section \<open>Fragments\<close>

definition fragments :: "nat \<Rightarrow> bytes list \<Rightarrow> bool" where
  "fragments ms cs \<longleftrightarrow> list_all (\<lambda>c. c \<noteq> [] \<and> length c \<le> ms) cs"

lemma fragments_simps [simp]:
  "fragments ms []"
  "fragments ms (c # cs) \<longleftrightarrow> c \<noteq> [] \<and> length c \<le> ms \<and> fragments ms cs"
  "fragments ms (cs @ ds) \<longleftrightarrow> fragments ms cs \<and> fragments ms ds"
  by (auto simp: fragments_def)

lemma send_loop_done [simp]: "len \<le> pos \<Longrightarrow> send_loop ms data len pos = Some []"
  by (subst send_loop.simps) simp

lemma send_loop_returns:
  assumes "0 < ms" and "0 \<le> pos" and "pos \<le> len" and "len \<le> int (length data)"
  shows "\<exists>cs. send_loop ms data len pos = Some cs \<and> fragments ms cs \<and>
           concat cs = peek data (nat pos) (nat (len - pos))"
  using assms
proof (induction "nat (len - pos)" arbitrary: pos rule: less_induct)
  case less
  show ?case
  proof (cases "pos < len")
    case False
    then show ?thesis using less.prems by (subst send_loop.simps) (simp add: peek_def)
  next
    case True
    define sz where "sz = (if len - pos < int ms then len - pos else int ms)"
    have sz: "0 < sz" "sz \<le> len - pos" "sz \<le> int ms"
      using True less.prems(1) by (auto simp: sz_def)
    then have "nat (len - (pos + sz)) < nat (len - pos)" "0 \<le> pos + sz" "pos + sz \<le> len"
      using True less.prems by simp_all
    with less obtain cs where cs: "send_loop ms data len (pos + sz) = Some cs" "fragments ms cs"
        "concat cs = peek data (nat (pos + sz)) (nat (len - (pos + sz)))"
      by blast
    have "nat (len - pos) = nat sz + nat (len - (pos + sz))" "nat (pos + sz) = nat pos + nat sz"
      using sz less.prems by linarith+
    with cs sz True less.prems show ?thesis
      by (subst send_loop.simps) (auto simp: sz_def [symmetric] peek_def take_add add.commute)
  qed
qed

lemma channel_send_returns:
  assumes "0 < ms" and "len \<le> length data" and "len < 2 ^ 31"
  shows "\<exists>cs. channel_send ms data len = Some cs \<and> fragments ms cs \<and> concat cs = take len data"
  using send_loop_returns [of ms 0 "int len" data] assms
  by (simp add: channel_send_def sint_i32_of_size peek_def)

lemma channel_send_single:
  "0 < len \<Longrightarrow> len \<le> ms \<Longrightarrow> len < 2 ^ 31 \<Longrightarrow> channel_send ms data len = Some [take len data]"
  by (auto simp: channel_send_def sint_i32_of_size send_loop.simps [of ms data "int len" 0] peek_def Let_def)

lemma channel_send_header:
  "128 \<le> ms \<Longrightarrow> length m = 128 \<Longrightarrow> channel_send ms m 128 = Some [m]"
  by (simp add: channel_send_single)

text \<open>The overloads agree: no buffer, and a single one.\<close>

lemma send_buffers_returns:
  assumes "0 < ms" and "list_all wf_buffer bs" and "sum_list (map buf_len bs) < 2 ^ 31"
  shows "\<exists>cs. send_buffers ms bs = Some cs \<and> fragments ms cs \<and> concat cs = concat (map buffer_data bs)"
  using assms(2,3)
proof (induction bs)
  case Nil
  then show ?case by simp
next
  case (Cons b bs)
  then obtain ds where ds: "send_buffers ms bs = Some ds" "fragments ms ds"
      "concat ds = concat (map buffer_data bs)" by auto
  have len: "length (buffer_data b) = buf_len b" using Cons.prems by (simp add: length_buffer_data)
  then obtain cs where "channel_send ms (buffer_data b) (buf_len b) = Some cs" "fragments ms cs"
      "concat cs = buffer_data b"
    using channel_send_returns [of ms "buf_len b" "buffer_data b"] assms(1) Cons.prems by auto
  with ds len show ?case by auto
qed

lemma ipc_send_buffers_returns:
  assumes "IPC_BUF_SIZE \<le> ms" and "length m = IPC_BUF_SIZE" and "list_all wf_buffer bs"
    and "sum_list (map buf_len bs) < 2 ^ 31"
  shows "\<exists>cs. ipc_send_buffers ms m bs =
             Some (set_ipc_total_length (i32_of_size (sum_list (map buf_len bs))) m,
                   set_ipc_total_length (i32_of_size (sum_list (map buf_len bs))) m # cs) \<and>
           fragments ms cs \<and> concat cs = concat (map buffer_data bs)"
proof -
  have "0 < ms" using assms(1) by simp
  from send_buffers_returns [OF this assms(3,4)] assms(1,2) show ?thesis
    by (auto simp: ipc_send_buffers_def Let_def channel_send_header set_ipc_total_length_def)
qed

section \<open>Reassembly\<close>

lemma length_concat_fragments: "fragments ms cs \<Longrightarrow> concat cs = [] \<longleftrightarrow> cs = []"
  by (cases cs) auto

text \<open>Reading a sequence of fragments stops exactly behind it, or at the end of the queue.\<close>

lemma recv_loop_fragments:
  assumes "q @ rest = F @ R" and "fragments ms F" and "length acc + length (concat F) = len" and "len \<le> cap"
  shows "(\<exists>q2. q = F @ q2 \<and> recv_loop cap q len acc = Inr (acc @ concat F, q2)) \<or>
         (\<exists>F2. F = q @ F2 \<and> F2 \<noteq> [] \<and> recv_loop cap q len acc = Inr (acc @ concat q, []))"
  using assms
proof (induction q arbitrary: F acc)
  case Nil
  then show ?case by (cases F) auto
next
  case (Cons m q)
  show ?case
  proof (cases F)
    case Nil
    with Cons.prems show ?thesis by auto
  next
    case (Cons c F')
    with Cons.prems have [simp]: "c = m" and eq: "q @ rest = F' @ R" by simp_all
    from Cons Cons.prems have "length acc < len" "length acc + length m \<le> cap" by auto
    with Cons.IH [OF eq, of "acc @ m"] Cons Cons.prems show ?thesis by auto
  qed
qed


section \<open>A link\<close>

text \<open>
  A sender and a receiver with a queue between them. The sender's calls of \<^verbatim>\<open>mq_send\<close> happen one
  at a time and only while the queue has room; in between, the receiver may take messages off the
  queue at any moment. On a non-blocking descriptor a step of the receiver is a call of
  \<^verbatim>\<open>receive\<close>; on a blocking one, which is what the controller and the invokers open, it is the
  progress of a call that waits in \<^verbatim>\<open>mq_receive\<close>, which returns in the step that completes the
  message. \<open>lk_sent\<close> and \<open>lk_received\<close> record the messages given to \<^verbatim>\<open>send\<close> and handed out by
  \<^verbatim>\<open>receive\<close>.
\<close>

record ipc_link =
  lk_pending :: "bytes list"
  lk_queue :: "bytes list"
  lk_chan :: ipc_channel
  lk_sent :: "(bytes \<times> bytes) list"
  lk_received :: "(bytes \<times> bytes) list"

inductive link_step :: "ipc_link \<Rightarrow> ipc_link \<Rightarrow> bool" where
  link_send: "lk_pending l = [] \<Longrightarrow> length m = IPC_BUF_SIZE \<Longrightarrow> list_all wf_buffer bs \<Longrightarrow>
     sum_list (map buf_len bs) < 2 ^ 31 \<Longrightarrow>
     ipc_send_buffers (ch_msg_size (lk_chan l)) m bs = Some (m', cs) \<Longrightarrow>
     link_step l (l\<lparr>lk_pending := cs, lk_sent := lk_sent l @ [(m', concat (map buffer_data bs))]\<rparr>)"
| link_push: "lk_pending l = c # cs \<Longrightarrow> length (lk_queue l) < MAX_MSGS \<Longrightarrow>
     link_step l (l\<lparr>lk_pending := cs, lk_queue := lk_queue l @ [c]\<rparr>)"
| link_receive: "receive (lk_chan l) (lk_queue l) = Inr (ch, q, ok, buf) \<Longrightarrow>
     link_step l (l\<lparr>lk_chan := ch, lk_queue := q,
       lk_received := lk_received l @ (if ok then [(ch_msg ch, buffer_data buf)] else [])\<rparr>)"

inductive_cases link_stepE: "link_step l l'"

definition link_initial :: "ipc_link \<Rightarrow> bool" where
  "link_initial l \<longleftrightarrow>
     lk_pending l = [] \<and> lk_queue l = [] \<and> lk_sent l = [] \<and> lk_received l = [] \<and>
     IPC_BUF_SIZE \<le> ch_msg_size (lk_chan l) \<and> ch_msg_size (lk_chan l) < 2 ^ 31 \<and>
     length (ch_buffers (lk_chan l)) \<le> BUFFER_ELEMS \<and>
     \<not> ch_msg_read (lk_chan l) \<and> ch_msg_payload (lk_chan l) = Buffer_default"

text \<open>The fragments of a message, and of a sequence of messages.\<close>

definition header_of :: "bytes \<Rightarrow> bytes \<Rightarrow> bool" where
  "header_of h p \<longleftrightarrow> length h = IPC_BUF_SIZE \<and> length p < 2 ^ 31 \<and>
     ipc_total_length h = i32_of_size (length p)"

fun stream :: "nat \<Rightarrow> (bytes \<times> bytes) list \<Rightarrow> bytes list \<Rightarrow> bool" where
  "stream ms [] cs \<longleftrightarrow> cs = []"
| "stream ms ((h, p) # r) cs \<longleftrightarrow>
     (\<exists>F R. cs = h # F @ R \<and> header_of h p \<and> fragments ms F \<and> concat F = p \<and> stream ms r R)"

text \<open>
  What the receiver and the fragments under way make of the messages that were sent: either no
  message has been started, or the header of the next one has been read and its payload is
  partly in the buffer.
\<close>

inductive link_parts :: "nat \<Rightarrow> ipc_channel \<Rightarrow> bytes list \<Rightarrow> (bytes \<times> bytes) list \<Rightarrow> bool" for ms where
  between: "\<not> ch_msg_read ch \<Longrightarrow> ch_msg_payload ch = Buffer_default \<Longrightarrow> stream ms todo cs \<Longrightarrow>
     link_parts ms ch cs todo"
| within: "ch_msg_read ch \<Longrightarrow> header_of (ch_msg ch) p \<Longrightarrow> wf_buffer (ch_msg_payload ch) \<Longrightarrow>
     buf_size (ch_msg_payload ch) = max (length p) ms \<Longrightarrow>
     buffer_data (ch_msg_payload ch) @ concat F = p \<Longrightarrow> F \<noteq> [] \<Longrightarrow> fragments ms F \<Longrightarrow>
     stream ms todo R \<Longrightarrow> link_parts ms ch (F @ R) ((ch_msg ch, p) # todo)"

definition link_inv :: "ipc_link \<Rightarrow> bool" where
  "link_inv l \<longleftrightarrow>
     (let ch = lk_chan l; ms = ch_msg_size ch in
      IPC_BUF_SIZE \<le> ms \<and> ms < 2 ^ 31 \<and> length (ch_buffers ch) \<le> BUFFER_ELEMS \<and>
      (\<exists>todo. lk_sent l = lk_received l @ todo \<and>
              link_parts ms ch (lk_queue l @ lk_pending l) todo))"

lemma stream_append:
  "stream ms todo cs \<Longrightarrow> header_of h p \<Longrightarrow> fragments ms F \<Longrightarrow> concat F = p \<Longrightarrow>
     stream ms (todo @ [(h, p)]) (cs @ h # F)"
proof (induction ms todo cs rule: stream.induct)
  case (2 ms h' p' r cs)
  then obtain F' R where "cs = h' # F' @ R" "header_of h' p'" "fragments ms F'" "concat F' = p'"
    "stream ms r R" by auto
  with 2 show ?case by (simp, intro exI [of _ F'] exI [of _ "R @ h # F"]) simp
qed auto

lemma link_parts_append:
  "link_parts ms ch cs todo \<Longrightarrow> header_of h p \<Longrightarrow> fragments ms F \<Longrightarrow> concat F = p \<Longrightarrow>
     link_parts ms ch (cs @ h # F) (todo @ [(h, p)])"
proof (induction rule: link_parts.induct)
  case (between ch todo cs)
  then show ?case by (intro link_parts.between stream_append)
next
  case (within ch p' F' todo R)
  then show ?case using link_parts.within [of ch p' ms F' "todo @ [(h, p)]" "R @ h # F"]
    by (simp add: stream_append)
qed


subsection \<open>One call of receive\<close>

lemma buffer_append:
  assumes "wf_buffer b" and "buf_ptr b = Some m" and "buf_len b + length d \<le> buf_size b"
  defines "b' \<equiv> b\<lparr>buf_ptr := map_option (\<lambda>m. poke m (buf_len b) d) (buf_ptr b), buf_len := buf_len b + length d\<rparr>"
  shows "wf_buffer b' \<and> buf_size b' = buf_size b \<and> buffer_data b' = buffer_data b @ d \<and> buf_ptr b' \<noteq> None"
  using assms(1-3) unfolding b'_def wf_buffer_def
  by (simp add: buffer_data_def accessor_data_def buffer_accessor_def poke_def)

lemma header_of_length:
  "header_of h p \<Longrightarrow> sint (ipc_total_length h) = int (length p) \<and> size_of_i32 (ipc_total_length h) = length p"
  by (simp add: header_of_def sint_i32_of_size)

definition payload_buffer :: "ipc_channel \<Rightarrow> nat \<Rightarrow> buffer \<times> buffer_queue" where
  "payload_buffer ch n =
     (if buffer_null (ch_msg_payload ch) then retrieve_buffer n (ch_buffers ch)
      else (ch_msg_payload ch, ch_buffers ch))"

lemma receive_payload_parts:
  assumes h: "header_of (ch_msg ch) p" and ms: "ms = ch_msg_size ch"
    and pl: "payload_buffer ch (max (length p) ms) = (pl, bufs)"
    and wf: "wf_buffer pl" "buf_ptr pl \<noteq> None" "buf_size pl = max (length p) ms"
    and F: "buffer_data pl @ concat F = p" "F \<noteq> []" "fragments ms F"
    and q: "q @ pend = F @ R"
  shows "(\<exists>q2 buf. q = F @ q2 \<and> buffer_data buf = p \<and>
            receive_payload ch q =
              Inr (ch\<lparr>ch_buffers := bufs, ch_msg_read := False, ch_msg_payload := Buffer_default\<rparr>, q2, True, buf)) \<or>
         (\<exists>F2 pl'. F = q @ F2 \<and> F2 \<noteq> [] \<and> wf_buffer pl' \<and> buf_size pl' = max (length p) ms \<and>
            buffer_data pl' @ concat F2 = p \<and>
            receive_payload ch q = Inr (ch\<lparr>ch_buffers := bufs, ch_msg_payload := pl'\<rparr>, [], False, Buffer_default))"
proof -
  note len = length_buffer_data [OF wf(1)] header_of_length [OF h]
  have pos: "0 < length (concat F)" using F(2,3) length_concat_fragments by auto
  have total: "buf_len pl + length (concat F) = length p"
    using F(1) len(1) by (metis length_append)
  define n where "n = (size_of_i32 (ipc_total_length (ch_msg ch)) + 2 ^ 64 - buf_len pl) mod 2 ^ 64"
  have n: "n = length (concat F)"
  proof -
    have "length p + 2 ^ 64 - buf_len pl = length (concat F) + 2 ^ 64" using total by simp
    moreover have "length (concat F) < 2 ^ 64" using total h by (simp add: header_of_def)
    ultimately show ?thesis using len(2) by (simp add: n_def)
  qed
  obtain m where m: "buf_ptr pl = Some m" using wf(2) by auto
  have pl_eq: "payload_buffer ch (nat (max (int (length p)) (int ms))) = (pl, bufs)"
    using pl by (simp add: of_nat_max [symmetric] del: of_nat_max)
  have step: "receive_payload ch q =
      and_then (channel_recv (buf_size pl - buf_len pl) q n) (\<lambda>(d, q').
        let pl' = pl\<lparr>buf_ptr := map_option (\<lambda>m. poke m (buf_len pl) d) (buf_ptr pl), buf_len := buf_len pl + length d\<rparr> in
        if length d = n then Inr (ch\<lparr>ch_buffers := bufs, ch_msg_read := False, ch_msg_payload := Buffer_default\<rparr>, q', True, pl')
        else Inr (ch\<lparr>ch_buffers := bufs, ch_msg_payload := pl'\<rparr>, q', False, Buffer_default))"
    using pl_eq len(2) total pos ms
    unfolding receive_payload_def Let_def payload_buffer_def [symmetric] n_def by auto
  have "length [] + length (concat F) = n" "n \<le> buf_size pl - buf_len pl"
    using n total wf(3) by simp_all
  from recv_loop_fragments [OF q F(3) this] show ?thesis
  proof (elim disjE exE conjE)
    fix q2 assume "q = F @ q2" "recv_loop (buf_size pl - buf_len pl) q n [] = Inr ([] @ concat F, q2)"
    with n buffer_append [OF wf(1) m, of "concat F"] total wf(3) F(1) show ?thesis
      unfolding step channel_recv_def by (intro disjI1) (auto simp: Let_def)
  next
    fix F2 assume F2: "F = q @ F2" "F2 \<noteq> []" "recv_loop (buf_size pl - buf_len pl) q n [] = Inr ([] @ concat q, [])"
    then have "length (concat q) < n" using F(3) n length_concat_fragments by auto
    let ?pl' = "pl\<lparr>buf_ptr := map_option (\<lambda>m. poke m (buf_len pl) (concat q)) (buf_ptr pl),
                     buf_len := buf_len pl + length (concat q)\<rparr>"
    have "wf_buffer ?pl' \<and> buf_size ?pl' = buf_size pl \<and> buffer_data ?pl' = buffer_data pl @ concat q"
      using buffer_append [OF wf(1) m, of "concat q"] total wf(3) F2(1) by simp
    moreover have "receive_payload ch q = Inr (ch\<lparr>ch_buffers := bufs, ch_msg_payload := ?pl'\<rparr>, [], False, Buffer_default)"
      using F2(3) \<open>length (concat q) < n\<close> unfolding step channel_recv_def by (simp add: Let_def)
    ultimately show ?thesis using F(1) F2(1,2) wf(3) by (intro disjI2 exI [of _ F2] exI [of _ ?pl']) simp
  qed
qed


text \<open>
  A call of \<^verbatim>\<open>receive\<close> never fails on the fragments of a sequence of messages; it hands out the
  next message or none, and it takes a fragment off a queue that is not empty.
\<close>

definition receive_ok ::
    "nat \<Rightarrow> bytes list \<Rightarrow> bytes list \<Rightarrow> (bytes \<times> bytes) list \<Rightarrow>
     (ipc_channel \<times> bytes list \<times> bool \<times> buffer) result \<Rightarrow> bool" where
  "receive_ok ms q pend todo r \<longleftrightarrow>
     (\<exists>ch q' ok buf rest. r = Inr (ch, q', ok, buf) \<and>
        ch_msg_size ch = ms \<and> length (ch_buffers ch) \<le> BUFFER_ELEMS \<and>
        length q' \<le> length q - 1 \<and>
        todo = (if ok then [(ch_msg ch, buffer_data buf)] else []) @ rest \<and>
        link_parts ms ch (q' @ pend) rest)"

lemma receive_okI:
  "r = Inr (ch, q', ok, buf) \<Longrightarrow> ch_msg_size ch = ms \<Longrightarrow> length (ch_buffers ch) \<le> BUFFER_ELEMS \<Longrightarrow>
   length q' \<le> length q - 1 \<Longrightarrow>
   todo = (if ok then [(ch_msg ch, buffer_data buf)] else []) @ rest \<Longrightarrow>
   link_parts ms ch (q' @ pend) rest \<Longrightarrow> receive_ok ms q pend todo r"
  unfolding receive_ok_def by blast

lemma receive_ok_later:
  assumes "receive_ok ms q pend todo r" and "length q < length q'"
  shows "receive_ok ms q' pend todo r"
proof -
  from assms(1) obtain ch q2 ok buf rest where r: "r = Inr (ch, q2, ok, buf)" "ch_msg_size ch = ms"
    "length (ch_buffers ch) \<le> BUFFER_ELEMS" and q2: "length q2 \<le> length q - 1"
    and todo: "todo = (if ok then [(ch_msg ch, buffer_data buf)] else []) @ rest"
    "link_parts ms ch (q2 @ pend) rest" 
    unfolding receive_ok_def by blast
  show ?thesis by (rule receive_okI [OF r _ todo]) (use q2 assms(2) in simp)
qed

lemma receive_payload_ok:
  assumes read: "ch_msg_read ch" and h: "header_of (ch_msg ch) p" and ms: "ms = ch_msg_size ch"
    and pl: "payload_buffer ch (max (length p) ms) = (pl, bufs)" "length bufs \<le> BUFFER_ELEMS"
    and wf: "wf_buffer pl" "buf_ptr pl \<noteq> None" "buf_size pl = max (length p) ms"
    and F: "buffer_data pl @ concat F = p" "F \<noteq> []" "fragments ms F"
    and q: "q @ pend = F @ R" and R: "stream ms todo R"
  shows "receive_ok ms q pend ((ch_msg ch, p) # todo) (receive_payload ch q)"
  using receive_payload_parts [OF h ms pl(1) wf F q]
proof (elim disjE exE conjE)
  fix q2 buf
  assume r: "q = F @ q2" "buffer_data buf = p" "receive_payload ch q =
    Inr (ch\<lparr>ch_buffers := bufs, ch_msg_read := False, ch_msg_payload := Buffer_default\<rparr>, q2, True, buf)"
  have "link_parts ms (ch\<lparr>ch_buffers := bufs, ch_msg_read := False, ch_msg_payload := Buffer_default\<rparr>) (q2 @ pend) todo"
    by (rule link_parts.between) (use q r(1) R in simp_all)
  then show ?thesis
    by (rule receive_okI [OF r(3), rotated 4]) (use pl(2) ms r F(2) in \<open>cases F; simp_all\<close>)+
next
  fix F2 pl'
  assume F2: "F = q @ F2" "F2 \<noteq> []" "wf_buffer pl'" "buf_size pl' = max (length p) ms"
    "buffer_data pl' @ concat F2 = p"
    "receive_payload ch q = Inr (ch\<lparr>ch_buffers := bufs, ch_msg_payload := pl'\<rparr>, [], False, Buffer_default)"
  then have "link_parts ms (ch\<lparr>ch_buffers := bufs, ch_msg_payload := pl'\<rparr>) (F2 @ R) ((ch_msg ch, p) # todo)"
    using link_parts.within [of "ch\<lparr>ch_buffers := bufs, ch_msg_payload := pl'\<rparr>" p ms F2 todo R] read h F(3) R
    by simp
  with F2(1) q have "link_parts ms (ch\<lparr>ch_buffers := bufs, ch_msg_payload := pl'\<rparr>) ([] @ pend) ((ch_msg ch, p) # todo)"
    by simp
  then show ?thesis
    by (rule receive_okI [OF F2(6), rotated 4]) (use pl(2) ms in simp_all)
qed

lemma receive_parts:
  assumes parts: "link_parts ms ch (q @ pend) todo" and ms: "ms = ch_msg_size ch" "128 \<le> ms"
    and bufs: "length (ch_buffers ch) \<le> BUFFER_ELEMS"
  shows "receive_ok ms q pend todo (receive ch q)"
  using parts
proof (cases rule: link_parts.cases)
  case (within p F todo' R)
  let ?pl = "ch_msg_payload ch"
  have ptr: "buf_ptr ?pl \<noteq> None" using within(5,6) ms(2)
    by (cases "buf_ptr ?pl") (auto simp: wf_buffer_def)
  then have "payload_buffer ch (max (length p) ms) = (?pl, ch_buffers ch)"
    by (auto simp: payload_buffer_def buffer_null_def)
  from receive_payload_ok [OF within(3,4) ms(1) this bufs within(5) ptr within(6-9) within(1,10)] within(2,3)
  show ?thesis by (simp add: receive_def receive_header_def)
next
  case between
  show ?thesis
  proof (cases q)
    case Nil
    have "receive ch q = Inr (ch, [], False, Buffer_default)"
      using Nil between(1) by (simp add: receive_def receive_header_def channel_recv_def)
    then show ?thesis
      by (rule receive_okI) (use Nil parts ms bufs in simp_all)
  next
    case (Cons h q1)
    with between(3) obtain p F R rest where todo: "todo = (h, p) # rest" "q1 @ pend = F @ R"
      "header_of h p" "fragments ms F" "concat F = p" "stream ms rest R"
      by (cases todo) (simp, force)
    define ch1 where "ch1 = ch\<lparr>ch_msg := h, ch_msg_read := True\<rparr>"
    have "length h = 128" using todo(3) by (simp add: header_of_def)
    then have header: "receive ch q = receive_payload ch1 q1"
      using Cons between(1) ms ch1_def
      by (cases q1) (auto simp: receive_def receive_header_def channel_recv_def)
    show ?thesis
    proof (cases "p = []")
      case True
      with todo have "F = []" "sint (ipc_total_length h) = 0"
        using length_concat_fragments [OF todo(4)] header_of_length [OF todo(3)] by simp_all
      then have r: "receive_payload ch1 q1 = Inr (ch1\<lparr>ch_msg_read := False\<rparr>, q1, True, Buffer_default)"
        by (simp add: receive_payload_def ch1_def)
      have "link_parts ms (ch1\<lparr>ch_msg_read := False\<rparr>) (q1 @ pend) rest"
        by (rule link_parts.between) (use todo(2,6) \<open>F = []\<close> between(2) in \<open>simp_all add: ch1_def\<close>)
      then show ?thesis unfolding header
        by (rule receive_okI [OF r, rotated 4]) (use True todo(1) Cons ms(1) bufs in \<open>simp_all add: ch1_def\<close>)
    next
      case False
      have "payload_buffer ch1 (max (length p) ms) = (Buffer_new (max (length p) ms), tl (ch_buffers ch))"
        using between(2) bufs ms(2) unfolding payload_buffer_def ch1_def
        by (simp add: buffer_null_def Buffer_default_def retrieve_buffer_large BUFFER_ELEMS_def)
      moreover have "F \<noteq> []" using False todo(5) by auto
      ultimately have "receive_ok ms q1 pend ((h, p) # rest) (receive_payload ch1 q1)"
        using receive_payload_ok [of ch1 p ms "Buffer_new (max (length p) ms)" "tl (ch_buffers ch)" F q1 pend R rest]
          todo ms(1) bufs by (simp add: ch1_def)
      then show ?thesis unfolding header todo(1) by (rule receive_ok_later) (simp add: Cons)
    qed
  qed
qed

subsection \<open>The invariant of a link\<close>

lemma link_inv_initial: "link_initial l \<Longrightarrow> link_inv l"
  by (auto simp: link_initial_def link_inv_def Let_def intro!: link_parts.between)

lemma link_inv_send:
  assumes inv: "link_inv l" and m: "lk_pending l = []" "length m = IPC_BUF_SIZE" "list_all wf_buffer bs"
    "sum_list (map buf_len bs) < 2 ^ 31" "ipc_send_buffers (ch_msg_size (lk_chan l)) m bs = Some (m', cs)"
  shows "link_inv (l\<lparr>lk_pending := cs, lk_sent := lk_sent l @ [(m', concat (map buffer_data bs))]\<rparr>)"
proof -
  let ?p = "concat (map buffer_data bs)"
  from inv obtain todo where ms: "128 \<le> ch_msg_size (lk_chan l)" "ch_msg_size (lk_chan l) < 2 ^ 31"
      "length (ch_buffers (lk_chan l)) \<le> BUFFER_ELEMS"
    and sent: "lk_sent l = lk_received l @ todo"
    and parts: "link_parts (ch_msg_size (lk_chan l)) (lk_chan l) (lk_queue l) todo"
    using m(1) by (auto simp: link_inv_def Let_def)
  have len: "sum_list (map buf_len bs) = length ?p"
    using m(3) by (induction bs) (auto simp: length_buffer_data)
  from ipc_send_buffers_returns [of "ch_msg_size (lk_chan l)" m bs] ms m(2-5)
  obtain F where F: "cs = m' # F" "fragments (ch_msg_size (lk_chan l)) F" "concat F = ?p"
    and m': "m' = set_ipc_total_length (i32_of_size (length ?p)) m"
    unfolding len by auto
  have "header_of m' ?p"
    using m(2,4) m' unfolding len
    by (simp add: header_of_def set_ipc_total_length_def ipc_total_length_def get_put_same)
  from link_parts_append [OF parts this F(2,3)] ms sent F(1) show ?thesis
    by (simp add: link_inv_def Let_def)
qed

lemma link_inv_receive:
  assumes inv: "link_inv l" and r: "receive (lk_chan l) (lk_queue l) = Inr (ch, q, ok, buf)"
  shows "link_inv (l\<lparr>lk_chan := ch, lk_queue := q,
           lk_received := lk_received l @ (if ok then [(ch_msg ch, buffer_data buf)] else [])\<rparr>) \<and>
         length q \<le> length (lk_queue l) - 1"
proof -
  from inv obtain todo where ms: "128 \<le> ch_msg_size (lk_chan l)" "ch_msg_size (lk_chan l) < 2 ^ 31"
      "length (ch_buffers (lk_chan l)) \<le> BUFFER_ELEMS"
    and sent: "lk_sent l = lk_received l @ todo"
    and parts: "link_parts (ch_msg_size (lk_chan l)) (lk_chan l) (lk_queue l @ lk_pending l) todo"
    by (auto simp: link_inv_def Let_def)
  have "receive_ok (ch_msg_size (lk_chan l)) (lk_queue l) (lk_pending l) todo (Inr (ch, q, ok, buf))"
    using receive_parts [OF parts refl ms(1,3)] r by simp
  then obtain rest where "ch_msg_size ch = ch_msg_size (lk_chan l)" "length (ch_buffers ch) \<le> BUFFER_ELEMS"
    "length q \<le> length (lk_queue l) - 1"
    "todo = (if ok then [(ch_msg ch, buffer_data buf)] else []) @ rest"
    "link_parts (ch_msg_size (lk_chan l)) ch (q @ lk_pending l) rest"
    by (auto simp: receive_ok_def)
  with ms sent show ?thesis by (simp add: link_inv_def Let_def)
qed

lemma link_inv_receives:
  assumes "link_inv l"
  shows "\<exists>ch q ok buf. receive (lk_chan l) (lk_queue l) = Inr (ch, q, ok, buf)"
proof -
  from assms obtain todo where "128 \<le> ch_msg_size (lk_chan l)"
      "length (ch_buffers (lk_chan l)) \<le> BUFFER_ELEMS"
      "link_parts (ch_msg_size (lk_chan l)) (lk_chan l) (lk_queue l @ lk_pending l) todo"
    by (auto simp: link_inv_def Let_def)
  then show ?thesis using receive_parts [OF _ refl] unfolding receive_ok_def by blast
qed

lemma link_inv_drained:
  assumes "link_inv l" and "lk_queue l @ lk_pending l = []"
  shows "lk_received l = lk_sent l"
proof -
  from assms obtain todo where "lk_sent l = lk_received l @ todo"
      "link_parts (ch_msg_size (lk_chan l)) (lk_chan l) [] todo"
    by (auto simp: link_inv_def Let_def)
  moreover from this(2) have "todo = []"
    by (cases rule: link_parts.cases) (cases todo, auto)
  ultimately show ?thesis by simp
qed

lemma link_inv_step: "link_inv l \<Longrightarrow> link_step l l' \<Longrightarrow> link_inv l'"
proof (erule link_stepE, goal_cases)
  case prems: (1 m bs m' cs)
  then show ?case unfolding prems(2) by (intro link_inv_send) auto
next
  case 2
  then show ?case by (simp add: link_inv_def)
next
  case prems: (3 ch q ok buf)
  then show ?case unfolding prems(2) using link_inv_receive [OF prems(1,3)] by simp
qed

interpretation ipc_link: invariant_machine link_initial link_step link_inv
  by unfold_locales (auto intro: link_inv_initial link_inv_step)

text \<open>The receiver can always empty the queue, and the sender's remaining fragments after it.\<close>

lemma link_drains:
  "link_inv l \<Longrightarrow> \<exists>l'. link_step\<^sup>*\<^sup>* l l' \<and> lk_queue l' @ lk_pending l' = [] \<and> lk_sent l' = lk_sent l"
proof (induction "2 * length (lk_pending l) + length (lk_queue l)" arbitrary: l rule: less_induct)
  case less
  consider (empty) "lk_queue l @ lk_pending l = []"
    | (push) c cs where "lk_queue l = []" "lk_pending l = c # cs"
    | (recv) "lk_queue l \<noteq> []"
    by (cases "lk_pending l"; cases "lk_queue l") auto
  then show ?case
  proof cases
    case empty
    then show ?thesis by blast
  next
    case push
    let ?l = "l\<lparr>lk_pending := cs, lk_queue := lk_queue l @ [c]\<rparr>"
    have step: "link_step l ?l" by (rule link_push) (use push in \<open>simp_all add: MAX_MSGS_def\<close>)
    with less.prems less.hyps [of ?l] push link_inv_step obtain l'
      where "link_step\<^sup>*\<^sup>* ?l l'" "lk_queue l' @ lk_pending l' = []" "lk_sent l' = lk_sent l" by auto
    with step show ?thesis by (blast intro: converse_rtranclp_into_rtranclp)
  next
    case recv
    obtain ch q ok buf where r: "receive (lk_chan l) (lk_queue l) = Inr (ch, q, ok, buf)"
      using link_inv_receives [OF less.prems] by blast
    let ?l = "l\<lparr>lk_chan := ch, lk_queue := q,
       lk_received := lk_received l @ (if ok then [(ch_msg ch, buffer_data buf)] else [])\<rparr>"
    have inv: "link_inv ?l" "length q \<le> length (lk_queue l) - 1"
      using link_inv_receive [OF less.prems r] by simp_all
    have "length q < length (lk_queue l)" using inv(2) recv by (cases "lk_queue l") auto
    with less.hyps [OF _ inv(1)] obtain l'
      where "link_step\<^sup>*\<^sup>* ?l l'" "lk_queue l' @ lk_pending l' = []" "lk_sent l' = lk_sent l" by auto
    with link_receive [OF r] show ?thesis by (blast intro: converse_rtranclp_into_rtranclp)
  qed
qed

lemma blocking_receive_message:
  assumes "header_of h p" and "fragments (ch_msg_size ch) F" and "concat F = p"
    and "IPC_BUF_SIZE \<le> ch_msg_size ch" and "wf_buffer buf"
  shows "\<exists>b. blocking_receive ch buf (h # F @ R) = Some (Inr (ch\<lparr>ch_msg := h\<rparr>, b, R, True)) \<and>
           buffer_data b = p \<and> wf_buffer b"
proof -
  note len = header_of_length [OF assms(1)]
  have h: "length h = 128" "length p < 2 ^ 31" using assms(1) by (simp_all add: header_of_def)
  have header: "blocking_recv (ch_msg_size ch) (h # F @ R) 128 = Some (Inr (h, F @ R))"
    using h assms(4) by (cases "F @ R") (simp_all add: blocking_recv_def channel_recv_def)
  define b where "b = (if buf_size buf < length p then buffer_resize (length p) buf else buf)\<lparr>buf_len := 0\<rparr>"
  have b: "wf_buffer b" "length p \<le> buf_size b"
    using assms(5) by (auto simp: b_def wf_buffer_def split: option.splits)
  have "recv_loop (buf_size b) (F @ R) (length p) [] = Inr (p, R)"
    using recv_loop_fragments [of "F @ R" "[]" F R "ch_msg_size ch" "[]" "length p" "buf_size b"] assms(2,3) b(2)
    by auto
  then have payload: "blocking_recv (buf_size b) (F @ R) (length p) = Some (Inr (p, R))"
    by (simp add: blocking_recv_def channel_recv_def)
  have "buf_len b = 0" by (simp add: b_def)
  moreover from this have "buffer_data b = []" using length_buffer_data [OF b(1)] by simp
  ultimately have b': "wf_buffer (b\<lparr>buf_ptr := map_option (\<lambda>m. poke m 0 p) (buf_ptr b), buf_len := length p\<rparr>)"
      "buffer_data (b\<lparr>buf_ptr := map_option (\<lambda>m. poke m 0 p) (buf_ptr b), buf_len := length p\<rparr>) = p"
    using buffer_append [OF b(1), of _ p] b by (cases "buf_ptr b"; simp add: wf_buffer_def buffer_data_def buffer_accessor_def accessor_data_def)+
  show ?thesis
    using header payload b' len h unfolding blocking_receive_def Let_def b_def
    by (auto split: if_splits)
qed

lemma receive_message:
  assumes h: "header_of h p" "fragments (ch_msg_size ch) F" "concat F = p" and ms: "IPC_BUF_SIZE \<le> ch_msg_size ch"
    and ch: "\<not> ch_msg_read ch" "ch_msg_payload ch = Buffer_default" "length (ch_buffers ch) \<le> BUFFER_ELEMS"
  shows "\<exists>ch' b. receive ch (h # F @ R) = Inr (ch', R, True, b) \<and> ch_msg ch' = h \<and> buffer_data b = p \<and>
           ch_msg_size ch' = ch_msg_size ch \<and> \<not> ch_msg_read ch' \<and> ch_msg_payload ch' = Buffer_default \<and>
           length (ch_buffers ch') \<le> BUFFER_ELEMS"
proof -
  let ?ms = "ch_msg_size ch"
  define ch1 where "ch1 = ch\<lparr>ch_msg := h, ch_msg_read := True\<rparr>"
  have "length h = 128" using h(1) by (simp add: header_of_def)
  then have header: "receive ch (h # F @ R) = receive_payload ch1 (F @ R)"
    using ms ch(1) ch1_def by (cases "F @ R") (auto simp: receive_def receive_header_def channel_recv_def)
  show ?thesis
  proof (cases "p = []")
    case True
    then have "F = []" "sint (ipc_total_length h) = 0"
      using h length_concat_fragments [OF h(2)] header_of_length [OF h(1)] by simp_all
    then have "receive ch (h # F @ R) = Inr (ch1\<lparr>ch_msg_read := False\<rparr>, R, True, Buffer_default)"
      unfolding header by (simp add: receive_payload_def ch1_def)
    with True ch show ?thesis by (simp add: ch1_def)
  next
    case False
    have pl: "payload_buffer ch1 (max (length p) ?ms) = (Buffer_new (max (length p) ?ms), tl (ch_buffers ch))"
      using ch(2,3) ms unfolding payload_buffer_def ch1_def
      by (simp add: buffer_null_def Buffer_default_def retrieve_buffer_large BUFFER_ELEMS_def)
    have F: "F \<noteq> []" "header_of (ch_msg ch1) p" "fragments ?ms F" using False h by (auto simp: ch1_def)
    have b: "wf_buffer (Buffer_new (max (length p) ?ms))" "buf_ptr (Buffer_new (max (length p) ?ms)) \<noteq> None"
        "buf_size (Buffer_new (max (length p) ?ms)) = max (length p) ?ms"
        "buffer_data (Buffer_new (max (length p) ?ms)) @ concat F = p"
      using h(3) by simp_all
    from receive_payload_parts [OF F(2) _ pl b F(1,3), of "F @ R" "[]" R] obtain buf where
      "buffer_data buf = p" "receive_payload ch1 (F @ R) =
         Inr (ch1\<lparr>ch_buffers := tl (ch_buffers ch), ch_msg_read := False, ch_msg_payload := Buffer_default\<rparr>, R, True, buf)"
      by (auto simp: ch1_def)
    with ch(3) show ?thesis unfolding header by (simp add: ch1_def)
  qed
qed

section \<open>Properties\<close>

text \<open>
  C8. In every interleaving of a sender and a receiver on a queue whose messages have room for a
  header, the receiver hands out the messages that were sent, in order and with their payload
  reassembled: what it has received is at any moment a prefix of what was sent, and everything
  once queue and sender are drained. No call of receive fails.
\<close>

theorem ipc_channel_delivers:
  assumes "reachable link_initial link_step l"
  shows "(\<exists>rest. lk_sent l = lk_received l @ rest) \<and>
         (\<exists>r. receive (lk_chan l) (lk_queue l) = Inr r) \<and>
         (lk_pending l = [] \<and> lk_queue l = [] \<longrightarrow> lk_received l = lk_sent l)"
proof -
  have inv: "link_inv l" using assms by (rule ipc_link.reachable_good)
  then have "\<exists>rest. lk_sent l = lk_received l @ rest" by (auto simp: link_inv_def Let_def)
  with link_inv_receives [OF inv] link_inv_drained [OF inv] show ?thesis by auto
qed

definition example_link :: ipc_link where
  "example_link = \<lparr>lk_pending = [], lk_queue = [],
     lk_chan = \<lparr>ch_created = True, ch_nonblock = True, ch_name = ''/q'', ch_msg_size = MAX_MSG_SIZE,
       ch_buffers = BufferQueue BUFFER_ELEMS BUFFER_SIZE, ch_msg_read = False,
       ch_msg = ipc_Message IPC_GENERIC_HEADER, ch_msg_payload = Buffer_default\<rparr>,
     lk_sent = [], lk_received = []\<rparr>"

definition example_header :: bytes where
  "example_header = set_ipc_total_length 0 (gr_data GetRequest)"

text \<open>The link of a fresh channel, with one request given to the sender.\<close>

lemma example_link_reachable:
  "reachable link_initial link_step
     (example_link\<lparr>lk_pending := [example_header], lk_sent := [(example_header, [])]\<rparr>)"
proof -
  have "link_initial example_link"
    by (simp add: link_initial_def example_link_def MAX_MSG_SIZE_def BufferQueue_def)
  moreover have "length (gr_data GetRequest) = 128" by (simp add: ipc_ctors ipc_setters)
  then have "ipc_send_buffers (ch_msg_size (lk_chan example_link)) (gr_data GetRequest) [] =
      Some (example_header, [example_header])"
    using ipc_send_buffers_returns [of "ch_msg_size (lk_chan example_link)" "gr_data GetRequest" "[]"]
    by (auto simp: example_link_def MAX_MSG_SIZE_def example_header_def i32_of_size_def
        dest: length_concat_fragments simp del: concat_eq_Nil_conv)
  then have "link_step example_link
     (example_link\<lparr>lk_pending := [example_header], lk_sent := lk_sent example_link @ [(example_header, concat (map buffer_data []))]\<rparr>)"
    using \<open>length (gr_data GetRequest) = 128\<close>
    by (intro link_send [where m = "gr_data GetRequest"]) (simp_all add: example_link_def)
  ultimately show ?thesis
    using reachable_step [OF reachable_start, of link_initial example_link link_step]
    by (simp add: example_link_def)
qed

theorem ipc_channel_delivers_witness:
  "(\<exists>rest. [(example_header, [])] = [] @ rest) \<and>
   (\<exists>r. receive (lk_chan example_link) [] = Inr r)"
  using ipc_channel_delivers [OF example_link_reachable] by (simp add: example_link_def)

text \<open>
  The receiver is never stuck: from every reachable state, further pushes of the fragments
  already given to the queue and further calls of receive deliver all messages sent so far.
\<close>

lemma ipc_channel_drains:
  assumes "reachable link_initial link_step l"
  shows "\<exists>l'. link_step\<^sup>*\<^sup>* l l' \<and> lk_sent l' = lk_sent l \<and> lk_received l' = lk_sent l"
proof -
  have inv: "link_inv l" using assms by (rule ipc_link.reachable_good)
  from link_drains [OF this] obtain l' where l': "link_step\<^sup>*\<^sup>* l l'" "lk_queue l' @ lk_pending l' = []"
    "lk_sent l' = lk_sent l" by blast
  from ipc_link.steps_good [OF l'(1) inv] l'(2) have "lk_received l' = lk_sent l'"
    by (rule link_inv_drained)
  with l' show ?thesis by auto
qed

lemma ipc_channel_drains_witness:
  "\<exists>l'. link_step\<^sup>*\<^sup>* (example_link\<lparr>lk_pending := [example_header], lk_sent := [(example_header, [])]\<rparr>) l' \<and>
        lk_received l' = [(example_header, [])]"
  using ipc_channel_drains [OF example_link_reachable] by auto

text \<open>
  The invoker's blocking receive, on a queue that holds a whole message and whatever comes
  after it, returns with the header and the payload of that message and leaves the rest in the
  queue; the buffer grows when the payload needs it.
\<close>

lemma blocking_receive_delivers:
  assumes "header_of h p" and "fragments (ch_msg_size ch) F" and "concat F = p"
    and "IPC_BUF_SIZE \<le> ch_msg_size ch" and "wf_buffer buf"
  shows "\<exists>b. blocking_receive ch buf (h # F @ R) = Some (Inr (ch\<lparr>ch_msg := h\<rparr>, b, R, True)) \<and>
           buffer_data b = p \<and> wf_buffer b"
  using assms by (rule blocking_receive_message)

lemma blocking_receive_delivers_witness:
  "\<exists>b. blocking_receive (lk_chan example_link) (Buffer_new 4) [example_header, ''next''] =
         Some (Inr (lk_chan example_link\<lparr>ch_msg := example_header\<rparr>, b, [''next''], True)) \<and>
       buffer_data b = [] \<and> wf_buffer b"
proof -
  have "header_of example_header []"
    by (simp add: header_of_def example_header_def ipc_simps i32_of_size_def)
  then show ?thesis
    using blocking_receive_delivers [of example_header "[]" "lk_chan example_link" "[]" "Buffer_new 4" "[''next'']"]
    by (simp add: example_link_def MAX_MSG_SIZE_def)
qed

end
