(* ===== verification/Application_Status.thy ===== *)
theory Application_Status
  imports Prelude "HOL-Library.Multiset"
begin

text \<open>
  The view a process has of its application:
  \<^verbatim>\<open>src/common/include/praas/common/application.hpp\<close>. Processes become active, and active
  processes become swapped. The controller and every invoker keep such a view and update it with
  the messages of the control plane.
\<close>

datatype app_status = ACTIVE | SWAPPED

fun status_code :: "app_status \<Rightarrow> int32" where
  "status_code ACTIVE = 1"
| "status_code SWAPPED = 2"

text \<open>\<^verbatim>\<open>static_cast<Status>(int)\<close>: the code compares the result with \<open>ACTIVE\<close> only.\<close>

definition status_of_code :: "int32 \<Rightarrow> app_status" where
  "status_of_code c = (if c = 1 then ACTIVE else SWAPPED)"

record application =
  active_processes :: "string list"
  swapped_processes :: "string list"

definition application_empty :: application where
  "application_empty = \<lparr>active_processes = [], swapped_processes = []\<rparr>"

definition app_apply_update :: "app_status \<Rightarrow> string \<Rightarrow> application \<Rightarrow> application" where
  "app_apply_update st pid app =
     (if st = ACTIVE then app\<lparr>active_processes := active_processes app @ [pid]\<rparr>
      else if pid \<in> set (active_processes app)
      then app\<lparr>swapped_processes := swapped_processes app @ [pid],
               active_processes := remove1 pid (active_processes app)\<rparr>
      else app)"

record app_update =
  upd_status :: app_status
  upd_process :: string

fun apply_updates :: "app_update list \<Rightarrow> application \<Rightarrow> application" where
  "apply_updates [] app = app"
| "apply_updates (u # us) app = apply_updates us (app_apply_update (upd_status u) (upd_process u) app)"

section \<open>Properties\<close>

lemma status_roundtrip [simp]: "status_of_code (status_code st) = st"
  by (cases st) (simp_all add: status_of_code_def)

lemma app_apply_update_mset:
  "mset (active_processes (app_apply_update st p app)) + mset (swapped_processes (app_apply_update st p app)) =
   mset (active_processes app) + mset (swapped_processes app) + (if st = ACTIVE then {#p#} else {#})"
  by (auto simp: app_apply_update_def)

lemma apply_updates_mset:
  "mset (active_processes (apply_updates us app)) + mset (swapped_processes (apply_updates us app)) =
   mset (active_processes app) + mset (swapped_processes app) +
   mset (map upd_process (filter (\<lambda>u. upd_status u = ACTIVE) us))"
  by (induction us arbitrary: app) (simp_all add: app_apply_update_mset)

lemma count_swapped_le:
  "count (mset (swapped_processes (apply_updates us app))) p \<le>
   count (mset (swapped_processes app)) p +
   length (filter (\<lambda>u. upd_status u = SWAPPED \<and> upd_process u = p) us)"
proof (induction us arbitrary: app)
  case Nil
  then show ?case by simp
next
  case (Cons u us)
  show ?case
    using Cons.IH [of "app_apply_update (upd_status u) (upd_process u) app"]
    by (cases "upd_status u") (auto simp: app_apply_update_def split: if_splits)
qed

text \<open>
  The view of an application neither loses nor invents processes: after any sequence of
  updates, the active and the swapped processes together are exactly the announced ones, each as
  often as it was announced, and a process counts as swapped at most as often as the control
  plane reported it swapped.
\<close>

lemma application_view_conserves:
  "let app = apply_updates us application_empty in
   mset (active_processes app) + mset (swapped_processes app) =
     mset (map upd_process (filter (\<lambda>u. upd_status u = ACTIVE) us)) \<and>
   count (mset (swapped_processes app)) p \<le>
     length (filter (\<lambda>u. upd_status u = SWAPPED \<and> upd_process u = p) us)"
  using apply_updates_mset [of us application_empty] count_swapped_le [of us application_empty p]
  by (simp add: Let_def application_empty_def)

end
