(* ===== verification/Message_Store.thy ===== *)
theory Message_Store
  imports Buffers "HOL-Library.Multiset"
begin

text \<open>
  The two stores of a process controller:
  \<^verbatim>\<open>src/process/controller/src/messages.cpp\<close> and \<^verbatim>\<open>messages.hpp\<close>. The mailbox holds messages
  that have been put but not yet got, and state; the pending messages are the workers that wait
  for a message or for the result of an invocation. A worker is named by its position in the
  vector of workers. Which of several waiting entries with the same key an
  \<^verbatim>\<open>unordered_multimap\<close> enumerates first is the implementation's choice; the list below keeps the
  order of insertion, and the interface the controller's proofs use speaks of the multiset of
  entries only.
\<close>

section \<open>Pending messages\<close>

type_synonym worker_id = nat

datatype pending_type = PENDING_NONE | PENDING_GET | PENDING_INVOCATION

record pending_message =
  pm_type :: pending_type
  pm_source :: "string option"
  pm_worker :: worker_id

type_synonym pending_messages = "(string \<times> pending_message) list"

definition ANY_PROCESS :: string where "ANY_PROCESS = ''ANY''"

definition PendingMessages :: pending_messages where
  "PendingMessages = []"

definition insert_get :: "string \<Rightarrow> string \<Rightarrow> worker_id \<Rightarrow> pending_messages \<Rightarrow> pending_messages" where
  "insert_get key source w ps =
     ps @ [(key, \<lparr>pm_type = PENDING_GET, pm_source = Some source, pm_worker = w\<rparr>)]"

definition insert_invocation :: "string \<Rightarrow> worker_id \<Rightarrow> pending_messages \<Rightarrow> pending_messages" where
  "insert_invocation key w ps =
     ps @ [(key, \<lparr>pm_type = PENDING_INVOCATION, pm_source = Some '''', pm_worker = w\<rparr>)]"

definition get_matches :: "string \<Rightarrow> string \<Rightarrow> string \<times> pending_message \<Rightarrow> bool" where
  "get_matches key source e \<longleftrightarrow>
     fst e = key \<and>
     (pm_source (snd e) = Some ANY_PROCESS \<or> pm_source (snd e) = Some source) \<and>
     pm_type (snd e) = PENDING_GET"

fun find_get :: "string \<Rightarrow> string \<Rightarrow> pending_messages \<Rightarrow> worker_id option \<times> pending_messages" where
  "find_get key source [] = (None, [])"
| "find_get key source (e # ps) =
     (if get_matches key source e then (Some (pm_worker (snd e)), ps)
      else (case find_get key source ps of (r, ps') \<Rightarrow> (r, e # ps')))"

definition find_invocation :: "string \<Rightarrow> pending_messages \<Rightarrow> worker_id list \<times> pending_messages" where
  "find_invocation key ps =
     (map (\<lambda>e. pm_worker (snd e)) (filter (\<lambda>e. fst e = key) ps), filter (\<lambda>e. fst e \<noteq> key) ps)"

section \<open>Mailbox\<close>

record mail =
  mail_source :: string
  mail_data :: buffer

text \<open>The timestamps of state keys are an argument of the operation that reads the clock.\<close>

record message_store =
  ms_msgs :: "string \<rightharpoonup> mail"
  ms_state_keys :: "(string \<times> nat) list"

definition MessageStore :: message_store where
  "MessageStore = \<lparr>ms_msgs = Map.empty, ms_state_keys = []\<rparr>"

definition mailbox_put :: "string \<Rightarrow> string \<Rightarrow> buffer \<Rightarrow> message_store \<Rightarrow> bool \<times> message_store" where
  "mailbox_put key source payload st =
     (case ms_msgs st key of
        None \<Rightarrow> (True, st\<lparr>ms_msgs := (ms_msgs st)(key \<mapsto> \<lparr>mail_source = source, mail_data = payload\<rparr>)\<rparr>)
      | Some _ \<Rightarrow> (False, st))"

fun touch_key :: "string \<Rightarrow> nat \<Rightarrow> (string \<times> nat) list \<Rightarrow> (string \<times> nat) list result" where
  "touch_key key now [] = Inl UndefinedBehaviour"
| "touch_key key now ((k, t) # ks) =
     (if k = key then Inr ((k, now) # ks)
      else and_then (touch_key key now ks) (\<lambda>ks'. Inr ((k, t) # ks')))"

definition mailbox_state :: "nat \<Rightarrow> string \<Rightarrow> buffer \<Rightarrow> message_store \<Rightarrow> (bool \<times> message_store) result" where
  "mailbox_state now key payload st =
     (let st' = st\<lparr>ms_msgs := (ms_msgs st)(key \<mapsto> \<lparr>mail_source = '''', mail_data = payload\<rparr>)\<rparr> in
      if ms_msgs st key = None
      then Inr (True, st'\<lparr>ms_state_keys := ms_state_keys st @ [(key, now)]\<rparr>)
      else and_then (touch_key key now (ms_state_keys st)) (\<lambda>ks.
             Inr (True, st'\<lparr>ms_state_keys := ks\<rparr>)))"

definition state_keys_of :: "message_store \<Rightarrow> (string \<times> nat) list" where
  "state_keys_of st = ms_state_keys st"

definition try_get :: "string \<Rightarrow> string \<Rightarrow> message_store \<Rightarrow> buffer option \<times> message_store" where
  "try_get key source st =
     (case ms_msgs st key of
        None \<Rightarrow> (None, st)
      | Some m \<Rightarrow>
          if source \<noteq> ANY_PROCESS \<and> mail_source m \<noteq> source then (None, st)
          else (Some (mail_data m), st\<lparr>ms_msgs := (ms_msgs st)(key := None)\<rparr>))"

definition try_state :: "string \<Rightarrow> message_store \<Rightarrow> buffer option" where
  "try_state key st = map_option mail_data (ms_msgs st key)"

section \<open>The mailbox interface\<close>

text \<open>
  What the controller relies on: a message that was put can be got once, by a reader that names
  its source or any source, and nothing overwrites it in the meantime.
\<close>

locale mailbox =
  fixes look :: "'s \<Rightarrow> string \<Rightarrow> mail option"
    and put :: "string \<Rightarrow> string \<Rightarrow> buffer \<Rightarrow> 's \<Rightarrow> bool \<times> 's"
    and get :: "string \<Rightarrow> string \<Rightarrow> 's \<Rightarrow> buffer option \<times> 's"
  assumes put_result: "fst (put k src b s) \<longleftrightarrow> look s k = None"
    and look_put: "look (snd (put k src b s)) k' =
          (if k' = k \<and> look s k = None then Some \<lparr>mail_source = src, mail_data = b\<rparr> else look s k')"
    and get_result: "fst (get k src s) =
          (case look s k of None \<Rightarrow> None
           | Some m \<Rightarrow> if src = ANY_PROCESS \<or> src = mail_source m then Some (mail_data m) else None)"
    and look_get: "look (snd (get k src s)) k' =
          (if k' = k \<and> fst (get k src s) \<noteq> None then None else look s k')"
begin

lemma get_after_put:
  "look s k = None \<Longrightarrow> src' = src \<or> src' = ANY_PROCESS \<Longrightarrow>
     fst (get k src' (snd (put k src b s))) = Some b \<and>
     look (snd (get k src' (snd (put k src b s)))) = look s"
  by (auto simp: get_result look_put look_get fun_eq_iff)

lemma get_at_most_once:
  "fst (get k src s) = Some b \<Longrightarrow> fst (get k src' (snd (get k src s))) = None"
  by (simp add: get_result [of k src' "snd (get k src s)"] look_get)

lemma get_wrong_source:
  "look s k = Some m \<Longrightarrow> src \<noteq> ANY_PROCESS \<Longrightarrow> src \<noteq> mail_source m \<Longrightarrow>
     fst (get k src s) = None \<and> look (snd (get k src s)) = look s"
  by (auto simp: get_result look_get fun_eq_iff)

lemma put_keeps_first:
  "look s k = Some m \<Longrightarrow> \<not> fst (put k src b s) \<and> look (snd (put k src b s)) = look s"
  by (auto simp: put_result look_put fun_eq_iff)

lemma put_other_key:
  "k' \<noteq> k \<Longrightarrow> fst (get k' src' (snd (put k src b s))) = fst (get k' src' s)"
  by (simp add: get_result look_put)

end

interpretation mbox: mailbox ms_msgs mailbox_put try_get
  by unfold_locales (auto simp: mailbox_put_def try_get_def split: option.splits)

section \<open>The interface of the pending messages\<close>

locale pending_store =
  fixes entries :: "'s \<Rightarrow> (string \<times> pending_message) multiset"
    and add_get :: "string \<Rightarrow> string \<Rightarrow> worker_id \<Rightarrow> 's \<Rightarrow> 's"
    and add_invocation :: "string \<Rightarrow> worker_id \<Rightarrow> 's \<Rightarrow> 's"
    and serve_get :: "string \<Rightarrow> string \<Rightarrow> 's \<Rightarrow> worker_id option \<times> 's"
    and serve_invocation :: "string \<Rightarrow> 's \<Rightarrow> worker_id list \<times> 's"
  assumes entries_add_get: "entries (add_get k src w s) =
          add_mset (k, \<lparr>pm_type = PENDING_GET, pm_source = Some src, pm_worker = w\<rparr>) (entries s)"
    and entries_add_invocation: "entries (add_invocation k w s) =
          add_mset (k, \<lparr>pm_type = PENDING_INVOCATION, pm_source = Some '''', pm_worker = w\<rparr>) (entries s)"
    and serve_get_none: "fst (serve_get k src s) = None \<longleftrightarrow> (\<forall>e \<in># entries s. \<not> get_matches k src e)"
    and serve_get_none_same: "fst (serve_get k src s) = None \<Longrightarrow> snd (serve_get k src s) = s"
    and serve_get_some: "fst (serve_get k src s) = Some w \<Longrightarrow>
          \<exists>e. get_matches k src e \<and> pm_worker (snd e) = w \<and> entries s = add_mset e (entries (snd (serve_get k src s)))"
    and serve_invocation_workers: "mset (fst (serve_invocation k s)) =
          image_mset (\<lambda>e. pm_worker (snd e)) (filter_mset (\<lambda>e. fst e = k) (entries s))"
    and serve_invocation_entries: "entries (snd (serve_invocation k s)) =
          filter_mset (\<lambda>e. fst e \<noteq> k) (entries s)"
begin

lemma waiting_get_served:
  "src' = src \<or> src = ANY_PROCESS \<Longrightarrow> \<exists>w'. fst (serve_get k src' (add_get k src w s)) = Some w'"
  using serve_get_none [of k src' "add_get k src w s"]
  by (auto simp: entries_add_get get_matches_def)

lemma only_waiter_served:
  assumes "fst (serve_get k src s) = None"
  shows "fst (serve_get k src (add_get k src w s)) = Some w \<and>
         entries (snd (serve_get k src (add_get k src w s))) = entries s"
proof -
  let ?e = "(k, \<lparr>pm_type = PENDING_GET, pm_source = Some src, pm_worker = w\<rparr>)"
  obtain w' where w': "fst (serve_get k src (add_get k src w s)) = Some w'"
    using waiting_get_served by blast
  from serve_get_some [OF this] obtain e where e: "get_matches k src e" "pm_worker (snd e) = w'"
    "add_mset ?e (entries s) = add_mset e (entries (snd (serve_get k src (add_get k src w s))))"
    by (auto simp: entries_add_get)
  have "e \<notin># entries s" using assms e(1) by (auto simp: serve_get_none)
  with e(3) have "e = ?e" by (metis insert_noteq_member)
  with e w' show ?thesis by simp
qed

lemma serve_invocation_all:
  "set (fst (serve_invocation k s)) = {pm_worker m | m. (k, m) \<in># entries s}"
proof -
  have "set (fst (serve_invocation k s)) =
      set_mset (image_mset (\<lambda>e. pm_worker (snd e)) (filter_mset (\<lambda>e. fst e = k) (entries s)))"
    by (simp flip: serve_invocation_workers)
  then show ?thesis by (auto simp: image_iff)
qed

lemma serve_invocation_once:
  "fst (serve_invocation k (snd (serve_invocation k s))) = []"
proof -
  have "mset (fst (serve_invocation k (snd (serve_invocation k s)))) = {#}"
    by (simp add: serve_invocation_workers serve_invocation_entries filter_filter_mset)
  then show ?thesis by simp
qed

end

lemma find_get_none_iff: "fst (find_get k src ps) = None \<longleftrightarrow> (\<forall>e \<in> set ps. \<not> get_matches k src e)"
  by (induction ps) (auto split: prod.splits)

lemma find_get_none_same: "fst (find_get k src ps) = None \<Longrightarrow> snd (find_get k src ps) = ps"
  by (induction ps) (auto split: prod.splits if_splits)

lemma find_get_some:
  "fst (find_get k src ps) = Some w \<Longrightarrow>
     \<exists>e. get_matches k src e \<and> pm_worker (snd e) = w \<and> mset ps = add_mset e (mset (snd (find_get k src ps)))"
  by (induction ps) (auto split: prod.splits if_splits)

interpretation pend: pending_store mset insert_get insert_invocation find_get find_invocation
proof
  fix k src w and s :: pending_messages
  assume "fst (find_get k src s) = Some w"
  then show "\<exists>e. get_matches k src e \<and> pm_worker (snd e) = w \<and> mset s = add_mset e (mset (snd (find_get k src s)))"
    by (rule find_get_some)
qed (simp_all add: insert_get_def insert_invocation_def find_get_none_iff find_get_none_same find_invocation_def)

section \<open>State keys\<close>

lemma touch_key_ok: "key \<in> fst ` set ks \<Longrightarrow> \<exists>ks'. touch_key key now ks = Inr ks' \<and> map fst ks' = map fst ks \<and> (key, now) \<in> set ks'"
proof (induction key now ks rule: touch_key.induct)
  case (2 key now k t ks)
  show ?case
  proof (cases "k = key")
    case False
    with 2 obtain ks' where "touch_key key now ks = Inr ks'" "map fst ks' = map fst ks" "(key, now) \<in> set ks'"
      by auto
    with False show ?thesis by simp
  qed simp
qed simp

lemma touch_key_missing: "key \<notin> fst ` set ks \<Longrightarrow> touch_key key now ks = Inl UndefinedBehaviour"
  by (induction key now ks rule: touch_key.induct) auto

text \<open>
  A process that keeps the names of its state apart from the names of its messages: \<open>K\<close> is the
  set of state names.
\<close>

inductive mailbox_step :: "string set \<Rightarrow> message_store \<Rightarrow> message_store \<Rightarrow> bool" for K where
  step_put: "k \<notin> K \<Longrightarrow> mailbox_put k src b st = (ok, st') \<Longrightarrow> mailbox_step K st st'"
| step_state: "k \<in> K \<Longrightarrow> mailbox_state now k b st = Inr (ok, st') \<Longrightarrow> mailbox_step K st st'"
| step_get: "try_get k src st = (r, st') \<Longrightarrow> mailbox_step K st st'"

definition state_keys_inv :: "string set \<Rightarrow> message_store \<Rightarrow> bool" where
  "state_keys_inv K st \<longleftrightarrow> (\<forall>k \<in> K. ms_msgs st k \<noteq> None \<longrightarrow> k \<in> fst ` set (ms_state_keys st))"

lemma state_keys_inv_step: "mailbox_step K st st' \<Longrightarrow> state_keys_inv K st \<Longrightarrow> state_keys_inv K st'"
proof (induction rule: mailbox_step.induct)
  case (step_put k src b st ok st')
  then show ?case by (auto simp: state_keys_inv_def mailbox_put_def split: option.splits if_splits)
next
  case (step_state k now b st ok st')
  show ?case
  proof (cases "ms_msgs st k")
    case None
    with step_state show ?thesis by (auto simp: state_keys_inv_def mailbox_state_def split: if_splits)
  next
    case (Some m)
    with step_state have "k \<in> fst ` set (ms_state_keys st)" by (auto simp: state_keys_inv_def)
    from touch_key_ok [OF this] obtain ks' where "touch_key k now (ms_state_keys st) = Inr ks'"
      "map fst ks' = map fst (ms_state_keys st)" by blast
    moreover from this(2) have "fst ` set ks' = fst ` set (ms_state_keys st)" by (metis list.set_map)
    ultimately show ?thesis using step_state Some
      by (auto simp: state_keys_inv_def mailbox_state_def split: if_splits)
  qed
next
  case (step_get k src st r st')
  then show ?case by (auto simp: state_keys_inv_def try_get_def split: option.splits if_splits)
qed

interpretation mbox_run: invariant_machine "\<lambda>st. st = MessageStore" "mailbox_step K" "state_keys_inv K" for K
  by unfold_locales (auto simp: MessageStore_def state_keys_inv_def [of _ "\<lparr>ms_msgs = _, ms_state_keys = _\<rparr>"] intro: state_keys_inv_step)

lemma mailbox_state_ok:
  assumes "state_keys_inv K st" and "k \<in> K"
  shows "\<exists>st'. mailbox_state now k b st = Inr (True, st') \<and> try_state k st' = Some b \<and>
           (k, now) \<in> set (state_keys_of st')"
proof (cases "ms_msgs st k")
  case None
  then show ?thesis by (simp add: mailbox_state_def try_state_def state_keys_of_def)
next
  case (Some m)
  with assms have "k \<in> fst ` set (ms_state_keys st)" by (auto simp: state_keys_inv_def)
  from touch_key_ok [OF this, of now] Some show ?thesis
    by (auto simp: mailbox_state_def try_state_def state_keys_of_def)
qed

section \<open>Delivery\<close>

text \<open>
  A message that is put under a free key is got back by exactly one reader that names its
  source or any source; the read restores the mailbox, a second read finds nothing, and a put
  under a taken key is refused and leaves the first message in place.
\<close>

lemma mailbox_delivers_once:
  assumes "ms_msgs st k = None" and "src' = src \<or> src' = ANY_PROCESS"
  shows "(let st1 = snd (mailbox_put k src b st); st2 = snd (try_get k src' st1) in
          fst (mailbox_put k src b st) \<and>
          fst (mailbox_put k src2 b2 st1) = False \<and> snd (mailbox_put k src2 b2 st1) = st1 \<and>
          fst (try_get k src' st1) = Some b \<and> ms_msgs st2 = ms_msgs st \<and>
          fst (try_get k src2 st2) = None)"
proof -
  let ?st1 = "snd (mailbox_put k src b st)"
  have 1: "fst (mailbox_put k src b st)" "ms_msgs ?st1 k = Some \<lparr>mail_source = src, mail_data = b\<rparr>"
    using assms(1) by (simp_all add: mbox.put_result mbox.look_put)
  have 2: "fst (try_get k src' ?st1) = Some b" "ms_msgs (snd (try_get k src' ?st1)) = ms_msgs st"
    using mbox.get_after_put [OF assms] by simp_all
  from 1(2) have "fst (mailbox_put k src2 b2 ?st1) = False \<and> snd (mailbox_put k src2 b2 ?st1) = ?st1"
    by (simp add: mailbox_put_def)
  with 1 2 mbox.get_at_most_once [OF 2(1)] show ?thesis by (simp add: Let_def)
qed

lemma mailbox_delivers_once_witness:
  "fst (try_get ''k'' ANY_PROCESS (snd (mailbox_put ''k'' ''p1'' (Buffer_new 3) MessageStore))) = Some (Buffer_new 3)"
  using mailbox_delivers_once [of MessageStore "''k''" ANY_PROCESS "''p1''" "Buffer_new 3"]
  by (simp add: MessageStore_def Let_def)

text \<open>
  A worker that waits for a message is served when it arrives: if nobody else waits for the
  key and source, the next put finds exactly this worker and no longer afterwards. The results of
  an invocation go to every worker that waits under its key, once.
\<close>

lemma pending_served:
  assumes "fst (find_get k src ps) = None"
  shows "fst (find_get k src (insert_get k src w ps)) = Some w \<and>
         mset (snd (find_get k src (insert_get k src w ps))) = mset ps \<and>
         w \<in> set (fst (find_invocation k (insert_invocation k w ps))) \<and>
         fst (find_invocation k (snd (find_invocation k (insert_invocation k w ps)))) = []"
proof -
  have "w \<in> set (fst (find_invocation k (insert_invocation k w ps)))"
    using pend.serve_invocation_all [of k "insert_invocation k w ps"]
    by (force simp: pend.entries_add_invocation)
  with pend.only_waiter_served [OF assms, of w] pend.serve_invocation_once
  show ?thesis by blast
qed

lemma pending_served_witness:
  "fst (find_get ''k'' ''p'' (insert_get ''k'' ''p'' 1 (insert_get ''k'' ''q'' 0 PendingMessages))) = Some 1"
proof -
  have "fst (find_get ''k'' ''p'' (insert_get ''k'' ''q'' 0 PendingMessages)) = None"
    by (simp add: insert_get_def PendingMessages_def get_matches_def ANY_PROCESS_def)
  from pending_served [OF this] show ?thesis by blast
qed

text \<open>
  In a process whose state names are never used for messages, storing state always succeeds,
  in whatever order messages and state are stored and read: the stored value is read back and the
  key is listed with the time of the store.
\<close>

lemma state_store_total:
  assumes "reachable (\<lambda>st. st = MessageStore) (mailbox_step K) st" and "k \<in> K"
  shows "\<exists>st'. mailbox_state now k b st = Inr (True, st') \<and> try_state k st' = Some b \<and>
           (k, now) \<in> set (state_keys_of st')"
  using mbox_run.reachable_good [OF assms(1)] assms(2) by (rule mailbox_state_ok)

lemma state_store_total_witness:
  "\<exists>st'. mailbox_state 7 ''s'' (Buffer_new 1) MessageStore = Inr (True, st') \<and>
         try_state ''s'' st' = Some (Buffer_new 1) \<and> (''s'', 7) \<in> set (state_keys_of st')"
  by (rule state_store_total [where K = "{''s''}"]) (auto intro: reachable_start)

text \<open>
  Storing state under the key of a message dereferences an end iterator: the key is in the
  mailbox but not among the state keys, and the code looks it up there without a check.
\<close>

lemma state_over_message_undefined:
  assumes "ms_msgs st k = None" and "k \<notin> fst ` set (ms_state_keys st)"
  shows "mailbox_state now k b (snd (mailbox_put k src b' st)) = Inl UndefinedBehaviour"
  using assms by (simp add: mailbox_put_def mailbox_state_def touch_key_missing)

lemma state_over_message_undefined_witness:
  "mailbox_state 7 ''k'' (Buffer_new 1) (snd (mailbox_put ''k'' ''p'' (Buffer_new 1) MessageStore)) = Inl UndefinedBehaviour"
  by (rule state_over_message_undefined) (simp_all add: MessageStore_def)

text \<open>
  The result of an invocation is also delivered to, and takes off the list, every worker
  that waits for a message whose key equals the invocation id: the search does not look at what
  the entry waits for.
\<close>

lemma invocation_result_steals_get:
  "w \<in> set (fst (find_invocation k (insert_get k src w ps))) \<and>
   fst (find_get k src (snd (find_invocation k (insert_get k src w ps)))) = None"
proof
  show "w \<in> set (fst (find_invocation k (insert_get k src w ps)))"
    using pend.serve_invocation_all [of k "insert_get k src w ps"] by (force simp: pend.entries_add_get)
  show "fst (find_get k src (snd (find_invocation k (insert_get k src w ps)))) = None"
    unfolding pend.serve_get_none pend.serve_invocation_entries by (auto simp: get_matches_def)
qed

end
