(* ===== verification/Process_Config.thy ===== *)
theory Process_Config
  imports Ipc_Channel
begin

text \<open>
  The configuration of a process and its functions:
  \<^verbatim>\<open>src/process/controller/src/config.cpp\<close> with \<^verbatim>\<open>config.hpp\<close> (file, defaults and environment), and
  \<^verbatim>\<open>src/process/runtime/src/internal/functions.cpp\<close> with \<^verbatim>\<open>functions.hpp\<close> (languages, triggers and
  the table of functions that is read from a JSON document). A JSON document is the value that
  the parser returns: objects are lists of members, as the parser keeps their order.
\<close>

section \<open>Languages and triggers\<close>

datatype Language = CPP | PYTHON | NO_LANGUAGE

fun language_to_string :: "Language \<Rightarrow> string" where
  "language_to_string CPP = ''cpp''"
| "language_to_string PYTHON = ''python''"
| "language_to_string NO_LANGUAGE = ''''"

definition string_to_language :: "string \<Rightarrow> Language" where
  "string_to_language s = (if s = ''cpp'' then CPP else if s = ''python'' then PYTHON else NO_LANGUAGE)"

datatype trigger = DirectTrigger (trigger_name: string)

datatype trigger_type = DIRECT | MULTI_SOURCE | BATCH | PIPELINE | DEPENDENCY

fun trigger_type_of :: "trigger \<Rightarrow> trigger_type" where
  "trigger_type_of (DirectTrigger _) = DIRECT"

section \<open>JSON documents\<close>

datatype json = JString string | JInt int32 | JBool bool | JNull | JArray "json list" | JObject "(string \<times> json) list" | JOther

fun is_object :: "json \<Rightarrow> bool" where
  "is_object (JObject _) = True"
| "is_object _ = False"

text \<open>\<^verbatim>\<open>FindMember\<close>: the first member of that name, or the end iterator. It is defined for objects.\<close>

fun find_member :: "string \<Rightarrow> json \<Rightarrow> json option result" where
  "find_member n (JObject ms) = Inr (map_of ms n)"
| "find_member n _ = Inl UndefinedBehaviour"

text \<open>\<^verbatim>\<open>operator[]\<close> of a member that must exist, and \<^verbatim>\<open>GetString\<close> of a value that must be a string.\<close>

definition json_member :: "string \<Rightarrow> json \<Rightarrow> json result" where
  "json_member n j = and_then (find_member n j)
     (\<lambda>r. case r of None \<Rightarrow> Inl UndefinedBehaviour | Some v \<Rightarrow> Inr v)"

fun get_string :: "json \<Rightarrow> string result" where
  "get_string (JString s) = Inr s"
| "get_string _ = Inl UndefinedBehaviour"

section \<open>Functions\<close>

record function_cfg =
  fn_trigger :: trigger
  fn_module :: string
  fn_name :: string

type_synonym function_table = "string \<rightharpoonup> function_cfg"

definition parse_trigger :: "string \<Rightarrow> json \<Rightarrow> trigger result" where
  "parse_trigger fname obj =
     and_then (find_member ''trigger'' obj) (\<lambda>it.
       case it of
         None \<Rightarrow> Inl InvalidJSON
       | Some t \<Rightarrow>
           if \<not> is_object t then Inl InvalidJSON
           else and_then (and_then (json_member ''type'' t) get_string) (\<lambda>ty.
                  if ty = ''direct'' then Inr (DirectTrigger fname) else Inl InvalidJSON))"

definition parse_function :: "string \<Rightarrow> json \<Rightarrow> function_cfg result" where
  "parse_function fname obj =
     and_then (parse_trigger fname obj) (\<lambda>t.
     and_then (find_member ''code'' obj) (\<lambda>it.
       case it of
         None \<Rightarrow> Inl InvalidJSON
       | Some c \<Rightarrow>
           if \<not> is_object c then Inl InvalidJSON
           else and_then (and_then (json_member ''module'' c) get_string) (\<lambda>m.
                and_then (and_then (json_member ''function'' c) get_string) (\<lambda>f.
                Inr \<lparr>fn_trigger = t, fn_module = m, fn_name = f\<rparr>))))"

text \<open>The loop over the members; \<^verbatim>\<open>emplace\<close> keeps the first function of a name.\<close>

fun load_functions :: "(string \<times> json) list \<Rightarrow> function_table \<Rightarrow> function_table result" where
  "load_functions [] fs = Inr fs"
| "load_functions ((fname, obj) # ms) fs =
     and_then (parse_function fname obj) (\<lambda>f.
       load_functions ms (if fs fname = None then fs(fname \<mapsto> f) else fs))"

text \<open>
  The member of the language is searched in the object of the functions but compared with the end
  iterator of the document, so a missing language is dereferenced.
\<close>

definition Functions_initialize :: "json \<Rightarrow> Language \<Rightarrow> function_table result" where
  "Functions_initialize doc lang =
     and_then (json_member ''functions'' doc) (\<lambda>fs.
     and_then (find_member (language_to_string lang) fs) (\<lambda>it.
       case it of
         None \<Rightarrow> Inl UndefinedBehaviour
       | Some (JObject ms) \<Rightarrow> load_functions ms Map.empty
       | Some _ \<Rightarrow> Inl InvalidJSON))"

definition get_trigger :: "function_table \<Rightarrow> string \<Rightarrow> trigger option" where
  "get_trigger fs name = map_option fn_trigger (fs name)"

definition get_function :: "function_table \<Rightarrow> string \<Rightarrow> function_cfg option" where
  "get_function fs name = fs name"

section \<open>Archives\<close>

text \<open>
  The reader of JSON archives is a library: an archive is positioned on a value, a named member is
  looked up there, and the exceptions it throws when a member is missing or has another type carry
  a text that is an argument of the model.
\<close>

record cereal =
  what_missing :: "string \<Rightarrow> string"
  what_type :: string

fun as_int :: "json \<Rightarrow> int32 option" where
  "as_int (JInt i) = Some i"
| "as_int _ = None"

fun as_bool :: "json \<Rightarrow> bool option" where
  "as_bool (JBool b) = Some b"
| "as_bool _ = None"

fun as_text :: "json \<Rightarrow> string option" where
  "as_text (JString s) = Some s"
| "as_text _ = None"

definition as_node :: "json \<Rightarrow> json option" where
  "as_node j = (if is_object j then Some j else None)"

fun nvp :: "cereal \<Rightarrow> (json \<Rightarrow> 'a option) \<Rightarrow> string \<Rightarrow> json \<Rightarrow> 'a result" where
  "nvp ce conv name (JObject ms) =
     (case map_of ms name of
        None \<Rightarrow> Inl (CerealException (what_missing ce name))
      | Some v \<Rightarrow> (case conv v of None \<Rightarrow> Inl (CerealException (what_type ce)) | Some x \<Rightarrow> Inr x))"
| "nvp ce conv name _ = Inl (CerealException (what_type ce))"

section \<open>Process configuration\<close>

record code_config =
  code_location :: string
  code_config_location :: string
  code_language :: Language
  language_runtime_path :: string

record controller_config =
  cfg_port :: int
  cfg_verbose :: bool
  cfg_function_workers :: int
  cfg_ipc_mode :: IPCMode
  cfg_ipc_message_size :: int
  cfg_ipc_name_prefix :: string
  cfg_deployment_location :: string
  cfg_process_id :: string
  cfg_control_plane_addr :: "string option"
  cfg_code :: code_config

definition code_load :: "cereal \<Rightarrow> code_config \<Rightarrow> json \<Rightarrow> code_config result" where
  "code_load ce c archive =
     and_then (nvp ce as_text ''location'' archive) (\<lambda>loc.
     and_then (nvp ce as_text ''configuration-location'' archive) (\<lambda>cfgloc.
     and_then (nvp ce as_text ''language'' archive) (\<lambda>lang.
     Inr (c\<lparr>code_location := loc, code_config_location := cfgloc, code_language := string_to_language lang\<rparr>))))"

definition controller_load :: "cereal \<Rightarrow> controller_config \<Rightarrow> json \<Rightarrow> controller_config result" where
  "controller_load ce cfg archive =
     and_then (nvp ce as_int ''port'' archive) (\<lambda>pt.
     and_then (nvp ce as_bool ''verbose'' archive) (\<lambda>verbose.
     and_then (nvp ce as_int ''function_workers'' archive) (\<lambda>workers.
     and_then (nvp ce as_text ''process_id'' archive) (\<lambda>_.
     and_then (nvp ce as_text ''ipc-mode'' archive) (\<lambda>mode.
     and_then (nvp ce as_int ''ipc-message-size'' archive) (\<lambda>size.
     and_then (nvp ce as_node ''code'' archive) (\<lambda>sub.
     and_then (code_load ce (cfg_code cfg) sub) (\<lambda>code.
     and_then (nvp ce as_text ''process_id'' archive) (\<lambda>pid.
     Inr (cfg\<lparr>cfg_port := sint pt, cfg_verbose := verbose, cfg_function_workers := sint workers,
             cfg_ipc_mode := deserialize_mode mode, cfg_ipc_message_size := sint size, cfg_code := code,
             cfg_process_id := pid\<rparr>))))))))))"

type_synonym environment = "string \<rightharpoonup> string"

definition code_set_defaults :: "code_config \<Rightarrow> code_config" where
  "code_set_defaults c =
     c\<lparr>code_location := ''/code'', code_config_location := ''config.json'', code_language := CPP,
       language_runtime_path := ''''\<rparr>"

definition env_or :: "environment \<Rightarrow> string \<Rightarrow> string \<Rightarrow> string" where
  "env_or env name dflt = (case env name of Some v \<Rightarrow> v | None \<Rightarrow> dflt)"

definition code_load_env :: "environment \<Rightarrow> code_config \<Rightarrow> code_config" where
  "code_load_env env c =
     c\<lparr>code_location := env_or env ''CODE_LOCATION'' (code_location c),
       code_config_location := env_or env ''CONFIG_LOCATION'' (code_config_location c)\<rparr>"

definition controller_set_defaults :: "controller_config \<Rightarrow> controller_config" where
  "controller_set_defaults cfg =
     cfg\<lparr>cfg_port := 8080, cfg_function_workers := 1, cfg_verbose := False,
         cfg_ipc_mode := POSIX_MQ, cfg_ipc_message_size := 8 * 1024,
         cfg_process_id := ''TEST_PROCESS_ID'', cfg_deployment_location := '''',
         cfg_ipc_name_prefix := '''', cfg_code := code_set_defaults (cfg_code cfg)\<rparr>"

definition controller_load_env :: "environment \<Rightarrow> controller_config \<Rightarrow> controller_config" where
  "controller_load_env env cfg =
     cfg\<lparr>cfg_control_plane_addr :=
           (case env ''CONTROLPLANE_ADDR'' of Some a \<Rightarrow> Some a | None \<Rightarrow> cfg_control_plane_addr cfg),
         cfg_process_id := env_or env ''PROCESS_ID'' (cfg_process_id cfg),
         cfg_code := code_load_env env (cfg_code cfg)\<rparr>"

text \<open>
  The configuration of a process: from the file of its option, if the option is given and not
  empty, or the defaults, and then from the environment. The members that neither writes are empty
  strings; numbers of a fresh object are indeterminate in C++, zero here and always written.
\<close>

definition controller_config_new :: controller_config where
  "controller_config_new = \<lparr>cfg_port = 0, cfg_verbose = False, cfg_function_workers = 0, cfg_ipc_mode = NONE,
     cfg_ipc_message_size = 0, cfg_ipc_name_prefix = [], cfg_deployment_location = [], cfg_process_id = [],
     cfg_control_plane_addr = None,
     cfg_code = \<lparr>code_location = [], code_config_location = [], code_language = NO_LANGUAGE, language_runtime_path = []\<rparr>\<rparr>"

definition controller_deserialize :: "cereal \<Rightarrow> (string \<rightharpoonup> json) \<Rightarrow> string \<Rightarrow> controller_config result" where
  "controller_deserialize ce files config_file =
     (if length config_file > 0 then
        (case files config_file of
           None \<Rightarrow> Inl ProcessExit
         | Some doc \<Rightarrow> controller_load ce controller_config_new doc)
      else Inr (controller_set_defaults controller_config_new))"

definition controller_deserialize_stream :: "cereal \<Rightarrow> json \<Rightarrow> controller_config result" where
  "controller_deserialize_stream ce json_config = controller_load ce controller_config_new json_config"

definition process_configuration ::
    "cereal \<Rightarrow> (string \<rightharpoonup> json) \<Rightarrow> string option \<Rightarrow> environment \<Rightarrow> controller_config result" where
  "process_configuration ce files config env =
     and_then
       (case config of
          Some config_file \<Rightarrow> controller_deserialize ce files config_file
        | None \<Rightarrow> Inr (controller_set_defaults controller_config_new)) (\<lambda>cfg.
     Inr (controller_load_env env cfg))"

section \<open>Lemmas\<close>

lemma language_roundtrip [simp]: "string_to_language (language_to_string l) = l"
  by (cases l) (simp_all add: string_to_language_def)

text \<open>
  Without a file a process has one C++ worker on message queues with room for a header, and its
  name and control plane are those of the environment. They are, whatever a file says, if the environment
  has them.
\<close>

lemma default_configuration:
  assumes "config = None \<or> config = Some []"
  shows "\<exists>cfg. process_configuration ce files config env = Inr cfg \<and> cfg_ipc_mode cfg = POSIX_MQ \<and>
    code_language (cfg_code cfg) = CPP \<and> cfg_function_workers cfg = 1 \<and> int IPC_BUF_SIZE \<le> cfg_ipc_message_size cfg"
  using assms by (auto simp: process_configuration_def controller_deserialize_def controller_set_defaults_def controller_load_env_def
      code_set_defaults_def code_load_env_def)

lemma environment_overrides:
  assumes "process_configuration ce files config env = Inr cfg"
  shows "env ''CONTROLPLANE_ADDR'' = Some a \<Longrightarrow> cfg_control_plane_addr cfg = Some a"
    and "env ''PROCESS_ID'' = Some n \<Longrightarrow> cfg_process_id cfg = n"
  using assms by (auto simp: process_configuration_def controller_load_env_def env_or_def and_then_eq_Inr)

text \<open>
  The numbers of a file are taken as they are: a queue for messages that have no room for a header,
  or a negative number of workers, is accepted.
\<close>

lemma numbers_unchecked:
  assumes "f \<noteq> []" and "files f = Some (JObject ms)" and "process_configuration ce files (Some f) env = Inr cfg"
  shows "map_of ms ''function_workers'' = Some (JInt w) \<Longrightarrow> cfg_function_workers cfg = sint w"
    and "map_of ms ''ipc-message-size'' = Some (JInt w) \<Longrightarrow> cfg_ipc_message_size cfg = sint w"
  using assms by (auto simp: process_configuration_def controller_deserialize_def controller_load_def controller_load_env_def
      and_then_eq_Inr split: option.splits)

lemma load_functions_domain:
  "load_functions ms fs = Inr fs' \<Longrightarrow> dom fs' = dom fs \<union> fst ` set ms"
proof (induction ms fs rule: load_functions.induct)
  case (2 fname obj ms fs)
  then obtain g where g: "load_functions ms (if fs fname = None then fs(fname \<mapsto> g) else fs) = Inr fs'"
    by (auto simp: and_then_eq_Inr)
  have "dom (if fs fname = None then fs(fname \<mapsto> g) else fs) = insert fname (dom fs)" by auto
  with 2(1) [OF g] show ?case by simp
qed simp

lemma parse_function_trigger: "parse_function n j = Inr f \<Longrightarrow> fn_trigger f = DirectTrigger n"
  by (auto simp: parse_function_def parse_trigger_def and_then_eq_Inr split: option.splits if_splits)

lemma load_functions_trigger:
  "load_functions ms fs = Inr fs' \<Longrightarrow> (\<And>n f. fs n = Some f \<Longrightarrow> fn_trigger f = DirectTrigger n) \<Longrightarrow>
     fs' n = Some f \<Longrightarrow> fn_trigger f = DirectTrigger n"
proof (induction ms fs rule: load_functions.induct)
  case (2 fname obj ms fs)
  from 2(2) obtain g where g: "parse_function fname obj = Inr g"
    "load_functions ms (if fs fname = None then fs(fname \<mapsto> g) else fs) = Inr fs'"
    by (auto simp: and_then_eq_Inr)
  show ?case
    by (rule 2(1) [OF _ _ 2(4)]) (use g 2(3) parse_function_trigger [OF g(1)] in \<open>auto split: if_splits\<close>)
qed simp

section \<open>Properties\<close>

text \<open>
  A configuration that loads defines a function for exactly the names it lists under the
  language of the process, and each of them has a direct trigger of that name: the work queue
  finds a trigger for a function if and only if the configuration lists it.
\<close>

lemma functions_loaded:
  assumes "Functions_initialize doc lang = Inr fs"
    and "doc = JObject ds" and "map_of ds ''functions'' = Some (JObject ls)"
    and "map_of ls (language_to_string lang) = Some (JObject ms)"
  shows "get_trigger fs n = (if n \<in> fst ` set ms then Some (DirectTrigger n) else None)"
proof -
  have load: "load_functions ms Map.empty = Inr fs"
    using assms by (simp add: Functions_initialize_def json_member_def)
  from load_functions_domain [OF load] have dom: "dom fs = fst ` set ms" by simp
  show ?thesis
  proof (cases "fs n")
    case None
    with dom show ?thesis by (metis domIff get_trigger_def option.map_disc_iff)
  next
    case (Some f)
    with load_functions_trigger [OF load, of n f] dom show ?thesis by (auto simp: get_trigger_def)
  qed
qed

definition example_functions :: json where
  "example_functions = JObject [(''functions'', JObject [(''cpp'', JObject
     [(''add'', JObject [(''trigger'', JObject [(''type'', JString ''direct'')]),
                        (''code'', JObject [(''module'', JString ''lib''), (''function'', JString ''add'')])])])])]"

lemma functions_loaded_witness:
  "\<exists>fs. Functions_initialize example_functions CPP = Inr fs \<and>
        get_trigger fs ''add'' = Some (DirectTrigger ''add'') \<and> get_trigger fs ''mul'' = None"
proof -
  let ?fs = "[''add'' \<mapsto> \<lparr>fn_trigger = DirectTrigger ''add'', fn_module = ''lib'', fn_name = ''add''\<rparr>]"
  have "Functions_initialize example_functions CPP = Inr ?fs"
    by (simp add: example_functions_def Functions_initialize_def json_member_def parse_function_def
        parse_trigger_def)
  from functions_loaded [OF this, unfolded example_functions_def] this show ?thesis by simp
qed

text \<open>
  A document without an entry for the language of the process is not refused as invalid: the
  guard compares with the end of another object and the code reads through the end iterator.
\<close>

lemma missing_language_undefined:
  assumes "map_of ds ''functions'' = Some (JObject ls)" and "map_of ls (language_to_string lang) = None"
  shows "Functions_initialize (JObject ds) lang = Inl UndefinedBehaviour"
  using assms by (simp add: Functions_initialize_def json_member_def)

lemma missing_language_undefined_witness:
  "Functions_initialize (JObject [(''functions'', JObject [])]) PYTHON = Inl UndefinedBehaviour"
  by (rule missing_language_undefined [of _ "[]"]) simp_all

end
