(* ===== verification/Work_Queue.thy ===== *)
theory Work_Queue
  imports Process_Config Message_Store
begin

text \<open>
  Invocations, the work queue and the pool of function workers:
  \<^verbatim>\<open>src/process/controller/src/workers.cpp\<close> and \<^verbatim>\<open>workers.hpp\<close>. An invocation is pending until
  the scheduler hands it to an idle worker, active until the worker returns its result. The queue
  keeps all invocations by key and the pending ones in order; the pointers of the pending vector
  are the keys of the table here, as its elements do not move. A worker's write channel is the
  list of messages that were given to it, header and payload; the channel itself is the subject
  of the theory of channels.
\<close>

section \<open>Invocations\<close>

datatype RemoteType = DATA_PLANE | CONTROL_PLANE | PROCESS | LOCAL_FUNCTION

record invocation_source =
  src_type :: RemoteType
  src_process :: "string option"

definition from_process :: "string \<Rightarrow> invocation_source" where
  "from_process p = \<lparr>src_type = PROCESS, src_process = Some p\<rparr>"

definition from_local :: invocation_source where
  "from_local = \<lparr>src_type = LOCAL_FUNCTION, src_process = None\<rparr>"

definition from_source :: "RemoteType \<Rightarrow> invocation_source" where
  "from_source t = \<lparr>src_type = t, src_process = None\<rparr>"

definition is_remote :: "invocation_source \<Rightarrow> bool" where
  "is_remote s \<longleftrightarrow> src_type s = DATA_PLANE \<or> src_type s = PROCESS \<or> src_type s = CONTROL_PLANE"

definition is_local :: "invocation_source \<Rightarrow> bool" where
  "is_local s \<longleftrightarrow> \<not> is_remote s"

record invocation =
  inv_start :: nat
  inv_end :: nat
  inv_req :: ipc_invocation_request
  inv_payload :: "buffer list"
  inv_trigger :: trigger
  inv_active :: bool
  inv_source :: invocation_source

definition Invocation :: "string \<Rightarrow> string \<Rightarrow> trigger \<Rightarrow> invocation_source \<Rightarrow> invocation result" where
  "Invocation fname key t src =
     and_then (set_irq_function_name fname ipc_InvocationRequest) (\<lambda>r.
     and_then (set_irq_invocation_id key r) (\<lambda>r.
     Inr \<lparr>inv_start = 0, inv_end = 0, inv_req = r, inv_payload = [], inv_trigger = t,
          inv_active = False, inv_source = src\<rparr>))"

definition confirm_payload :: "invocation \<Rightarrow> invocation result" where
  "confirm_payload i =
     and_then (set_irq_buffers_iter (map buf_len (inv_payload i)) (inv_req i)) (\<lambda>r.
     Inr (i\<lparr>inv_req := r\<rparr>))"

definition inv_duration :: "invocation \<Rightarrow> int" where
  "inv_duration i = int (inv_end i) - int (inv_start i)"

section \<open>The work queue\<close>

record work_queue =
  wq_pending :: "string list"
  wq_active :: "string \<rightharpoonup> invocation"
  wq_functions :: function_table

definition WorkQueue :: "function_table \<Rightarrow> work_queue" where
  "WorkQueue fs = \<lparr>wq_pending = [], wq_active = Map.empty, wq_functions = fs\<rparr>"

text \<open>The first component of the result is the error message, if any; \<open>now\<close> is the clock.\<close>

definition add_payload ::
    "nat \<Rightarrow> string \<Rightarrow> string \<Rightarrow> buffer \<Rightarrow> invocation_source \<Rightarrow> work_queue \<Rightarrow> (string option \<times> work_queue) result" where
  "add_payload now fname key buf src q =
     (case wq_active q key of
        Some i \<Rightarrow>
          if \<not> inv_active i
          then Inr (None, q\<lparr>wq_active := (wq_active q)(key \<mapsto> i\<lparr>inv_payload := inv_payload i @ [buf]\<rparr>)\<rparr>)
          else
            (case get_trigger (wq_functions q) fname of
               None \<Rightarrow> Inr (Some (''Ignoring invocation of an unknown function '' @ fname), q)
             | Some t \<Rightarrow>
                 and_then (Invocation fname key t src) (\<lambda>_.
                 Inr (Some (''Failed to insert a new invocation '' @ key @ '' for function '' @ fname), q)))
      | None \<Rightarrow>
          (case get_trigger (wq_functions q) fname of
             None \<Rightarrow> Inr (Some (''Ignoring invocation of an unknown function '' @ fname), q)
           | Some t \<Rightarrow>
               and_then (Invocation fname key t src) (\<lambda>i.
               Inr (None, q\<lparr>wq_active := (wq_active q)(key \<mapsto> i\<lparr>inv_payload := [buf], inv_start := now\<rparr>),
                            wq_pending := wq_pending q @ [key]\<rparr>))))"

text \<open>\<^verbatim>\<open>TriggerChecker\<close>: a direct trigger has a single argument and no dependencies.\<close>

fun trigger_ready :: "trigger \<Rightarrow> bool" where
  "trigger_ready (DirectTrigger _) = True"

text \<open>A pending key without an invocation would be a dangling pointer.\<close>

fun next_ready :: "(string \<rightharpoonup> invocation) \<Rightarrow> string list \<Rightarrow> (string option \<times> string list) result" where
  "next_ready act [] = Inr (None, [])"
| "next_ready act (k # ks) =
     (case act k of
        None \<Rightarrow> Inl UndefinedBehaviour
      | Some i \<Rightarrow>
          if trigger_ready (inv_trigger i) then Inr (Some k, ks)
          else and_then (next_ready act ks) (\<lambda>(r, ks'). Inr (r, k # ks')))"

definition wq_next :: "work_queue \<Rightarrow> (string option \<times> work_queue) result" where
  "wq_next q =
     and_then (next_ready (wq_active q) (wq_pending q)) (\<lambda>(r, ks). Inr (r, q\<lparr>wq_pending := ks\<rparr>))"

definition wq_finish :: "nat \<Rightarrow> string \<Rightarrow> work_queue \<Rightarrow> invocation option \<times> work_queue" where
  "wq_finish now key q =
     (case wq_active q key of
        None \<Rightarrow> (None, q)
      | Some i \<Rightarrow>
          if \<not> inv_active i then (None, q)
          else (Some (i\<lparr>inv_end := now\<rparr>), q\<lparr>wq_active := (wq_active q)(key := None)\<rparr>))"

definition wq_empty :: "work_queue \<Rightarrow> bool" where
  "wq_empty q \<longleftrightarrow> wq_pending q = []"

section \<open>Function workers\<close>

record function_worker =
  fw_busy :: bool
  fw_sent :: "(bytes \<times> bytes) list"

definition FunctionWorker :: function_worker where
  "FunctionWorker = \<lparr>fw_busy = False, fw_sent = []\<rparr>"

text \<open>\<^verbatim>\<open>worker.ipc_write().send(...)\<close>: the header with the length of the payload, and the payload.\<close>

definition worker_send :: "bytes \<Rightarrow> bytes \<Rightarrow> function_worker \<Rightarrow> function_worker" where
  "worker_send header payload w =
     w\<lparr>fw_sent := fw_sent w @ [(set_ipc_total_length (i32_of_size (length payload)) header, payload)]\<rparr>"

record worker_pool =
  wp_workers :: "function_worker list"
  wp_idle :: int

subsection \<open>Launching\<close>

text \<open>\<^verbatim>\<open>operator/\<close> of \<^verbatim>\<open>std::filesystem::path\<close>.\<close>

definition path_join :: "string \<Rightarrow> string \<Rightarrow> string" where
  "path_join a b =
     (if b \<noteq> [] \<and> hd b = CHR ''/'' then b
      else if a = [] \<or> last a = CHR ''/'' then a @ b else a @ ''/'' @ b)"

definition launch_cpp :: "string \<Rightarrow> controller_config \<Rightarrow> string \<Rightarrow> string list" where
  "launch_cpp self_dir cfg ipc_name =
     [if cfg_deployment_location cfg = ''''
      then path_join (path_join self_dir ''invoker'') ''cpp_invoker_exe''
      else path_join (path_join (path_join (cfg_deployment_location cfg) ''bin'') ''invoker'') ''cpp_invoker_exe'',
      ''--process-id'', cfg_process_id cfg, ''--ipc-mode'', ''posix_mq'', ''--ipc-name'', ipc_name,
      ''--code-location'', code_location (cfg_code cfg),
      ''--code-config-location'', code_config_location (cfg_code cfg)]"

definition launch_python :: "string \<Rightarrow> controller_config \<Rightarrow> string \<Rightarrow> string list" where
  "launch_python self_dir cfg ipc_name =
     [if language_runtime_path (cfg_code cfg) \<noteq> '''' then language_runtime_path (cfg_code cfg) else ''python'',
      if cfg_deployment_location cfg = ''''
      then path_join (path_join self_dir ''invoker'') ''python.py''
      else path_join (path_join (path_join (cfg_deployment_location cfg) ''bin'') ''invoker'') ''python.py'',
      ''--process-id'', cfg_process_id cfg, ''--ipc-mode'', ''posix_mq'', ''--ipc-name'', ipc_name,
      ''--code-location'', code_location (cfg_code cfg),
      ''--code-config-location'', code_config_location (cfg_code cfg)]"

definition worker_ipc_name :: "controller_config \<Rightarrow> nat \<Rightarrow> nat \<Rightarrow> string" where
  "worker_ipc_name cfg pid counter =
     (if cfg_ipc_name_prefix cfg = ''''
      then ''/praas_queue_'' @ decimal pid @ ''_'' @ decimal counter
      else ''/'' @ cfg_ipc_name_prefix cfg @ ''_praas_queue_'' @ decimal pid @ ''_'' @ decimal counter)"

text \<open>
  The constructor: the pool, and the command lines of the invokers it starts, with the process
  id of the controller and the directory of its executable as arguments.
\<close>

definition Workers :: "string \<Rightarrow> nat \<Rightarrow> controller_config \<Rightarrow> (worker_pool \<times> string list list) result" where
  "Workers self_dir pid cfg =
     (case code_language (cfg_code cfg) of
        NO_LANGUAGE \<Rightarrow> Inl ProcessExit
      | CPP \<Rightarrow>
          Inr (\<lparr>wp_workers = replicate (nat (cfg_function_workers cfg)) FunctionWorker,
                wp_idle = cfg_function_workers cfg\<rparr>,
               map (\<lambda>i. launch_cpp self_dir cfg (worker_ipc_name cfg pid i)) [0..<nat (cfg_function_workers cfg)])
      | PYTHON \<Rightarrow>
          Inr (\<lparr>wp_workers = replicate (nat (cfg_function_workers cfg)) FunctionWorker,
                wp_idle = cfg_function_workers cfg\<rparr>,
               map (\<lambda>i. launch_python self_dir cfg (worker_ipc_name cfg pid i)) [0..<nat (cfg_function_workers cfg)]))"

subsection \<open>Scheduling\<close>

fun first_idle :: "function_worker list \<Rightarrow> worker_id option" where
  "first_idle [] = None"
| "first_idle (w # ws) = (if \<not> fw_busy w then Some 0 else map_option Suc (first_idle ws))"

definition get_idle_worker :: "worker_pool \<Rightarrow> worker_id option" where
  "get_idle_worker p = (if wp_idle p = 0 then None else first_idle (wp_workers p))"

definition has_idle_workers :: "worker_pool \<Rightarrow> bool" where
  "has_idle_workers p \<longleftrightarrow> wp_idle p > 0"

text \<open>The invocation is passed by reference: its new value is the first component.\<close>

definition workers_submit :: "invocation \<Rightarrow> worker_pool \<Rightarrow> (invocation \<times> worker_pool) result" where
  "workers_submit i p =
     (if \<not> has_idle_workers p then Inl PraaSException
      else
        and_then (confirm_payload i) (\<lambda>i'.
        case get_idle_worker p of
          None \<Rightarrow> Inl UndefinedBehaviour
        | Some w \<Rightarrow>
            let fw = worker_send (irq_data (inv_req i')) (concat (map buffer_data (inv_payload i'))) (wp_workers p ! w)
            in Inr (i'\<lparr>inv_active := True,
                       inv_req := (inv_req i')\<lparr>irq_data := fst (last (fw_sent fw))\<rparr>\<rparr>,
                    p\<lparr>wp_workers := (wp_workers p)[w := fw\<lparr>fw_busy := True\<rparr>], wp_idle := wp_idle p - 1\<rparr>)))"

definition workers_finish :: "worker_id \<Rightarrow> worker_pool \<Rightarrow> worker_pool" where
  "workers_finish w p =
     p\<lparr>wp_workers := (wp_workers p)[w := (wp_workers p ! w)\<lparr>fw_busy := False\<rparr>], wp_idle := wp_idle p + 1\<rparr>"

section \<open>The pool of workers\<close>

definition idle_count :: "function_worker list \<Rightarrow> nat" where
  "idle_count ws = length (filter (\<lambda>w. \<not> fw_busy w) ws)"

definition pool_inv :: "worker_pool \<Rightarrow> bool" where
  "pool_inv p \<longleftrightarrow> wp_idle p = int (idle_count (wp_workers p))"

lemma idle_count_simps [simp]:
  "idle_count [] = 0"
  "idle_count (w # ws) = (if fw_busy w then 0 else 1) + idle_count ws"
  by (simp_all add: idle_count_def)

lemma first_idle_some:
  "first_idle ws = Some i \<Longrightarrow> i < length ws \<and> \<not> fw_busy (ws ! i) \<and> (\<forall>j < i. fw_busy (ws ! j))"
  by (induction ws arbitrary: i) (auto split: if_splits simp: less_Suc_eq_0_disj)

lemma first_idle_none: "first_idle ws = None \<longleftrightarrow> idle_count ws = 0"
  by (induction ws) auto

lemma idle_count_update:
  "i < length ws \<Longrightarrow>
     int (idle_count (ws[i := w])) =
     int (idle_count ws) + (if fw_busy (ws ! i) then 1 else 0) - (if fw_busy w then 1 else 0)"
proof (induction ws arbitrary: i)
  case (Cons a ws)
  show ?case
  proof (cases i)
    case (Suc j)
    with Cons.IH [of j] Cons.prems show ?thesis by simp
  qed simp
qed simp

lemma get_idle_worker_some:
  "pool_inv p \<Longrightarrow> has_idle_workers p \<Longrightarrow> \<exists>w. get_idle_worker p = Some w \<and>
     w < length (wp_workers p) \<and> \<not> fw_busy (wp_workers p ! w)"
  using first_idle_none [of "wp_workers p"] first_idle_some [of "wp_workers p"]
  by (cases "first_idle (wp_workers p)") (auto simp: pool_inv_def has_idle_workers_def get_idle_worker_def)

lemma pool_inv_finish:
  "pool_inv p \<Longrightarrow> w < length (wp_workers p) \<Longrightarrow> fw_busy (wp_workers p ! w) \<Longrightarrow> pool_inv (workers_finish w p)"
  by (simp add: pool_inv_def workers_finish_def idle_count_update)

lemma pool_inv_start: "Workers d pid cfg = Inr (p, cmds) \<Longrightarrow> 0 \<le> cfg_function_workers cfg \<Longrightarrow> pool_inv p"
  by (auto simp: Workers_def pool_inv_def idle_count_def FunctionWorker_def split: Language.splits)

text \<open>
  The number of workers is not checked: with none or a negative number the process starts, and
  has no worker for any invocation.
\<close>

lemma no_workers:
  assumes "Workers d pid cfg = Inr (p, cmds)" and "cfg_function_workers cfg \<le> 0"
  shows "wp_workers p = []" "cmds = []" "\<not> has_idle_workers p"
  using assms by (auto simp: Workers_def has_idle_workers_def split: Language.splits)

section \<open>Submitting an invocation\<close>

text \<open>The header that reaches the worker: the request with the buffers of the payload.\<close>

lemma confirm_payload_ok:
  assumes "length (irq_data (inv_req i)) = IPC_BUF_SIZE" and "length (inv_payload i) \<le> 13"
  shows "\<exists>r. set_irq_buffers_iter (map buf_len (inv_payload i)) (inv_req i) = Inr r \<and>
           confirm_payload i = Inr (i\<lparr>inv_req := r\<rparr>) \<and> length (irq_data r) = IPC_BUF_SIZE"
  using irq_buffers_read_back [of "inv_req i" "map (\<lambda>b. i32_of_size (buf_len b)) (inv_payload i)"] assms
  by (auto simp: confirm_payload_def set_irq_buffers_iter_def comp_def)

text \<open>The message that a worker is sent for an invocation.\<close>

definition submitted :: "invocation \<Rightarrow> bytes \<Rightarrow> bool" where
  "submitted i h \<longleftrightarrow> (\<exists>r. set_irq_buffers_iter (map buf_len (inv_payload i)) (inv_req i) = Inr r \<and>
     h = set_ipc_total_length (i32_of_size (length (concat (map buffer_data (inv_payload i))))) (irq_data r))"

lemma workers_submit_ok:
  assumes "pool_inv p" and "has_idle_workers p"
    and "length (irq_data (inv_req i)) = IPC_BUF_SIZE" and "length (inv_payload i) \<le> 13"
  shows "\<exists>i' p' w h. workers_submit i p = Inr (i', p') \<and> inv_active i' \<and> inv_source i' = inv_source i \<and>
           length (irq_data (inv_req i')) = IPC_BUF_SIZE \<and> pool_inv p' \<and>
           wp_idle p' = wp_idle p - 1 \<and> length (wp_workers p') = length (wp_workers p) \<and>
           w < length (wp_workers p) \<and> \<not> fw_busy (wp_workers p ! w) \<and> fw_busy (wp_workers p' ! w) \<and>
           submitted i h \<and>
           fw_sent (wp_workers p' ! w) = fw_sent (wp_workers p ! w) @
             [(h, concat (map buffer_data (inv_payload i)))] \<and>
           (\<forall>v. v \<noteq> w \<longrightarrow> wp_workers p' ! v = wp_workers p ! v)"
proof -
  obtain w where w: "get_idle_worker p = Some w" "w < length (wp_workers p)" "\<not> fw_busy (wp_workers p ! w)"
    using get_idle_worker_some assms(1,2) by blast
  obtain r where r: "set_irq_buffers_iter (map buf_len (inv_payload i)) (inv_req i) = Inr r"
      "confirm_payload i = Inr (i\<lparr>inv_req := r\<rparr>)" "length (irq_data r) = 128"
    using confirm_payload_ok [OF assms(3,4)] by auto
  show ?thesis
    using assms(1,2) w r
    by (simp add: workers_submit_def Let_def worker_send_def set_ipc_total_length_def pool_inv_def
        idle_count_update submitted_def) (intro exI [of _ w], simp)
qed

section \<open>The life of an invocation\<close>

datatype inv_status = Absent | Waiting | Running

definition status_of :: "work_queue \<Rightarrow> string \<Rightarrow> inv_status" where
  "status_of q k = (case wq_active q k of None \<Rightarrow> Absent
     | Some i \<Rightarrow> if inv_active i then Running else Waiting)"

text \<open>
  The invariant of the queue: the pending keys are exactly the waiting invocations, each once;
  requests are whole headers.
\<close>

definition wq_inv :: "work_queue \<Rightarrow> bool" where
  "wq_inv q \<longleftrightarrow> distinct (wq_pending q) \<and> (\<forall>k. k \<in> set (wq_pending q) \<longleftrightarrow> status_of q k = Waiting) \<and>
     (\<forall>k i. wq_active q k = Some i \<longrightarrow> length (irq_data (inv_req i)) = IPC_BUF_SIZE)"

lemma trigger_always_ready [simp]: "trigger_ready t"
  by (cases t) simp

lemma Invocation_ok:
  "Invocation fname key t src = Inr i \<Longrightarrow>
     length (irq_data (inv_req i)) = IPC_BUF_SIZE \<and> \<not> inv_active i \<and> inv_source i = src \<and> inv_payload i = []"
  by (auto simp: Invocation_def and_then_eq_Inr ipc_ctors ipc_setters split: if_splits)

lemma Invocation_error: "Invocation fname key t src = Inl e \<Longrightarrow> e = InvalidArgument"
  by (auto simp: Invocation_def set_irq_function_name_def set_irq_invocation_id_def split: if_splits)

lemma status_of_update [simp]:
  "status_of (q\<lparr>wq_pending := ps\<rparr>) = status_of q"
  "status_of (q\<lparr>wq_active := (wq_active q)(k := v)\<rparr>) = (status_of q)(k :=
     (case v of None \<Rightarrow> Absent | Some i \<Rightarrow> if inv_active i then Running else Waiting))"
  "status_of (q\<lparr>wq_active := (wq_active q)(k := v), wq_pending := ps\<rparr>) = (status_of q)(k :=
     (case v of None \<Rightarrow> Absent | Some i \<Rightarrow> if inv_active i then Running else Waiting))"
  by (auto simp: status_of_def fun_eq_iff)

lemma status_of_cases:
  "status_of q k = Absent \<longleftrightarrow> wq_active q k = None"
  "status_of q k = Waiting \<longleftrightarrow> (\<exists>i. wq_active q k = Some i \<and> \<not> inv_active i)"
  "status_of q k = Running \<longleftrightarrow> (\<exists>i. wq_active q k = Some i \<and> inv_active i)"
  by (auto simp: status_of_def split: option.splits)

lemma add_payload_cases:
  assumes "add_payload now fname key buf src q = Inr (r, q')"
  obtains (Extend) i where "wq_active q key = Some i" "\<not> inv_active i" "r = None"
      "q' = q\<lparr>wq_active := (wq_active q)(key \<mapsto> i\<lparr>inv_payload := inv_payload i @ [buf]\<rparr>)\<rparr>"
  | (New) t i where "status_of q key = Absent" "get_trigger (wq_functions q) fname = Some t" "r = None"
      "Invocation fname key t src = Inr i"
      "q' = q\<lparr>wq_active := (wq_active q)(key \<mapsto> i\<lparr>inv_payload := [buf], inv_start := now\<rparr>),
              wq_pending := wq_pending q @ [key]\<rparr>"
  | (Refused) msg where "r = Some msg" "q' = q"
      "status_of q key \<noteq> Waiting" "get_trigger (wq_functions q) fname = None \<or> status_of q key = Running"
  using assms unfolding add_payload_def status_of_cases
  by (auto simp: and_then_eq_Inr status_of_def split: option.splits if_splits)

lemma add_payload_inv:
  assumes "wq_inv q" and "add_payload now fname key buf src q = Inr (r, q')"
  shows "wq_inv q'"
  using assms(2)
proof (cases rule: add_payload_cases)
  case (Extend i)
  with assms(1) show ?thesis by (auto simp: wq_inv_def status_of_cases)
next
  case (New t i)
  with assms(1) have "key \<notin> set (wq_pending q)" by (auto simp: wq_inv_def)
  with New assms(1) show ?thesis by (auto simp: wq_inv_def dest: Invocation_ok)
next
  case (Refused msg)
  with assms(1) show ?thesis by simp
qed

lemma wq_finish_inv: "wq_inv q \<Longrightarrow> wq_inv (snd (wq_finish now key q))"
  by (auto simp: wq_finish_def wq_inv_def status_of_cases split: option.splits)

lemma wq_next_head:
  assumes "wq_inv q"
  shows "wq_next q = Inr (case wq_pending q of [] \<Rightarrow> (None, q) | k # ks \<Rightarrow> (Some k, q\<lparr>wq_pending := ks\<rparr>))"
proof (cases "wq_pending q")
  case Nil
  then show ?thesis by (cases q) (simp add: wq_next_def)
next
  case (Cons k ks)
  with assms have "status_of q k = Waiting" by (auto simp: wq_inv_def)
  then obtain i where "wq_active q k = Some i" by (auto simp: status_of_cases)
  with Cons show ?thesis by (simp add: wq_next_def)
qed

lemma add_payload_lifecycle:
  assumes "wq_inv q" and "add_payload now fname key buf src q = Inr (r, q')"
  shows "if r = None
         then status_of q key \<noteq> Running \<and> status_of q' = (status_of q)(key := Waiting) \<and>
              wq_pending q' = wq_pending q @ (if status_of q key = Absent then [key] else [])
         else q' = q"
  using assms(2)
proof (cases rule: add_payload_cases)
  case (Extend i)
  then have "status_of q key = Waiting" by (auto simp: status_of_cases)
  with Extend show ?thesis by (simp add: fun_upd_idem)
next
  case (New t i)
  with Invocation_ok [OF New(4)] show ?thesis by simp
qed simp

lemma add_payload_error: "add_payload now fname key buf src q = Inl e \<Longrightarrow> e = InvalidArgument"
  by (auto simp: add_payload_def and_then_def dest: Invocation_error split: option.splits if_splits sum.splits)

lemma wq_finish_lifecycle:
  "wq_finish now key q = (r, q') \<Longrightarrow>
     (r \<noteq> None \<longleftrightarrow> status_of q key = Running) \<and>
     status_of q' = (if status_of q key = Running then (status_of q)(key := Absent) else status_of q)"
  by (auto simp: wq_finish_def status_of_cases split: option.splits if_splits)

text \<open>What the worker reads from the message of a new invocation.\<close>

lemma submitted_request:
  assumes i: "Invocation f key t src = Inr i0" and s: "submitted i h" and req: "inv_req i = inv_req i0"
    and n: "length (inv_payload i) \<le> 13" and fits: "no_nul f" "no_nul key"
  shows "\<exists>r. parse_message h = Inr (InvocationRequestV r) \<and> irq_function_name r = f \<and>
           irq_invocation_id r = key \<and> irq_buffers r = i32_of_size (length (inv_payload i)) \<and>
           (\<forall>j < length (inv_payload i). irq_buffers_lengths r j = i32_of_size (buf_len (inv_payload i ! j)))"
proof -
  let ?lens = "map (\<lambda>b. i32_of_size (buf_len b)) (inv_payload i)"
  let ?tl = "i32_of_size (length (concat (map buffer_data (inv_payload i))))"
  from i fits have r0: "length (irq_data (inv_req i0)) = 128" "get_i16 (irq_data (inv_req i0)) 0 = 3"
      "takeWhile (\<lambda>c. c \<noteq> NUL) (peek (irq_data (inv_req i0)) 6 16) = key"
      "takeWhile (\<lambda>c. c \<noteq> NUL) (peek (irq_data (inv_req i0)) 22 32) = f"
    by (auto simp: Invocation_def and_then_eq_Inr ipc_simps split: if_splits)
  from s n irq_buffers_read_back [of "inv_req i" ?lens] r0(1) req obtain r where
    r: "h = set_ipc_total_length ?tl (irq_data r)" "length (irq_data r) = 128"
       "get_i16 (irq_data r) 0 = get_i16 (irq_data (inv_req i0)) 0"
       "irq_buffers r = i32_of_size (length ?lens)" "\<forall>j < length ?lens. irq_buffers_lengths r j = ?lens ! j"
    and eq: "\<And>off k. off + k \<le> 70 \<Longrightarrow> peek (irq_data r) off k = peek (irq_data (inv_req i0)) off k"
    by (auto simp: submitted_def set_irq_buffers_iter_def comp_def)
  have h: "get_i16 h 0 = 3" "\<And>off k. 6 \<le> off \<Longrightarrow> off + k \<le> 70 \<Longrightarrow> peek h off k = peek (irq_data (inv_req i0)) off k"
      "\<And>off. 6 \<le> off \<Longrightarrow> get_i32 h off = get_i32 (irq_data r) off"
    using r(1-3) r0(2) eq by (simp_all add: set_ipc_total_length_def mem_simps)
  have "parse_message h = Inr (InvocationRequestV (InvocationRequestParsed h))"
    using h(1) by (simp add: parse_message_def)
  moreover have "irq_function_name (InvocationRequestParsed h) = f" "irq_invocation_id (InvocationRequestParsed h) = key"
    using h(2) [of 6 16] h(2) [of 22 32] r0(3,4) by (simp_all add: irq_parsed_strings)
  moreover have "irq_buffers (InvocationRequestParsed h) = irq_buffers r"
      "irq_buffers_lengths (InvocationRequestParsed h) j = irq_buffers_lengths r j" for j
    using h(3) by (simp_all add: irq_buffers_def irq_buffers_lengths_def InvocationRequestParsed_def)
  ultimately show ?thesis using r(4,5) by (intro exI [of _ "InvocationRequestParsed h"]) simp
qed

section \<open>Properties\<close>


lemma WorkQueue_inv: "wq_inv (WorkQueue fs)"
  by (simp add: wq_inv_def WorkQueue_def status_of_def)


text \<open>
  In a pool whose idle counter is right, submitting to a pool with an idle worker succeeds for
  an invocation of at most thirteen payloads: one worker that was idle becomes busy and is sent
  exactly the request header and the concatenated payloads, the other workers are untouched, and
  the counter stays right; the case the code says should never happen does not.
\<close>

lemma submit_uses_idle_worker:
  assumes "pool_inv p" and "has_idle_workers p"
    and "length (irq_data (inv_req i)) = IPC_BUF_SIZE" and "length (inv_payload i) \<le> 13"
  shows "\<exists>i' p' w h. workers_submit i p = Inr (i', p') \<and> inv_active i' \<and> pool_inv p' \<and>
           wp_idle p' = wp_idle p - 1 \<and> submitted i h \<and>
           w < length (wp_workers p) \<and> \<not> fw_busy (wp_workers p ! w) \<and> fw_busy (wp_workers p' ! w) \<and>
           fw_sent (wp_workers p' ! w) = fw_sent (wp_workers p ! w) @
             [(h, concat (map buffer_data (inv_payload i)))] \<and>
           (\<forall>v. v \<noteq> w \<longrightarrow> wp_workers p' ! v = wp_workers p ! v)"
  using workers_submit_ok [OF assms] by blast

lemma submit_uses_idle_worker_witness:
  "\<exists>i' p' w. workers_submit \<lparr>inv_start = 0, inv_end = 0, inv_req = ipc_InvocationRequest, inv_payload = [],
               inv_trigger = DirectTrigger ''f'', inv_active = False, inv_source = from_local\<rparr>
             \<lparr>wp_workers = [FunctionWorker], wp_idle = 1\<rparr> = Inr (i', p') \<and> inv_active i' \<and> w < (1 :: nat) \<and>
             fw_busy (wp_workers p' ! w)"
proof -
  let ?i = "\<lparr>inv_start = 0, inv_end = 0, inv_req = ipc_InvocationRequest, inv_payload = [],
             inv_trigger = DirectTrigger ''f'', inv_active = False, inv_source = from_local\<rparr>"
  let ?p = "\<lparr>wp_workers = [FunctionWorker], wp_idle = 1\<rparr>"
  have "pool_inv ?p" "has_idle_workers ?p" by (simp_all add: pool_inv_def has_idle_workers_def FunctionWorker_def)
  moreover have "length (irq_data (inv_req ?i)) = IPC_BUF_SIZE" by (simp add: ipc_ctors)
  ultimately show ?thesis using submit_uses_idle_worker [of ?p ?i] by auto
qed

end
