(* ===== verification/Controller.thy ===== *)
theory Controller
  imports Work_Queue Wire_Messages Application_Status
begin

text \<open>
  The process controller: \<^verbatim>\<open>src/process/controller/src/controller.cpp\<close> and \<^verbatim>\<open>controller.hpp\<close>.
  One thread polls a notification and the read channels of the workers, handles what has arrived
  and schedules waiting invocations; the server's threads only append to the two queues that are
  protected by locks, so that an operation of the controller is an atomic step here. The calls the
  controller makes to the server are recorded in order in \<open>ct_server\<close>; the server is modelled on
  its own. The clock and the serialisation of state keys, which is done by a library, are
  arguments.
\<close>

section \<open>State\<close>

record external_message =
  em_source_type :: RemoteType
  em_source :: "string option"
  em_msg :: bytes
  em_payload :: buffer

datatype server_call =
    ServerInvocationResult RemoteType "string option" string int32 bytes
  | ServerPutMessage string string buffer
  | ServerInvocationRequest string string string buffer

record controller =
  ct_workers :: worker_pool
  ct_queue :: work_queue
  ct_external :: "external_message list"
  ct_app :: application
  ct_updates :: "app_update list"
  ct_mailbox :: message_store
  ct_pending :: pending_messages
  ct_server :: "server_call list"
  ct_ending :: bool
  ct_process_id :: string

definition SELF_PROCESS :: string where "SELF_PROCESS = ''SELF''"

definition Controller :: "string \<Rightarrow> nat \<Rightarrow> controller_config \<Rightarrow> json \<Rightarrow> controller result" where
  "Controller self_dir pid cfg doc =
     and_then (Workers self_dir pid cfg) (\<lambda>(pool, _).
     and_then (Functions_initialize doc (code_language (cfg_code cfg))) (\<lambda>fs.
     Inr \<lparr>ct_workers = pool, ct_queue = WorkQueue fs, ct_external = [], ct_app = application_empty,
          ct_updates = [], ct_mailbox = MessageStore, ct_pending = PendingMessages, ct_server = [],
          ct_ending = False, ct_process_id = cfg_process_id cfg\<rparr>))"

section \<open>Calls of the server's threads\<close>

definition remote_message :: "bytes \<Rightarrow> buffer \<Rightarrow> string \<Rightarrow> controller \<Rightarrow> controller" where
  "remote_message msg payload process_id c =
     c\<lparr>ct_external := ct_external c @
        [\<lparr>em_source_type = PROCESS, em_source = Some process_id, em_msg = msg, em_payload = payload\<rparr>]\<rparr>"

definition dataplane_message :: "bytes \<Rightarrow> buffer \<Rightarrow> controller \<Rightarrow> controller" where
  "dataplane_message msg payload c =
     c\<lparr>ct_external := ct_external c @
        [\<lparr>em_source_type = DATA_PLANE, em_source = None, em_msg = msg, em_payload = payload\<rparr>]\<rparr>"

definition controlplane_message :: "bytes \<Rightarrow> buffer \<Rightarrow> controller \<Rightarrow> controller" where
  "controlplane_message msg payload c =
     c\<lparr>ct_external := ct_external c @
        [\<lparr>em_source_type = CONTROL_PLANE, em_source = None, em_msg = msg, em_payload = payload\<rparr>]\<rparr>"

definition update_application :: "app_status \<Rightarrow> string \<Rightarrow> controller \<Rightarrow> controller" where
  "update_application st process c =
     c\<lparr>ct_updates := ct_updates c @ [\<lparr>upd_status = st, upd_process = process\<rparr>]\<rparr>"

section \<open>Handlers\<close>

definition server_call :: "server_call \<Rightarrow> controller \<Rightarrow> controller" where
  "server_call call c = c\<lparr>ct_server := ct_server c @ [call]\<rparr>"

definition send_worker :: "worker_id \<Rightarrow> bytes \<Rightarrow> bytes \<Rightarrow> controller \<Rightarrow> controller" where
  "send_worker w header payload c =
     c\<lparr>ct_workers := (ct_workers c)\<lparr>wp_workers :=
         (wp_workers (ct_workers c))[w := worker_send header payload (wp_workers (ct_workers c) ! w)]\<rparr>\<rparr>"

fun send_workers :: "worker_id list \<Rightarrow> bytes \<Rightarrow> bytes \<Rightarrow> controller \<Rightarrow> controller" where
  "send_workers [] header payload c = c"
| "send_workers (w # ws) header payload c = send_workers ws header payload (send_worker w header payload c)"

subsection \<open>Application updates\<close>

fun broadcast_updates :: "app_update list \<Rightarrow> ipc_application_update \<Rightarrow> controller \<Rightarrow> controller result" where
  "broadcast_updates [] msg c = Inr c"
| "broadcast_updates (u # us) msg c =
     and_then (set_iau_process_id (upd_process u) msg) (\<lambda>m.
       let m' = set_iau_status_change (status_code (upd_status u)) m in
       broadcast_updates us m'
         (send_workers [0..<length (wp_workers (ct_workers c))] (iau_data m') [] c))"

definition process_application_updates :: "app_update list \<Rightarrow> controller \<Rightarrow> controller result" where
  "process_application_updates updates c =
     and_then (broadcast_updates updates ipc_ApplicationUpdate c) (\<lambda>c'.
     Inr (c'\<lparr>ct_app := apply_updates updates (ct_app c')\<rparr>))"

subsection \<open>Results of invocations\<close>

definition build_result :: "string \<Rightarrow> int32 \<Rightarrow> nat \<Rightarrow> ipc_invocation_result result" where
  "build_result iid code len =
     and_then (set_irs_invocation_id iid ipc_InvocationResult) (\<lambda>m.
     Inr (set_irs_buffer_length (i32_of_size len) (set_irs_return_code code m)))"

definition process_invocation_result ::
    "invocation_source \<Rightarrow> string \<Rightarrow> int32 \<Rightarrow> bytes \<Rightarrow> controller \<Rightarrow> controller result" where
  "process_invocation_result source iid code payload c =
     (if is_remote source
      then Inr (server_call (ServerInvocationResult (src_type source) (src_process source)
                  iid code payload) c)
      else
        (let (ws, ps) = find_invocation iid (ct_pending c) in
         and_then (build_result iid code (length payload)) (\<lambda>result.
         Inr (send_workers ws (irs_data result) payload (c\<lparr>ct_pending := ps\<rparr>)))))"

definition process_worker_result ::
    "nat \<Rightarrow> worker_id \<Rightarrow> string \<Rightarrow> int32 \<Rightarrow> bytes \<Rightarrow> controller \<Rightarrow> controller result" where
  "process_worker_result now w iid code payload c =
     (let (r, q) = wq_finish now iid (ct_queue c) in
      and_then
        (case r of
           Some i \<Rightarrow> process_invocation_result (inv_source i) iid code payload
                       (c\<lparr>ct_queue := q\<rparr>)
         | None \<Rightarrow> Inr (c\<lparr>ct_queue := q\<rparr>))
        (\<lambda>c'. Inr (c'\<lparr>ct_workers := workers_finish w (ct_workers c')\<rparr>)))"

subsection \<open>Messages from the server\<close>

definition message_source :: "external_message \<Rightarrow> invocation_source" where
  "message_source m =
     (case em_source m of Some p \<Rightarrow> from_process p | None \<Rightarrow> from_source (em_source_type m))"

definition external_invocation :: "nat \<Rightarrow> external_message \<Rightarrow> invocation_request \<Rightarrow> controller \<Rightarrow> controller result" where
  "external_invocation now msg req c =
     and_then (add_payload now (function_name req) (invocation_id req) (em_payload msg)
                 (message_source msg) (ct_queue c)) (\<lambda>(res, q).
     case res of
       None \<Rightarrow> Inr (c\<lparr>ct_queue := q\<rparr>)
     | Some err \<Rightarrow> process_invocation_result (message_source msg) (invocation_id req) (- 1) err
                     (c\<lparr>ct_queue := q\<rparr>))"

definition external_result :: "external_message \<Rightarrow> invocation_result \<Rightarrow> controller \<Rightarrow> controller result" where
  "external_result msg req c =
     (let (ws, ps) = find_invocation (result_id req) (ct_pending c) in
      and_then (build_result (result_id req) (return_code req) (buf_len (em_payload msg))) (\<lambda>result.
      Inr (send_workers ws (irs_data result) (buffer_data (em_payload msg)) (c\<lparr>ct_pending := ps\<rparr>))))"

text \<open>The reply to a waiting or a served get request.\<close>

definition get_reply :: "string \<Rightarrow> string \<Rightarrow> bytes result" where
  "get_reply process_id name =
     and_then (set_gr_process_id process_id GetRequest) (\<lambda>m.
     and_then (set_gr_name name m) (\<lambda>m. Inr (gr_data m)))"

definition external_put :: "external_message \<Rightarrow> put_message \<Rightarrow> controller \<Rightarrow> controller result" where
  "external_put msg req c =
     (case find_get (put_name req) (put_process_id req) (ct_pending c) of
        (Some w, ps) \<Rightarrow>
          and_then (get_reply (put_process_id req) (put_name req)) (\<lambda>reply.
          Inr (send_worker w reply (buffer_data (em_payload msg)) (c\<lparr>ct_pending := ps\<rparr>)))
      | (None, ps) \<Rightarrow>
          Inr (c\<lparr>ct_pending := ps,
                 ct_mailbox := snd (mailbox_put (put_name req) (put_process_id req) (em_payload msg) (ct_mailbox c))\<rparr>))"

definition process_external_message :: "nat \<Rightarrow> external_message \<Rightarrow> controller \<Rightarrow> controller result" where
  "process_external_message now msg c =
     and_then (parse (em_msg msg)) (\<lambda>v.
     case v of
       InvocationRequestPtr req \<Rightarrow> external_invocation now msg req c
     | InvocationResultPtr req \<Rightarrow> external_result msg req c
     | PutMessagePtr req \<Rightarrow> external_put msg req c
     | _ \<Rightarrow> Inr c)"

subsection \<open>Messages from the workers\<close>

definition process_invocation ::
    "nat \<Rightarrow> worker_id \<Rightarrow> ipc_invocation_request \<Rightarrow> buffer \<Rightarrow> controller \<Rightarrow> controller result" where
  "process_invocation now w req payload c =
     (let c = c\<lparr>ct_pending := insert_invocation (irq_invocation_id req) w (ct_pending c)\<rparr> in
      if irq_process_id req = SELF_PROCESS \<or> irq_process_id req = ct_process_id c
      then
        and_then (add_payload now (irq_function_name req) (irq_invocation_id req) payload from_local
                    (ct_queue c)) (\<lambda>(res, q).
        case res of
          None \<Rightarrow> Inr (c\<lparr>ct_queue := q\<rparr>)
        | Some err \<Rightarrow> process_invocation_result from_local (irq_invocation_id req) (- 1) err
                        (c\<lparr>ct_queue := q\<rparr>))
      else
        Inr (server_call (ServerInvocationRequest (irq_process_id req) (irq_function_name req)
               (irq_invocation_id req) payload) c))"

definition process_put :: "nat \<Rightarrow> generic_request \<Rightarrow> buffer \<Rightarrow> controller \<Rightarrow> controller result" where
  "process_put now req payload c =
     (if gr_state req
      then and_then (mailbox_state now (gr_name req) payload (ct_mailbox c)) (\<lambda>(_, mb).
           Inr (c\<lparr>ct_mailbox := mb\<rparr>))
      else if gr_process_id req = SELF_PROCESS \<or> gr_process_id req = ct_process_id c
      then
        (case find_get (gr_name req) (ct_process_id c) (ct_pending c) of
           (Some w, ps) \<Rightarrow>
             and_then (get_reply (ct_process_id c) (gr_name req)) (\<lambda>reply.
             Inr (send_worker w reply (buffer_data payload) (c\<lparr>ct_pending := ps\<rparr>)))
         | (None, ps) \<Rightarrow>
             Inr (c\<lparr>ct_pending := ps,
                    ct_mailbox := snd (mailbox_put (gr_name req) (ct_process_id c) payload (ct_mailbox c))\<rparr>))
      else Inr (server_call (ServerPutMessage (gr_process_id req) (gr_name req) payload) c))"

definition state_reply :: "string \<Rightarrow> bytes result" where
  "state_reply name =
     and_then (set_gr_name name GetRequest) (\<lambda>m. Inr (gr_data (set_gr_state True m)))"

definition process_get :: "worker_id \<Rightarrow> generic_request \<Rightarrow> controller \<Rightarrow> controller result" where
  "process_get w req c =
     (if gr_state req
      then and_then (state_reply (gr_name req)) (\<lambda>reply.
           case try_state (gr_name req) (ct_mailbox c) of
             Some b \<Rightarrow> Inr (send_worker w reply (buffer_data b) c)
           | None \<Rightarrow> Inr (send_worker w reply [] c))
      else
        (let source = (if gr_process_id req = SELF_PROCESS then ct_process_id c else gr_process_id req) in
         case try_get (gr_name req) source (ct_mailbox c) of
           (Some b, mb) \<Rightarrow>
             and_then (get_reply (gr_process_id req) (gr_name req)) (\<lambda>reply.
             Inr (send_worker w reply (buffer_data b) (c\<lparr>ct_mailbox := mb\<rparr>)))
         | (None, mb) \<Rightarrow>
             Inr (c\<lparr>ct_mailbox := mb, ct_pending := insert_get (gr_name req) source w (ct_pending c)\<rparr>)))"

definition process_state_keys :: "((string \<times> nat) list \<Rightarrow> bytes) \<Rightarrow> worker_id \<Rightarrow> controller \<Rightarrow> controller" where
  "process_state_keys serialize w c =
     (let str = serialize (state_keys_of (ct_mailbox c)) in
      send_worker w (sk_data (set_sk_buffer_length (i32_of_size (length str)) StateKeysResult)) str c)"

definition process_internal_message ::
    "((string \<times> nat) list \<Rightarrow> bytes) \<Rightarrow> nat \<Rightarrow> worker_id \<Rightarrow> bytes \<Rightarrow> buffer \<Rightarrow> controller \<Rightarrow> controller result" where
  "process_internal_message serialize now w msg payload c =
     and_then (parse_message msg) (\<lambda>v.
     case v of
       InvocationResultV req \<Rightarrow>
         process_worker_result now w (irs_invocation_id req) (irs_return_code req) (buffer_data payload) c
     | InvocationRequestV req \<Rightarrow> process_invocation now w req payload c
     | PutRequestV req \<Rightarrow> process_put now req payload c
     | StateKeysRequestV _ \<Rightarrow> Inr (process_state_keys serialize w c)
     | GetRequestV req \<Rightarrow> process_get w req c
     | _ \<Rightarrow> Inr c)"

section \<open>The polling loop\<close>

text \<open>The queue hands out a pending key and removes it, so that the scheduling loop ends.\<close>

lemma next_ready_shorter:
  "next_ready act ks = Inr (Some k, ks') \<Longrightarrow> length ks' < length ks"
proof (induction act ks arbitrary: ks' rule: next_ready.induct)
  case (2 act x xs)
  then show ?case by (auto simp: and_then_eq_Inr split: option.splits if_splits)
qed simp

lemma wq_next_shorter:
  "wq_next q = Inr (Some k, q') \<Longrightarrow> length (wq_pending q') < length (wq_pending q)"
  by (auto simp: wq_next_def and_then_eq_Inr dest: next_ready_shorter)

function schedule :: "work_queue \<Rightarrow> worker_pool \<Rightarrow> (work_queue \<times> worker_pool) result" where
  "schedule q p =
     (if \<not> has_idle_workers p then Inr (q, p)
      else
        (case wq_next q of
           Inl e \<Rightarrow> Inl e
         | Inr (None, q') \<Rightarrow> Inr (q', p)
         | Inr (Some k, q') \<Rightarrow>
             (case wq_active q' k of
                None \<Rightarrow> Inl UndefinedBehaviour
              | Some i \<Rightarrow>
                  (case workers_submit i p of
                     Inl e \<Rightarrow> Inl e
                   | Inr (i', p') \<Rightarrow> schedule (q'\<lparr>wq_active := (wq_active q')(k \<mapsto> i')\<rparr>) p'))))"
  by pat_completeness auto
termination
  by (relation "measure (\<lambda>(q, p). length (wq_pending q))") (auto dest: wq_next_shorter)

declare schedule.simps [simp del]

definition schedule_controller :: "controller \<Rightarrow> controller result" where
  "schedule_controller c =
     and_then (schedule (ct_queue c) (ct_workers c)) (\<lambda>(q, p). Inr (c\<lparr>ct_queue := q, ct_workers := p\<rparr>))"

text \<open>
  An event of \<^verbatim>\<open>epoll_wait\<close>: the notification, or a worker's channel, on which \<^verbatim>\<open>receive\<close> has
  returned a complete message or not.
\<close>

datatype poll_event = WakeUp | WorkerMessage worker_id bytes buffer | WorkerPartial worker_id

fun process_external_messages :: "nat \<Rightarrow> external_message list \<Rightarrow> controller \<Rightarrow> controller result" where
  "process_external_messages now [] c = Inr c"
| "process_external_messages now (m # ms) c =
     and_then (process_external_message now m c) (process_external_messages now ms)"

fun handle_event :: "((string \<times> nat) list \<Rightarrow> bytes) \<Rightarrow> nat \<Rightarrow> poll_event \<Rightarrow> controller \<Rightarrow> controller result" where
  "handle_event serialize now WakeUp c =
     and_then (process_external_messages now (ct_external c) (c\<lparr>ct_external := []\<rparr>)) (\<lambda>c.
     if ct_updates c = [] then Inr c
     else process_application_updates (ct_updates c) (c\<lparr>ct_updates := []\<rparr>))"
| "handle_event serialize now (WorkerMessage w msg payload) c =
     process_internal_message serialize now w msg payload c"
| "handle_event serialize now (WorkerPartial w) c = Inr c"

fun handle_events :: "((string \<times> nat) list \<Rightarrow> bytes) \<Rightarrow> nat \<Rightarrow> poll_event list \<Rightarrow> controller \<Rightarrow> controller result" where
  "handle_events serialize now [] c = Inr c"
| "handle_events serialize now (e # es) c =
     and_then (handle_event serialize now e c) (handle_events serialize now es)"

definition poll_iteration :: "((string \<times> nat) list \<Rightarrow> bytes) \<Rightarrow> nat \<Rightarrow> poll_event list \<Rightarrow> controller \<Rightarrow> controller result" where
  "poll_iteration serialize now events c =
     and_then (handle_events serialize now events c) schedule_controller"

text \<open>The loop over the batches of events that \<^verbatim>\<open>epoll_wait\<close> returns, each with its time.\<close>

fun poll :: "((string \<times> nat) list \<Rightarrow> bytes) \<Rightarrow> (nat \<times> poll_event list) list \<Rightarrow> controller \<Rightarrow> controller result" where
  "poll serialize [] c = Inr c"
| "poll serialize ((now, events) # bs) c =
     (if ct_ending c then Inr c
      else and_then (poll_iteration serialize now events c) (poll serialize bs))"

definition controller_shutdown :: "controller \<Rightarrow> controller" where
  "controller_shutdown c = c\<lparr>ct_ending := True\<rparr>"

section \<open>Scheduling\<close>

definition small_payloads :: "work_queue \<Rightarrow> bool" where
  "small_payloads q \<longleftrightarrow>
     (\<forall>k i. wq_active q k = Some i \<longrightarrow> \<not> inv_active i \<longrightarrow> length (inv_payload i) \<le> 13)"

text \<open>One round of the loop: the first pending invocation runs on an idle worker.\<close>

lemma schedule_round:
  assumes "wq_inv q" and "pool_inv p" and "small_payloads q" and "has_idle_workers p"
    and "wq_pending q = k # ks"
  shows "\<exists>i i' p'. schedule q p = schedule (q\<lparr>wq_pending := ks, wq_active := (wq_active q)(k \<mapsto> i')\<rparr>) p' \<and>
           wq_active q k = Some i \<and> workers_submit i p = Inr (i', p') \<and> inv_source i' = inv_source i \<and>
           inv_active i' \<and> pool_inv p' \<and> wp_idle p' = wp_idle p - 1 \<and>
           length (wp_workers p') = length (wp_workers p) \<and>
           wq_inv (q\<lparr>wq_pending := ks, wq_active := (wq_active q)(k \<mapsto> i')\<rparr>) \<and>
           small_payloads (q\<lparr>wq_pending := ks, wq_active := (wq_active q)(k \<mapsto> i')\<rparr>)"
proof -
  from assms(1,5) have "status_of q k = Waiting" by (auto simp: wq_inv_def)
  then obtain i where i: "wq_active q k = Some i" "\<not> inv_active i" by (auto simp: status_of_cases)
  with assms(1,3) have "length (irq_data (inv_req i)) = IPC_BUF_SIZE" "length (inv_payload i) \<le> 13"
    by (auto simp: wq_inv_def small_payloads_def)
  from workers_submit_ok [OF assms(2,4) this] obtain i' p' where
    s: "workers_submit i p = Inr (i', p')" "inv_active i'" "inv_source i' = inv_source i" "pool_inv p'"
       "length (irq_data (inv_req i')) = IPC_BUF_SIZE" "wp_idle p' = wp_idle p - 1"
       "length (wp_workers p') = length (wp_workers p)" by blast
  let ?q = "q\<lparr>wq_pending := ks, wq_active := (wq_active q)(k \<mapsto> i')\<rparr>"
  have st: "status_of ?q = (status_of q)(k := Running)"
    using s(2) by (auto simp: status_of_def fun_eq_iff)
  have "wq_inv ?q"
    using assms(1,5) s(5) unfolding wq_inv_def st by auto
  moreover have "small_payloads ?q" using assms(3) s(2) by (auto simp: small_payloads_def)
  moreover have "schedule q p = schedule ?q p'"
    using wq_next_head [OF assms(1)] assms(4,5) i(1) s(1) by (subst schedule.simps) simp
  ultimately show ?thesis using i(1) s by blast
qed

lemma schedule_result:
  "wq_inv q \<Longrightarrow> pool_inv p \<Longrightarrow> small_payloads q \<Longrightarrow>
     \<exists>q' p'. schedule q p = Inr (q', p') \<and> wq_inv q' \<and> pool_inv p' \<and> small_payloads q' \<and>
       length (wp_workers p') = length (wp_workers p) \<and>
       (let n = min (nat (wp_idle p)) (length (wq_pending q)) in
        wq_pending q' = drop n (wq_pending q) \<and> wp_idle p' = wp_idle p - int n \<and>
        status_of q' = (\<lambda>k. if k \<in> set (take n (wq_pending q)) then Running else status_of q k))"
proof (induction "wq_pending q" arbitrary: q p)
  case Nil
  have "schedule q p = Inr (q, p)"
    using wq_next_head [OF Nil(2)] Nil(1) by (subst schedule.simps) (simp flip: Nil(1))
  with Nil show ?case by (simp flip: Nil(1))
next
  case (Cons k ks)
  show ?case
  proof (cases "has_idle_workers p")
    case False
    then have "nat (wp_idle p) = 0" by (simp add: has_idle_workers_def)
    with False Cons.prems show ?thesis by (subst schedule.simps) simp
  next
    case True
    from schedule_round [OF Cons.prems True Cons(2) [symmetric]] obtain i' p' where
      r: "schedule q p = schedule (q\<lparr>wq_pending := ks, wq_active := (wq_active q)(k \<mapsto> i')\<rparr>) p'"
        "pool_inv p'" "wp_idle p' = wp_idle p - 1" "length (wp_workers p') = length (wp_workers p)"
        "wq_inv (q\<lparr>wq_pending := ks, wq_active := (wq_active q)(k \<mapsto> i')\<rparr>)"
        "small_payloads (q\<lparr>wq_pending := ks, wq_active := (wq_active q)(k \<mapsto> i')\<rparr>)" "inv_active i'"
      by blast
    let ?q = "q\<lparr>wq_pending := ks, wq_active := (wq_active q)(k \<mapsto> i')\<rparr>"
    have st: "status_of ?q = (status_of q)(k := Running)"
      using r(7) by (auto simp: status_of_def fun_eq_iff)
    have n: "min (nat (wp_idle p)) (Suc (length ks)) = Suc (min (nat (wp_idle p')) (length ks))"
      using True r(3) by (simp add: has_idle_workers_def)
    have "\<exists>q' p2. schedule ?q p' = Inr (q', p2) \<and> wq_inv q' \<and> pool_inv p2 \<and> small_payloads q' \<and>
       length (wp_workers p2) = length (wp_workers p') \<and>
       (let n = min (nat (wp_idle p')) (length (wq_pending ?q)) in
        wq_pending q' = drop n (wq_pending ?q) \<and> wp_idle p2 = wp_idle p' - int n \<and>
        status_of q' = (\<lambda>k. if k \<in> set (take n (wq_pending ?q)) then Running else status_of ?q k))"
      by (rule Cons.hyps(1)) (use r in simp_all)
    then obtain q' p2 where q': "schedule ?q p' = Inr (q', p2)" "wq_inv q'" "pool_inv p2" "small_payloads q'"
       "length (wp_workers p2) = length (wp_workers p')"
       "wq_pending q' = drop (min (nat (wp_idle p')) (length ks)) ks"
       "wp_idle p2 = wp_idle p' - int (min (nat (wp_idle p')) (length ks))"
       "status_of q' = (\<lambda>x. if x \<in> set (take (min (nat (wp_idle p')) (length ks)) ks) then Running
          else ((status_of q)(k := Running)) x)"
      unfolding st Let_def by auto
    then show ?thesis unfolding r(1) Cons(2) [symmetric] Let_def list.size add_Suc_right add_0_right n
      using r(3,4) by (auto simp: fun_eq_iff)
  qed
qed

section \<open>Sending to workers\<close>

lemma send_worker_fields [simp]:
  "ct_queue (send_worker w h d c) = ct_queue c"
  "ct_external (send_worker w h d c) = ct_external c"
  "ct_app (send_worker w h d c) = ct_app c"
  "ct_updates (send_worker w h d c) = ct_updates c"
  "ct_mailbox (send_worker w h d c) = ct_mailbox c"
  "ct_pending (send_worker w h d c) = ct_pending c"
  "ct_server (send_worker w h d c) = ct_server c"
  "ct_process_id (send_worker w h d c) = ct_process_id c"
  "wp_idle (ct_workers (send_worker w h d c)) = wp_idle (ct_workers c)"
  "length (wp_workers (ct_workers (send_worker w h d c))) = length (wp_workers (ct_workers c))"
  by (simp_all add: send_worker_def)

lemma worker_send_busy [simp]: "fw_busy (worker_send h d w) = fw_busy w"
  by (simp add: worker_send_def)

lemma send_worker_nth:
  "w < length (wp_workers (ct_workers c)) \<Longrightarrow>
     wp_workers (ct_workers (send_worker w h d c)) ! v =
     (if v = w then worker_send h d (wp_workers (ct_workers c) ! w) else wp_workers (ct_workers c) ! v)"
  by (simp add: send_worker_def nth_list_update)

lemma send_worker_busy [simp]:
  "map fw_busy (wp_workers (ct_workers (send_worker w h d c))) = map fw_busy (wp_workers (ct_workers c))"
proof (cases "w < length (wp_workers (ct_workers c))")
  case True
  then show ?thesis by (simp add: send_worker_def map_update) (metis list_update_id nth_map)
next
  case False
  then show ?thesis by (simp add: send_worker_def list_update_beyond)
qed

lemma send_workers_fields [simp]:
  "ct_queue (send_workers ws h d c) = ct_queue c"
  "ct_external (send_workers ws h d c) = ct_external c"
  "ct_app (send_workers ws h d c) = ct_app c"
  "ct_updates (send_workers ws h d c) = ct_updates c"
  "ct_mailbox (send_workers ws h d c) = ct_mailbox c"
  "ct_pending (send_workers ws h d c) = ct_pending c"
  "ct_server (send_workers ws h d c) = ct_server c"
  "ct_process_id (send_workers ws h d c) = ct_process_id c"
  "wp_idle (ct_workers (send_workers ws h d c)) = wp_idle (ct_workers c)"
  "length (wp_workers (ct_workers (send_workers ws h d c))) = length (wp_workers (ct_workers c))"
  "map fw_busy (wp_workers (ct_workers (send_workers ws h d c))) = map fw_busy (wp_workers (ct_workers c))"
  by (induction ws arbitrary: c) simp_all

lemma idle_count_busy: "idle_count ws = length (filter Not (map fw_busy ws))"
  by (induction ws) simp_all

lemma pool_inv_busy:
  "map fw_busy (wp_workers p) = map fw_busy (wp_workers p') \<Longrightarrow> wp_idle p = wp_idle p' \<Longrightarrow>
     pool_inv p \<longleftrightarrow> pool_inv p'"
  by (simp add: pool_inv_def idle_count_busy)

section \<open>The invariant of the controller\<close>

text \<open>
  The idle counter is right, the queue is well formed, and every waiting entry names a worker of
  the pool.
\<close>

definition pending_in :: "nat \<Rightarrow> pending_messages \<Rightarrow> bool" where
  "pending_in n ps \<longleftrightarrow> (\<forall>e \<in> set ps. pm_worker (snd e) < n)"

definition controller_inv :: "controller \<Rightarrow> bool" where
  "controller_inv c \<longleftrightarrow>
     pool_inv (ct_workers c) \<and> wq_inv (ct_queue c) \<and>
     pending_in (length (wp_workers (ct_workers c))) (ct_pending c)"

lemma pending_in_subset: "pending_in n ps \<Longrightarrow> mset ps' \<subseteq># mset ps \<Longrightarrow> pending_in n ps'"
  unfolding pending_in_def by (metis mset_subset_eqD set_mset_mset)

lemma pending_in_insert:
  "pending_in n (insert_get k src w ps) \<longleftrightarrow> pending_in n ps \<and> w < n"
  "pending_in n (insert_invocation k w ps) \<longleftrightarrow> pending_in n ps \<and> w < n"
  by (auto simp: pending_in_def insert_get_def insert_invocation_def)

lemma controller_inv_cong:
  assumes "controller_inv c"
    and "map fw_busy (wp_workers (ct_workers c')) = map fw_busy (wp_workers (ct_workers c))"
    and "wp_idle (ct_workers c') = wp_idle (ct_workers c)"
    and "wq_inv (ct_queue c')" and "mset (ct_pending c') \<subseteq># mset (ct_pending c)"
  shows "controller_inv c'"
proof -
  have "length (wp_workers (ct_workers c')) = length (wp_workers (ct_workers c))"
    using assms(2) by (metis length_map)
  then show ?thesis using assms pool_inv_busy [OF assms(2,3)]
    by (simp add: controller_inv_def pending_in_subset [OF _ assms(5)])
qed

lemma find_invocation_subset: "mset (snd (find_invocation k ps)) \<subseteq># mset ps"
  by (simp add: pend.serve_invocation_entries)

lemma find_get_subset: "mset (snd (find_get k src ps)) \<subseteq># mset ps"
proof (cases "fst (find_get k src ps)")
  case None
  then show ?thesis by (simp add: pend.serve_get_none_same)
next
  case (Some w)
  from pend.serve_get_some [OF this] show ?thesis by auto
qed

lemma process_invocation_result_local:
  "\<not> is_remote src \<Longrightarrow> process_invocation_result src iid code payload c =
     and_then (build_result iid code (length payload)) (\<lambda>r.
       Inr (send_workers (fst (find_invocation iid (ct_pending c))) (irs_data r) payload
              (c\<lparr>ct_pending := snd (find_invocation iid (ct_pending c))\<rparr>)))"
  by (simp add: process_invocation_result_def case_prod_beta Let_def)

lemma external_result_eq:
  "external_result m req c =
     and_then (build_result (result_id req) (return_code req) (buf_len (em_payload m))) (\<lambda>r.
       Inr (send_workers (fst (find_invocation (result_id req) (ct_pending c))) (irs_data r)
              (buffer_data (em_payload m)) (c\<lparr>ct_pending := snd (find_invocation (result_id req) (ct_pending c))\<rparr>)))"
  by (simp add: external_result_def case_prod_beta Let_def)

lemma process_worker_result_eq:
  "process_worker_result now w iid code payload c =
     and_then
       (case fst (wq_finish now iid (ct_queue c)) of
          Some i \<Rightarrow> process_invocation_result (inv_source i) iid code payload
                      (c\<lparr>ct_queue := snd (wq_finish now iid (ct_queue c))\<rparr>)
        | None \<Rightarrow> Inr (c\<lparr>ct_queue := snd (wq_finish now iid (ct_queue c))\<rparr>))
       (\<lambda>c1. Inr (c1\<lparr>ct_workers := workers_finish w (ct_workers c1)\<rparr>))"
  by (simp add: process_worker_result_def case_prod_beta Let_def)

lemma process_invocation_result_inv:
  assumes "controller_inv c" and "process_invocation_result src iid code payload c = Inr c'"
  shows "controller_inv c' \<and> ct_queue c' = ct_queue c \<and>
         map fw_busy (wp_workers (ct_workers c')) = map fw_busy (wp_workers (ct_workers c))"
proof (cases "is_remote src")
  case True
  with assms show ?thesis
    by (auto simp: process_invocation_result_def server_call_def controller_inv_def)
next
  case False
  from assms(2) obtain r :: ipc_invocation_result where "Inr (send_workers (fst (find_invocation iid (ct_pending c))) (irs_data r) payload
      (c\<lparr>ct_pending := snd (find_invocation iid (ct_pending c))\<rparr>)) = (Inr c' :: controller result)"
    unfolding process_invocation_result_local [OF False] and_then_eq_Inr by blast
  then have r: "c' = send_workers (fst (find_invocation iid (ct_pending c))) (irs_data r) payload
      (c\<lparr>ct_pending := snd (find_invocation iid (ct_pending c))\<rparr>)" by simp
  have "controller_inv c'"
    by (rule controller_inv_cong [OF assms(1)])
       (use assms(1) find_invocation_subset in \<open>simp_all add: r controller_inv_def\<close>)
  with r show ?thesis by simp
qed

lemma add_or_report_inv:
  assumes "controller_inv c" and "add_payload now f k buf src (ct_queue c) = Inr (res, q)"
    and "(case res of None \<Rightarrow> Inr (c\<lparr>ct_queue := q\<rparr>)
          | Some err \<Rightarrow> process_invocation_result src' k code err (c\<lparr>ct_queue := q\<rparr>)) = Inr c'"
  shows "controller_inv c'"
proof -
  from assms(1,2) have "controller_inv (c\<lparr>ct_queue := q\<rparr>)"
    by (auto simp: controller_inv_def intro: add_payload_inv)
  with assms(3) show ?thesis
    by (cases res) (auto dest: process_invocation_result_inv)
qed

lemma process_external_message_inv:
  assumes inv: "controller_inv c" and r: "process_external_message now m c = Inr c'"
  shows "controller_inv c'"
proof -
  from r obtain v where v: "parse (em_msg m) = Inr v" by (auto simp: process_external_message_def and_then_eq_Inr)
  note [simp] = process_external_message_def v
  show ?thesis
  proof (cases v)
    case (InvocationRequestPtr req)
    with r inv show ?thesis
      by (auto simp: external_invocation_def and_then_eq_Inr intro: add_or_report_inv)
  next
    case (InvocationResultPtr req)
    with r have "external_result m req c = Inr c'" by simp
    then obtain x :: ipc_invocation_result where "Inr (send_workers (fst (find_invocation (result_id req) (ct_pending c))) (irs_data x)
        (buffer_data (em_payload m)) (c\<lparr>ct_pending := snd (find_invocation (result_id req) (ct_pending c))\<rparr>)) =
        (Inr c' :: controller result)"
      unfolding external_result_eq and_then_eq_Inr by blast
    then have "c' = send_workers (fst (find_invocation (result_id req) (ct_pending c))) (irs_data x)
        (buffer_data (em_payload m)) (c\<lparr>ct_pending := snd (find_invocation (result_id req) (ct_pending c))\<rparr>)"
      by simp
    then show ?thesis
      by (intro controller_inv_cong [OF inv]) (use inv find_invocation_subset in \<open>simp_all add: controller_inv_def\<close>)
  next
    case (PutMessagePtr req)
    show ?thesis
      by (rule controller_inv_cong [OF inv])
         (use r PutMessagePtr inv find_get_subset [of "put_name req" "put_process_id req" "ct_pending c"] in
           \<open>auto simp: external_put_def and_then_eq_Inr controller_inv_def split: prod.splits option.splits\<close>)
  qed (use r inv in auto)
qed

lemma process_put_inv:
  assumes inv: "controller_inv c" and r: "process_put now req payload c = Inr c'"
  shows "controller_inv c'"
  by (rule controller_inv_cong [OF inv])
     (use r inv find_get_subset [of "gr_name req" "ct_process_id c" "ct_pending c"] in
       \<open>auto simp: process_put_def and_then_eq_Inr controller_inv_def server_call_def
          split: prod.splits option.splits if_splits\<close>)

lemma process_get_inv:
  assumes inv: "controller_inv c" and w: "w < length (wp_workers (ct_workers c))"
    and r: "process_get w req c = Inr c'"
  shows "controller_inv c'"
proof (cases "gr_state req")
  case True
  show ?thesis
    by (rule controller_inv_cong [OF inv])
       (use r inv True in \<open>auto simp: process_get_def and_then_eq_Inr controller_inv_def split: option.splits\<close>)
next
  case False
  let ?src = "if gr_process_id req = SELF_PROCESS then ct_process_id c else gr_process_id req"
  show ?thesis
  proof (cases "fst (try_get (gr_name req) ?src (ct_mailbox c))")
    case None
    with r False have "c' = c\<lparr>ct_mailbox := snd (try_get (gr_name req) ?src (ct_mailbox c)),
        ct_pending := insert_get (gr_name req) ?src w (ct_pending c)\<rparr>"
      by (auto simp: process_get_def Let_def split: prod.splits)
    with inv w show ?thesis by (simp add: controller_inv_def pending_in_insert)
  next
    case (Some b)
    show ?thesis
      by (rule controller_inv_cong [OF inv])
         (use r False Some inv in \<open>auto simp: process_get_def Let_def and_then_eq_Inr controller_inv_def split: prod.splits\<close>)
  qed
qed

lemma process_invocation_inv:
  assumes "controller_inv c" and "w < length (wp_workers (ct_workers c))"
    and "process_invocation now w req payload c = Inr c'"
  shows "controller_inv c'"
proof -
  let ?c = "c\<lparr>ct_pending := insert_invocation (irq_invocation_id req) w (ct_pending c)\<rparr>"
  have inv: "controller_inv ?c" using assms(1,2) by (simp add: controller_inv_def pending_in_insert)
  show ?thesis
  proof (cases "irq_process_id req = SELF_PROCESS \<or> irq_process_id req = ct_process_id c")
    case True
    with assms(3) obtain res q where
      "add_payload now (irq_function_name req) (irq_invocation_id req) payload from_local (ct_queue ?c) = Inr (res, q)"
      "(case res of None \<Rightarrow> Inr (?c\<lparr>ct_queue := q\<rparr>)
        | Some err \<Rightarrow> process_invocation_result from_local (irq_invocation_id req) (- 1) err (?c\<lparr>ct_queue := q\<rparr>)) = Inr c'"
      by (auto simp: process_invocation_def Let_def and_then_eq_Inr)
    then show ?thesis by (rule add_or_report_inv [OF inv])
  next
    case False
    with assms(3) inv show ?thesis
      by (auto simp: process_invocation_def Let_def server_call_def controller_inv_def)
  qed
qed

lemma process_worker_result_inv:
  assumes inv: "controller_inv c" and w: "w < length (wp_workers (ct_workers c))"
    "fw_busy (wp_workers (ct_workers c) ! w)"
    and r: "process_worker_result now w iid code payload c = Inr c'"
  shows "controller_inv c'"
proof -
  let ?c = "c\<lparr>ct_queue := snd (wq_finish now iid (ct_queue c))\<rparr>"
  have inv1: "controller_inv ?c" using inv wq_finish_inv by (simp add: controller_inv_def)
  from r obtain c1 where c1: "c' = c1\<lparr>ct_workers := workers_finish w (ct_workers c1)\<rparr>"
    and "(case fst (wq_finish now iid (ct_queue c)) of
          Some i \<Rightarrow> process_invocation_result (inv_source i) iid code payload ?c | None \<Rightarrow> Inr ?c) = Inr c1"
    unfolding process_worker_result_eq and_then_eq_Inr by blast
  then have cases: "c1 = ?c \<or> (\<exists>src. process_invocation_result src iid code payload ?c = Inr c1)"
    by (auto split: option.splits)
  from cases inv1 have "controller_inv c1"
      and busy: "map fw_busy (wp_workers (ct_workers c1)) = map fw_busy (wp_workers (ct_workers c))"
    by (auto dest: process_invocation_result_inv [OF inv1])
  moreover have "w < length (wp_workers (ct_workers c1))" "fw_busy (wp_workers (ct_workers c1) ! w)"
    using busy w by (metis length_map, metis length_map nth_map)
  ultimately show ?thesis
    using pool_inv_finish c1 by (simp add: controller_inv_def workers_finish_def)
qed

lemma schedule_controller_inv:
  assumes "controller_inv c" and "small_payloads (ct_queue c)"
  shows "\<exists>c'. schedule_controller c = Inr c' \<and> controller_inv c' \<and>
           (wp_idle (ct_workers c') = 0 \<or> wq_pending (ct_queue c') = [])"
proof -
  have inv: "wq_inv (ct_queue c)" "pool_inv (ct_workers c)" using assms(1) by (simp_all add: controller_inv_def)
  from schedule_result [OF inv assms(2)] obtain q p where
    s: "schedule (ct_queue c) (ct_workers c) = Inr (q, p)" "wq_inv q" "pool_inv p"
       "length (wp_workers p) = length (wp_workers (ct_workers c))"
       "wq_pending q = drop (min (nat (wp_idle (ct_workers c))) (length (wq_pending (ct_queue c)))) (wq_pending (ct_queue c))"
       "wp_idle p = wp_idle (ct_workers c) - int (min (nat (wp_idle (ct_workers c))) (length (wq_pending (ct_queue c))))"
    by (auto simp: Let_def)
  have "0 \<le> wp_idle (ct_workers c)" using inv(2) by (simp add: pool_inv_def)
  with s(5,6) have "wp_idle p = 0 \<or> wq_pending q = []" by auto
  with s(1-4) assms(1) show ?thesis by (simp add: schedule_controller_def controller_inv_def)
qed

lemma broadcast_updates_fields:
  "broadcast_updates us m c = Inr c' \<Longrightarrow>
     ct_queue c' = ct_queue c \<and> ct_pending c' = ct_pending c \<and> ct_app c' = ct_app c \<and>
     wp_idle (ct_workers c') = wp_idle (ct_workers c) \<and>
     map fw_busy (wp_workers (ct_workers c')) = map fw_busy (wp_workers (ct_workers c))"
  by (induction us m c rule: broadcast_updates.induct) (auto simp: and_then_eq_Inr Let_def)

lemma process_application_updates_inv:
  assumes "controller_inv c" and "process_application_updates us c = Inr c'"
  shows "controller_inv c' \<and> ct_app c' = apply_updates us (ct_app c)"
proof -
  from assms(2) obtain c1 where c1: "broadcast_updates us ipc_ApplicationUpdate c = Inr c1"
    "c' = c1\<lparr>ct_app := apply_updates us (ct_app c1)\<rparr>"
    by (auto simp: process_application_updates_def and_then_eq_Inr)
  note f = broadcast_updates_fields [OF c1(1)]
  have "controller_inv c'"
    by (rule controller_inv_cong [OF assms(1)]) (use f c1(2) assms(1) in \<open>simp_all add: controller_inv_def\<close>)
  with f c1(2) show ?thesis by simp
qed

lemma process_external_messages_inv:
  "controller_inv c \<Longrightarrow> process_external_messages now ms c = Inr c' \<Longrightarrow> controller_inv c'"
  by (induction now ms c rule: process_external_messages.induct)
     (auto simp: and_then_eq_Inr dest: process_external_message_inv)

text \<open>
  What the workers are trusted with: only a busy worker reports the result of an invocation.
\<close>

fun event_ok :: "controller \<Rightarrow> poll_event \<Rightarrow> bool" where
  "event_ok c (WorkerMessage w msg payload) \<longleftrightarrow>
     w < length (wp_workers (ct_workers c)) \<and>
     (\<forall>r. parse_message msg = Inr (InvocationResultV r) \<longrightarrow> fw_busy (wp_workers (ct_workers c) ! w))"
| "event_ok c e \<longleftrightarrow> True"

lemma process_internal_message_inv:
  assumes inv: "controller_inv c" and ok: "event_ok c (WorkerMessage w msg payload)"
    and r: "process_internal_message ser now w msg payload c = Inr c'"
  shows "controller_inv c'"
proof -
  from r obtain v where v: "parse_message msg = Inr v"
    by (auto simp: process_internal_message_def and_then_eq_Inr)
  have w: "w < length (wp_workers (ct_workers c))" using ok by simp
  show ?thesis
  proof (cases v)
    case (GetRequestV req)
    with r v process_get_inv [OF inv w] show ?thesis by (simp add: process_internal_message_def)
  next
    case (PutRequestV req)
    with r v process_put_inv [OF inv] show ?thesis by (simp add: process_internal_message_def)
  next
    case (InvocationRequestV req)
    with r v process_invocation_inv [OF inv w] show ?thesis by (simp add: process_internal_message_def)
  next
    case (InvocationResultV req)
    with ok v have "fw_busy (wp_workers (ct_workers c) ! w)" by simp
    with r v InvocationResultV process_worker_result_inv [OF inv w] show ?thesis
      by (simp add: process_internal_message_def)
  next
    case (StateKeysRequestV req)
    show ?thesis
      by (rule controller_inv_cong [OF inv])
         (use r v StateKeysRequestV inv in
           \<open>auto simp: process_internal_message_def process_state_keys_def Let_def controller_inv_def\<close>)
  qed (use r v inv in \<open>simp_all add: process_internal_message_def\<close>)
qed

lemma handle_event_inv:
  assumes "controller_inv c" and "event_ok c e" and "handle_event ser now e c = Inr c'"
  shows "controller_inv c'"
proof (cases e)
  case WakeUp
  have "controller_inv (c\<lparr>ct_external := []\<rparr>)" using assms(1) by (simp add: controller_inv_def)
  moreover from WakeUp assms(3) obtain c1 where
    "process_external_messages now (ct_external c) (c\<lparr>ct_external := []\<rparr>) = Inr c1"
    and c': "(if ct_updates c1 = [] then Inr c1 else process_application_updates (ct_updates c1) (c1\<lparr>ct_updates := []\<rparr>)) = Inr c'"
    by (auto simp: and_then_eq_Inr)
  ultimately have "controller_inv c1" by (blast intro: process_external_messages_inv)
  moreover from this have "controller_inv (c1\<lparr>ct_updates := []\<rparr>)" by (simp add: controller_inv_def)
  ultimately show ?thesis
    using c' process_application_updates_inv [of "c1\<lparr>ct_updates := []\<rparr>"] by (auto split: if_splits)
next
  case (WorkerMessage w msg payload)
  with assms show ?thesis using process_internal_message_inv [of c w msg payload ser now c'] by simp
next
  case (WorkerPartial w)
  with assms show ?thesis by simp
qed

inductive controller_step :: "controller \<Rightarrow> controller \<Rightarrow> bool" where
  step_remote: "controller_step c (remote_message m b p c)"
| step_dataplane: "controller_step c (dataplane_message m b c)"
| step_controlplane: "controller_step c (controlplane_message m b c)"
| step_update: "controller_step c (update_application st p c)"
| step_event: "event_ok c e \<Longrightarrow> handle_event ser now e c = Inr c' \<Longrightarrow> controller_step c c'"
| step_schedule: "schedule_controller c = Inr c' \<Longrightarrow> small_payloads (ct_queue c) \<Longrightarrow> controller_step c c'"
| step_shutdown: "controller_step c (controller_shutdown c)"

definition controller_initial :: "controller \<Rightarrow> bool" where
  "controller_initial c \<longleftrightarrow> (\<exists>d pid cfg doc. 0 \<le> cfg_function_workers cfg \<and> Controller d pid cfg doc = Inr c)"

interpretation ctrl: invariant_machine controller_initial controller_step controller_inv
proof
  fix c assume "controller_initial c"
  then show "controller_inv c"
    by (auto simp: controller_initial_def Controller_def and_then_eq_Inr controller_inv_def WorkQueue_inv
        pending_in_def PendingMessages_def intro: pool_inv_start)
next
  fix c c' assume "controller_inv c" and "controller_step c c'"
  from this(2,1) show "controller_inv c'"
  proof (cases rule: controller_step.cases)
    case step_schedule
    with \<open>controller_inv c\<close> schedule_controller_inv [of c] show ?thesis by auto
  next
    case step_event
    with \<open>controller_inv c\<close> show ?thesis by (blast intro: handle_event_inv)
  qed (auto simp: controller_inv_def remote_message_def dataplane_message_def controlplane_message_def
      update_application_def controller_shutdown_def)
qed

section \<open>Lemmas for the end-to-end properties\<close>

lemma takeWhile_not_nul: "no_nul (takeWhile (\<lambda>c. c \<noteq> NUL) xs)"
  by (induction xs) (auto simp: no_nul_def)

lemma length_takeWhile_peek: "length (takeWhile (\<lambda>c. c \<noteq> NUL) (peek b off n)) \<le> n"
  using length_takeWhile_le [of "\<lambda>c. c \<noteq> NUL" "peek b off n"] by (simp add: peek_def)

text \<open>The names in a parsed message fit the fields of the messages to the workers.\<close>

lemma parsed_invocation_names:
  assumes "parse b = Inr (InvocationRequestPtr req)"
  shows "no_nul (function_name req)" "length (function_name req) \<le> 32"
    "no_nul (invocation_id req)" "length (invocation_id req) \<le> 16"
proof -
  from assms have "req = InvocationRequest (MessagePtr b)"
    by (auto simp: parse_def Let_def split: if_splits)
  then have "function_name req = takeWhile (\<lambda>c. c \<noteq> NUL) (peek b 10 32)"
      "invocation_id req = takeWhile (\<lambda>c. c \<noteq> NUL) (peek b 42 16)"
    by (simp_all add: function_name_def invocation_id_def InvocationRequest_def Let_def string_view_strnlen)
  then show "no_nul (function_name req)" "length (function_name req) \<le> 32"
    "no_nul (invocation_id req)" "length (invocation_id req) \<le> 16"
    by (simp_all add: takeWhile_not_nul length_takeWhile_peek)
qed

lemma Invocation_fits:
  "length f \<le> 32 \<Longrightarrow> length key \<le> 16 \<Longrightarrow> \<exists>i. Invocation f key t src = Inr i"
  by (simp add: Invocation_def set_irq_function_name_def set_irq_invocation_id_def)

lemma add_payload_new:
  assumes "status_of q key = Absent" and "get_trigger (wq_functions q) f = Some t"
    and "Invocation f key t src = Inr i"
  shows "add_payload now f key buf src q =
     Inr (None, q\<lparr>wq_active := (wq_active q)(key \<mapsto> i\<lparr>inv_payload := [buf], inv_start := now\<rparr>),
                   wq_pending := wq_pending q @ [key]\<rparr>)"
  using assms by (simp add: add_payload_def status_of_cases)

lemma no_waiting_small: "wq_inv q \<Longrightarrow> wq_pending q = [] \<Longrightarrow> small_payloads q"
  unfolding wq_inv_def small_payloads_def status_of_def by (metis (mono_tags, lifting) empty_iff list.set(1) option.simps(5))

lemma schedule_done: "wq_inv q \<Longrightarrow> wq_pending q = [] \<Longrightarrow> schedule q p = Inr (q, p)"
  by (subst schedule.simps) (simp add: wq_next_head)

lemma schedule_single:
  assumes inv: "wq_inv q" "pool_inv p" "has_idle_workers p" and q: "wq_pending q = [k]" "wq_active q k = Some i"
    and len: "length (inv_payload i) \<le> 13"
  shows "\<exists>i' p' w h. schedule q p = Inr (q\<lparr>wq_pending := [], wq_active := (wq_active q)(k \<mapsto> i')\<rparr>, p') \<and>
           inv_active i' \<and> inv_source i' = inv_source i \<and> pool_inv p' \<and>
           length (wp_workers p') = length (wp_workers p) \<and>
           w < length (wp_workers p) \<and> \<not> fw_busy (wp_workers p ! w) \<and> fw_busy (wp_workers p' ! w) \<and>
           submitted i h \<and> fw_sent (wp_workers p' ! w) = fw_sent (wp_workers p ! w) @
             [(h, concat (map buffer_data (inv_payload i)))]"
proof -
  have "length (irq_data (inv_req i)) = IPC_BUF_SIZE" using inv(1) q(2) by (auto simp: wq_inv_def)
  from workers_submit_ok [OF inv(2,3) this len] obtain i' p' w h where
    s: "workers_submit i p = Inr (i', p')" "inv_active i'" "inv_source i' = inv_source i" "pool_inv p'"
       "length (wp_workers p') = length (wp_workers p)" "length (irq_data (inv_req i')) = IPC_BUF_SIZE"
       "w < length (wp_workers p)" "\<not> fw_busy (wp_workers p ! w)" "fw_busy (wp_workers p' ! w)"
       "submitted i h" "fw_sent (wp_workers p' ! w) = fw_sent (wp_workers p ! w) @
             [(h, concat (map buffer_data (inv_payload i)))]" by blast
  let ?q = "q\<lparr>wq_pending := [], wq_active := (wq_active q)(k \<mapsto> i')\<rparr>"
  have "status_of ?q = (status_of q)(k := Running)"
    using s(2) by (auto simp: status_of_def fun_eq_iff)
  with inv(1) q(1) s(6) have "wq_inv ?q" unfolding wq_inv_def by auto
  then have "schedule ?q p' = Inr (?q, p')" by (simp add: schedule_done)
  moreover have "schedule q p = schedule ?q p'"
    using wq_next_head [OF inv(1)] inv(3) q s(1) by (subst schedule.simps) simp
  ultimately show ?thesis using s by auto
qed

section \<open>Messages from outside and their results\<close>

text \<open>The request of a message that has been handed to a worker, and the worker's message for it.\<close>

definition handed_over :: "external_message \<Rightarrow> invocation_request \<Rightarrow> controller \<Rightarrow> controller \<Rightarrow> worker_id \<Rightarrow> bytes \<Rightarrow> bool" where
  "handed_over m req c c' w h \<longleftrightarrow>
     w < length (wp_workers (ct_workers c)) \<and> length (wp_workers (ct_workers c')) = length (wp_workers (ct_workers c)) \<and>
     \<not> fw_busy (wp_workers (ct_workers c) ! w) \<and> fw_busy (wp_workers (ct_workers c') ! w) \<and>
     fw_sent (wp_workers (ct_workers c') ! w) = fw_sent (wp_workers (ct_workers c) ! w) @ [(h, buffer_data (em_payload m))] \<and>
     (\<exists>t i0 i1. Invocation (function_name req) (invocation_id req) t (message_source m) = Inr i0 \<and>
        inv_req i1 = inv_req i0 \<and> inv_payload i1 = [em_payload m] \<and> submitted i1 h) \<and>
     (\<exists>i. wq_active (ct_queue c') (invocation_id req) = Some i \<and> inv_active i \<and> inv_source i = message_source m) \<and>
     controller_inv c' \<and> wq_pending (ct_queue c') = [] \<and> ct_server c' = ct_server c \<and> ct_updates c' = ct_updates c"

lemma external_handed_over:
  assumes inv: "controller_inv c" and idle: "has_idle_workers (ct_workers c)"
    and q: "wq_pending (ct_queue c) = []" "status_of (ct_queue c) (invocation_id req) = Absent"
    and m: "parse (em_msg m) = Inr (InvocationRequestPtr req)"
    and t: "get_trigger (wq_functions (ct_queue c)) (function_name req) = Some t"
  shows "\<exists>c1 c2 w h. process_external_message now m c = Inr c1 \<and> ct_updates c1 = ct_updates c \<and>
           schedule_controller c1 = Inr c2 \<and> handed_over m req c c2 w h"
proof -
  let ?k = "invocation_id req" and ?f = "function_name req"
  note names = parsed_invocation_names [OF m]
  obtain i0 where i0: "Invocation ?f ?k t (message_source m) = Inr i0"
    using Invocation_fits names(2,4) by blast
  define i1 where "i1 = i0\<lparr>inv_payload := [em_payload m], inv_start := now\<rparr>"
  define q1 where "q1 = (ct_queue c)\<lparr>wq_active := (wq_active (ct_queue c))(?k \<mapsto> i1), wq_pending := [?k]\<rparr>"
  have add: "add_payload now ?f ?k (em_payload m) (message_source m) (ct_queue c) = Inr (None, q1)"
    using add_payload_new [OF q(2) t i0] q(1) by (simp add: q1_def i1_def)
  then have c1: "process_external_message now m c = Inr (c\<lparr>ct_queue := q1\<rparr>)"
    using m by (simp add: process_external_message_def external_invocation_def)
  have inv1: "wq_inv q1" "pool_inv (ct_workers c)"
    using inv add_payload_inv [OF _ add] by (simp_all add: controller_inv_def)
  have "wq_pending q1 = [?k]" "wq_active q1 ?k = Some i1" "length (inv_payload i1) \<le> 13"
    by (simp_all add: q1_def i1_def)
  from schedule_single [OF inv1 idle this] obtain i' p' w h where
    s: "schedule q1 (ct_workers c) = Inr (q1\<lparr>wq_pending := [], wq_active := (wq_active q1)(?k \<mapsto> i')\<rparr>, p')"
       "inv_active i'" "inv_source i' = inv_source i1" "length (wp_workers p') = length (wp_workers (ct_workers c))"
       "w < length (wp_workers (ct_workers c))"
       "\<not> fw_busy (wp_workers (ct_workers c) ! w)" "fw_busy (wp_workers p' ! w)" "submitted i1 h"
       "fw_sent (wp_workers p' ! w) = fw_sent (wp_workers (ct_workers c) ! w) @
          [(h, concat (map buffer_data (inv_payload i1)))]" by blast
  have "controller_inv (c\<lparr>ct_queue := q1\<rparr>)" using inv inv1 by (simp add: controller_inv_def)
  moreover have "small_payloads q1"
    using no_waiting_small [OF _ q(1)] inv by (auto simp: controller_inv_def small_payloads_def q1_def i1_def)
  ultimately have "controller_inv (c\<lparr>ct_queue := q1\<lparr>wq_pending := [], wq_active := (wq_active q1)(?k \<mapsto> i')\<rparr>, ct_workers := p'\<rparr>)"
    using schedule_controller_inv [of "c\<lparr>ct_queue := q1\<rparr>"] s(1) by (simp add: schedule_controller_def)
  moreover have "inv_req i1 = inv_req i0" "inv_payload i1 = [em_payload m]" "inv_source i1 = message_source m"
    using Invocation_ok [OF i0] by (simp_all add: i1_def)
  ultimately have "handed_over m req c (c\<lparr>ct_queue := q1\<lparr>wq_pending := [], wq_active := (wq_active q1)(?k \<mapsto> i')\<rparr>, ct_workers := p'\<rparr>) w h"
    using i0 s unfolding handed_over_def by auto
  with c1 s(1) show ?thesis by (simp add: schedule_controller_def) blast
qed

lemma handed_over_request:
  assumes m: "parse (em_msg m) = Inr (InvocationRequestPtr req)" and "handed_over m req c c' w h"
  shows "\<exists>r. parse_message h = Inr (InvocationRequestV r) \<and> irq_function_name r = function_name req \<and>
           irq_invocation_id r = invocation_id req \<and> irq_buffers r = 1 \<and>
           irq_buffers_lengths r 0 = i32_of_size (buf_len (em_payload m))"
proof -
  from assms(2) obtain t i0 i1 where i: "Invocation (function_name req) (invocation_id req) t (message_source m) = Inr i0"
      "inv_req i1 = inv_req i0" "inv_payload i1 = [em_payload m]" "submitted i1 h"
    by (auto simp: handed_over_def)
  from submitted_request [OF i(1,4,2)] i(3) parsed_invocation_names [OF m] show ?thesis
    by (auto simp: i32_of_size_def)
qed

lemma finish_absent: "status_of q iid = Absent \<Longrightarrow> fst (wq_finish now iid q) = None"
  by (simp add: status_of_cases wq_finish_def)

lemma result_returned:
  assumes inv: "controller_inv c"
    and w: "w < length (wp_workers (ct_workers c))" "fw_busy (wp_workers (ct_workers c) ! w)"
    and i: "wq_active (ct_queue c) iid = Some i" "inv_active i" "is_remote (inv_source i)"
  shows "\<exists>c'. process_worker_result now w iid code payload c = Inr c' \<and> controller_inv c' \<and>
           ct_server c' = ct_server c @
             [ServerInvocationResult (src_type (inv_source i)) (src_process (inv_source i)) iid code payload] \<and>
           \<not> fw_busy (wp_workers (ct_workers c') ! w) \<and>
           wp_idle (ct_workers c') = wp_idle (ct_workers c) + 1 \<and>
           wq_pending (ct_queue c') = wq_pending (ct_queue c) \<and> status_of (ct_queue c') iid = Absent"
proof -
  have fin: "wq_finish now iid (ct_queue c) =
      (Some (i\<lparr>inv_end := now\<rparr>), (ct_queue c)\<lparr>wq_active := (wq_active (ct_queue c))(iid := None)\<rparr>)"
    using i by (simp add: wq_finish_def)
  define c' where "c' = server_call (ServerInvocationResult (src_type (inv_source i)) (src_process (inv_source i)) iid code payload)
      (c\<lparr>ct_queue := (ct_queue c)\<lparr>wq_active := (wq_active (ct_queue c))(iid := None)\<rparr>,
         ct_workers := workers_finish w (ct_workers c)\<rparr>)"
  have r: "process_worker_result now w iid code payload c = Inr c'"
    using i(3) by (simp add: process_worker_result_def fin process_invocation_result_def server_call_def c'_def)
  from process_worker_result_inv [OF inv w r] r w show ?thesis
    by (simp add: c'_def server_call_def workers_finish_def status_of_cases)
qed

text \<open>The same for the iterations of the polling loop.\<close>

lemma poll_hands_over:
  assumes inv: "controller_inv c" and idle: "has_idle_workers (ct_workers c)"
    and q: "wq_pending (ct_queue c) = []" "status_of (ct_queue c) (invocation_id req) = Absent" "ct_updates c = []"
    and m: "parse (em_msg m) = Inr (InvocationRequestPtr req)"
    and t: "get_trigger (wq_functions (ct_queue c)) (function_name req) = Some t"
  shows "\<exists>c' w h. poll_iteration ser now [WakeUp] (c\<lparr>ct_external := [m]\<rparr>) = Inr c' \<and> handed_over m req c c' w h"
proof -
  let ?c = "c\<lparr>ct_external := []\<rparr>"
  have "controller_inv ?c" using inv by (simp add: controller_inv_def)
  from external_handed_over [OF this, of req m t now] idle q(1,2) m t obtain c1 c2 w h where
    c: "process_external_message now m ?c = Inr c1" "ct_updates c1 = []" "schedule_controller c1 = Inr c2" "handed_over m req ?c c2 w h"
    using q(3) by auto
  moreover have "handed_over m req c c2 w h" using c(4) by (simp add: handed_over_def)
  ultimately show ?thesis by (simp add: poll_iteration_def) blast
qed

lemma poll_returns_result:
  assumes inv: "controller_inv c" "wq_pending (ct_queue c) = []"
    and w: "w < length (wp_workers (ct_workers c))" "fw_busy (wp_workers (ct_workers c) ! w)"
    and i: "wq_active (ct_queue c) (irs_invocation_id r) = Some i" "inv_active i" "is_remote (inv_source i)"
    and h: "parse_message h = Inr (InvocationResultV r)"
  shows "\<exists>c'. poll_iteration ser now [WorkerMessage w h b] c = Inr c' \<and> controller_inv c' \<and>
           ct_server c' = ct_server c @ [ServerInvocationResult (src_type (inv_source i)) (src_process (inv_source i))
              (irs_invocation_id r) (irs_return_code r) (buffer_data b)] \<and>
           \<not> fw_busy (wp_workers (ct_workers c') ! w) \<and> status_of (ct_queue c') (irs_invocation_id r) = Absent"
proof -
  obtain c' where c': "process_worker_result now w (irs_invocation_id r) (irs_return_code r) (buffer_data b) c = Inr c'" "controller_inv c'"
      "ct_server c' = ct_server c @ [ServerInvocationResult (src_type (inv_source i)) (src_process (inv_source i))
          (irs_invocation_id r) (irs_return_code r) (buffer_data b)]"
      "\<not> fw_busy (wp_workers (ct_workers c') ! w)" "wq_pending (ct_queue c') = []" "status_of (ct_queue c') (irs_invocation_id r) = Absent"
    using result_returned [OF inv(1) w i, of now "irs_return_code r" "buffer_data b"] inv(2) by auto
  then have "schedule_controller c' = Inr c'"
    by (simp add: schedule_controller_def schedule_done controller_inv_def)
  with c' h show ?thesis by (simp add: poll_iteration_def process_internal_message_def)
qed

section \<open>Properties\<close>

text \<open>
  C26. Scheduling ends, and it is first come, first served: it starts as many of the waiting
  invocations, in order of arrival, as there are idle workers, so that afterwards either no
  invocation waits or no worker is idle. It cannot fail as long as no waiting invocation has more
  payloads than fit a request.
\<close>

theorem schedule_fifo:
  assumes "wq_inv q" and "pool_inv p" and "small_payloads q"
  shows "\<exists>q' p'. schedule q p = Inr (q', p') \<and> wq_inv q' \<and> pool_inv p' \<and>
           (let n = min (nat (wp_idle p)) (length (wq_pending q)) in
            wq_pending q' = drop n (wq_pending q) \<and> wp_idle p' = wp_idle p - int n \<and>
            status_of q' = (\<lambda>k. if k \<in> set (take n (wq_pending q)) then Running else status_of q k))"
  using schedule_result [OF assms] by blast

theorem schedule_fifo_witness:
  "\<exists>q' p'. schedule (WorkQueue Map.empty) \<lparr>wp_workers = [FunctionWorker], wp_idle = 1\<rparr> = Inr (q', p') \<and>
           wq_inv q' \<and> pool_inv p'"
proof -
  have "pool_inv \<lparr>wp_workers = [FunctionWorker], wp_idle = 1\<rparr>" "small_payloads (WorkQueue Map.empty)"
    by (simp_all add: pool_inv_def FunctionWorker_def small_payloads_def WorkQueue_def)
  from schedule_fifo [OF WorkQueue_inv this] show ?thesis by blast
qed

text \<open>
  C6. A request for a known function that arrives from outside reaches a worker: with an idle
  worker and nothing else waiting, handling the message and scheduling makes one idle worker busy
  and sends it, as its only new message, the payload behind a header that the worker parses to
  the function name and invocation id of the request, with one buffer of the payload's length.
  The invocation runs under its source.
\<close>

theorem external_invocation_reaches_worker:
  assumes inv: "controller_inv c" and idle: "has_idle_workers (ct_workers c)"
    and q: "wq_pending (ct_queue c) = []" "status_of (ct_queue c) (invocation_id req) = Absent"
    and m: "parse (em_msg m) = Inr (InvocationRequestPtr req)"
    and t: "get_trigger (wq_functions (ct_queue c)) (function_name req) = Some t"
  shows "\<exists>c1 c2 w h r i.
           process_external_message now m c = Inr c1 \<and> schedule_controller c1 = Inr c2 \<and>
           w < length (wp_workers (ct_workers c)) \<and>
           \<not> fw_busy (wp_workers (ct_workers c) ! w) \<and> fw_busy (wp_workers (ct_workers c2) ! w) \<and>
           fw_sent (wp_workers (ct_workers c2) ! w) =
             fw_sent (wp_workers (ct_workers c) ! w) @ [(h, buffer_data (em_payload m))] \<and>
           parse_message h = Inr (InvocationRequestV r) \<and> irq_function_name r = function_name req \<and>
           irq_invocation_id r = invocation_id req \<and> irq_buffers r = 1 \<and>
           irq_buffers_lengths r 0 = i32_of_size (buf_len (em_payload m)) \<and>
           wq_active (ct_queue c2) (invocation_id req) = Some i \<and> inv_active i \<and>
           inv_source i = message_source m \<and> controller_inv c2"
proof -
  obtain c1 c2 w h where c: "process_external_message now m c = Inr c1" "schedule_controller c1 = Inr c2" "handed_over m req c c2 w h"
    using external_handed_over [OF assms] by blast
  with handed_over_request [OF m c(3)] show ?thesis unfolding handed_over_def by blast
qed

definition example_controller :: controller where
  "example_controller =
     \<lparr>ct_workers = \<lparr>wp_workers = [FunctionWorker, FunctionWorker], wp_idle = 2\<rparr>,
      ct_queue = WorkQueue [''add'' \<mapsto> \<lparr>fn_trigger = DirectTrigger ''add'', fn_module = ''lib'', fn_name = ''add''\<rparr>],
      ct_external = [], ct_app = application_empty, ct_updates = [], ct_mailbox = MessageStore,
      ct_pending = PendingMessages, ct_server = [], ct_ending = False, ct_process_id = ''proc''\<rparr>"

definition example_request :: invocation_request where
  "example_request =
     \<lparr>msg_data = put_cstr (put_cstr (put_i16 (replicate 70 NUL) 0 4) 42 16 ''id-1'') 10 32 ''add'',
      fname_len = 3, invocation_id_len = 4\<rparr>"

lemma example_controller_inv: "controller_inv example_controller"
  by (simp add: controller_inv_def example_controller_def WorkQueue_inv pool_inv_def FunctionWorker_def
      pending_in_def PendingMessages_def)

lemma example_request_parsed:
  "parse (msg_data example_request) = Inr (InvocationRequestPtr example_request)"
  "function_name example_request = ''add''" "invocation_id example_request = ''id-1''"
proof -
  let ?b = "put_i16 (replicate 70 NUL) 0 4"
  show "parse (msg_data example_request) = Inr (InvocationRequestPtr example_request)"
    by (simp add: example_request_def parse_def message_simps no_nul_def)
  have "peek (put_cstr (put_cstr ?b 42 16 ''id-1'') 10 32 ''add'') 10 (length ''add'') = ''add''"
    by (rule peek_put_cstr_prefix) (simp_all add: no_nul_def)
  then show "function_name example_request = ''add''" by (simp add: example_request_def function_name_def numeral_eq_Suc)
  have "peek (put_cstr ?b 42 16 ''id-1'') 42 (length ''id-1'') = ''id-1''"
    by (rule peek_put_cstr_prefix) (simp_all add: no_nul_def)
  then show "invocation_id example_request = ''id-1''"
    by (simp add: example_request_def invocation_id_def peek_put_other numeral_eq_Suc)
qed

theorem external_invocation_reaches_worker_witness:
  "\<exists>c1 c2 w. process_external_message 5
       \<lparr>em_source_type = DATA_PLANE, em_source = None, em_msg = msg_data example_request, em_payload = Buffer_new 3\<rparr>
       example_controller = Inr c1 \<and>
     schedule_controller c1 = Inr c2 \<and> fw_busy (wp_workers (ct_workers c2) ! w) \<and> controller_inv c2"
proof -
  let ?m = "\<lparr>em_source_type = DATA_PLANE, em_source = None, em_msg = msg_data example_request, em_payload = Buffer_new 3\<rparr>"
  have "has_idle_workers (ct_workers example_controller)" "wq_pending (ct_queue example_controller) = []"
      "status_of (ct_queue example_controller) (invocation_id example_request) = Absent"
      "parse (em_msg ?m) = Inr (InvocationRequestPtr example_request)"
      "get_trigger (wq_functions (ct_queue example_controller)) (function_name example_request) = Some (DirectTrigger ''add'')"
    using example_request_parsed
    by (simp_all add: example_controller_def has_idle_workers_def WorkQueue_def status_of_def get_trigger_def)
  from external_invocation_reaches_worker [OF example_controller_inv this, of 5] show ?thesis by blast
qed

text \<open>
  The result of an invocation goes back to where it came from, once: when a busy worker
  reports the result of a running invocation that came from outside, the server is asked exactly
  once to send this result, with its return code and payload, to the source of the request; the
  worker is idle again, the invocation is gone, and a second report finds none.
\<close>

lemma result_returns_to_source:
  assumes inv: "controller_inv c"
    and w: "w < length (wp_workers (ct_workers c))" "fw_busy (wp_workers (ct_workers c) ! w)"
    and i: "wq_active (ct_queue c) iid = Some i" "inv_active i" "is_remote (inv_source i)"
  shows "\<exists>c'. process_worker_result now w iid code payload c = Inr c' \<and> controller_inv c' \<and>
           ct_server c' = ct_server c @
             [ServerInvocationResult (src_type (inv_source i)) (src_process (inv_source i)) iid code payload] \<and>
           \<not> fw_busy (wp_workers (ct_workers c') ! w) \<and>
           wp_idle (ct_workers c') = wp_idle (ct_workers c) + 1 \<and>
           status_of (ct_queue c') iid = Absent \<and> fst (wq_finish now' iid (ct_queue c')) = None"
  using result_returned [OF assms] finish_absent by metis

definition example_running :: "invocation_source \<Rightarrow> controller" where
  "example_running src = example_controller\<lparr>
     ct_workers := \<lparr>wp_workers = [FunctionWorker\<lparr>fw_busy := True\<rparr>, FunctionWorker], wp_idle = 1\<rparr>,
     ct_queue := \<lparr>wq_pending = [],
       wq_active = [''id-1'' \<mapsto> \<lparr>inv_start = 0, inv_end = 0, inv_req = ipc_InvocationRequest, inv_payload = [],
         inv_trigger = DirectTrigger ''add'', inv_active = True, inv_source = src\<rparr>],
       wq_functions = Map.empty\<rparr>\<rparr>"

lemma example_running_inv: "controller_inv (example_running src)"
  by (simp add: controller_inv_def pool_inv_def FunctionWorker_def wq_inv_def status_of_def ipc_ctors
      example_running_def example_controller_def pending_in_def PendingMessages_def)

lemma result_returns_to_source_witness:
  "\<exists>c'. process_worker_result 9 0 ''id-1'' 0 ''out'' (example_running (from_process ''peer'')) = Inr c' \<and>
        ct_server c' = [ServerInvocationResult PROCESS (Some ''peer'') ''id-1'' 0 ''out'']"
proof -
  let ?c = "example_running (from_process ''peer'')"
  obtain i where i: "wq_active (ct_queue ?c) ''id-1'' = Some i" "inv_active i" "inv_source i = from_process ''peer''"
    by (simp add: example_running_def)
  have "0 < length (wp_workers (ct_workers ?c))" "fw_busy (wp_workers (ct_workers ?c) ! 0)"
      "is_remote (inv_source i)" "ct_server ?c = []"
    using i(3) by (simp_all add: example_running_def is_remote_def from_process_def example_controller_def)
  with result_returns_to_source [OF example_running_inv, of 0 "from_process ''peer''" "''id-1''" i 9 0 "''out''"] i
  show ?thesis by (auto simp: from_process_def)
qed

lemma send_workers_count:
  assumes "\<forall>w \<in> set ws. w < length (wp_workers (ct_workers c))" and "a < length (wp_workers (ct_workers c))"
  shows "fw_sent (wp_workers (ct_workers (send_workers ws h d c)) ! a) =
     fw_sent (wp_workers (ct_workers c) ! a) @
     replicate (count_list ws a) (set_ipc_total_length (i32_of_size (length d)) h, d)"
  using assms
proof (induction ws arbitrary: c)
  case (Cons w ws)
  have "count_list (w # ws) a = (if w = a then Suc (count_list ws a) else count_list ws a)" by simp
  with Cons.prems Cons.IH [of "send_worker w h d c"] show ?case
    by (auto simp: send_worker_nth worker_send_def replicate_append_same)
qed simp

text \<open>Replies of the controller, as the worker parses them.\<close>

lemma build_result_parsed:
  assumes "no_nul iid" and "length iid \<le> 16"
  shows "\<exists>r m. build_result iid code n = Inr r \<and>
           parse_message (set_ipc_total_length n32 (irs_data r)) = Inr (InvocationResultV m) \<and>
           irs_invocation_id m = iid \<and> irs_return_code m = code \<and> irs_buffer_length m = i32_of_size n"
  using assms by (simp add: build_result_def ipc_simps parse_message_def)

lemma get_reply_parsed:
  assumes "no_nul p" and "length p \<le> 32" and "no_nul k" and "length k \<le> 32"
  shows "\<exists>h m. get_reply p k = Inr h \<and>
           parse_message (set_ipc_total_length n32 h) = Inr (GetRequestV m) \<and>
           gr_process_id m = p \<and> gr_name m = k \<and> \<not> gr_state m"
  using assms by (simp add: get_reply_def ipc_simps parse_message_def)



text \<open>
  Within a process it does not matter whether the message or the request for it comes first:
  for a key that is free and that nobody waits for, a get of a worker followed by the put of
  another, and the put followed by the get, both send the worker the payload behind a header with
  the key, and both leave the mailbox and the waiting requests as they were.
\<close>

lemma get_put_rendezvous:
  assumes g: "\<not> gr_state g" "gr_name g = k" "gr_process_id g = SELF_PROCESS"
    and u: "\<not> gr_state u" "gr_name u = k" "gr_process_id u = SELF_PROCESS"
    and free: "ms_msgs (ct_mailbox c) k = None" "fst (find_get k (ct_process_id c) (ct_pending c)) = None"
    and names: "no_nul (ct_process_id c)" "length (ct_process_id c) \<le> IPC_NAME_LENGTH" "no_nul k" "length k \<le> IPC_NAME_LENGTH"
    and w: "w < length (wp_workers (ct_workers c))"
  shows "\<exists>c1 c2 d1 d2 h1 h2 m1 m2.
           process_get w g c = Inr c1 \<and> process_put now u b c1 = Inr c2 \<and>
           process_put now u b c = Inr d1 \<and> process_get w g d1 = Inr d2 \<and>
           fw_sent (wp_workers (ct_workers c2) ! w) = fw_sent (wp_workers (ct_workers c) ! w) @ [(h1, buffer_data b)] \<and>
           fw_sent (wp_workers (ct_workers d2) ! w) = fw_sent (wp_workers (ct_workers c) ! w) @ [(h2, buffer_data b)] \<and>
           parse_message h1 = Inr (GetRequestV m1) \<and> gr_name m1 = k \<and>
           parse_message h2 = Inr (GetRequestV m2) \<and> gr_name m2 = k \<and>
           ms_msgs (ct_mailbox c2) = ms_msgs (ct_mailbox c) \<and> ms_msgs (ct_mailbox d2) = ms_msgs (ct_mailbox c) \<and>
           mset (ct_pending c2) = mset (ct_pending c) \<and> mset (ct_pending d2) = mset (ct_pending c)"
proof -
  let ?p = "ct_process_id c" and ?n = "i32_of_size (length (buffer_data b))"
  obtain h1 m1 where h1: "get_reply ?p k = Inr h1"
      "parse_message (set_ipc_total_length ?n h1) = Inr (GetRequestV m1)" "gr_name m1 = k"
    using get_reply_parsed [of ?p k ?n] names by auto
  obtain h2 m2 where h2: "get_reply SELF_PROCESS k = Inr h2"
      "parse_message (set_ipc_total_length ?n h2) = Inr (GetRequestV m2)" "gr_name m2 = k"
    using get_reply_parsed [of SELF_PROCESS k ?n] names by (auto simp: SELF_PROCESS_def no_nul_def)
  let ?ps = "insert_get k ?p w (ct_pending c)"
  have get1: "process_get w g c = Inr (c\<lparr>ct_mailbox := ct_mailbox c, ct_pending := ?ps\<rparr>)"
    using g free(1) by (simp add: process_get_def try_get_def Let_def)
  obtain ps' where ps': "find_get k ?p ?ps = (Some w, ps')" "mset ps' = mset (ct_pending c)"
    using pend.only_waiter_served [OF free(2), of w] by (metis prod.collapse)
  have put1: "process_put now u b (c\<lparr>ct_mailbox := ct_mailbox c, ct_pending := ?ps\<rparr>) =
      Inr (send_worker w h1 (buffer_data b) (c\<lparr>ct_pending := ps'\<rparr>))"
    using u ps'(1) h1(1) by (simp add: process_put_def)
  have "find_get k ?p (ct_pending c) = (None, ct_pending c)"
    using free(2) pend.serve_get_none_same [OF free(2)] by (metis prod.collapse)
  then have put2: "process_put now u b c =
      Inr (c\<lparr>ct_pending := ct_pending c, ct_mailbox := snd (mailbox_put k ?p b (ct_mailbox c))\<rparr>)"
    using u by (simp add: process_put_def)
  let ?mb = "snd (mailbox_put k ?p b (ct_mailbox c))"
  obtain mb where mb: "try_get k ?p ?mb = (Some b, mb)" "ms_msgs mb = ms_msgs (ct_mailbox c)"
    using mbox.get_after_put [OF free(1), of ?p ?p b] by (metis prod.collapse)
  have get2: "process_get w g (c\<lparr>ct_pending := ct_pending c, ct_mailbox := ?mb\<rparr>) =
      Inr (send_worker w h2 (buffer_data b) (c\<lparr>ct_mailbox := mb\<rparr>))"
    using g mb(1) h2(1) by (simp add: process_get_def Let_def)
  show ?thesis
    using get1 put1 put2 get2 h1(2,3) h2(2,3) ps'(2) mb(2) w
    by (simp add: send_worker_nth worker_send_def)
qed

lemma get_put_rendezvous_witness:
  "\<exists>c1 c2 h. process_get 1 (GetRequest\<lparr>gr_data := put_cstr (put_cstr (gr_data GetRequest) 10 32 ''SELF'') 42 32 ''k'',
                                     gr_id_len := 4, gr_name_len := 1\<rparr>) example_controller = Inr c1 \<and>
     process_put 5 (PutRequest\<lparr>gr_data := put_cstr (put_cstr (gr_data PutRequest) 10 32 ''SELF'') 42 32 ''k'',
                              gr_id_len := 4, gr_name_len := 1\<rparr>) (Buffer_new 2) c1 = Inr c2 \<and>
     fw_sent (wp_workers (ct_workers c2) ! 1) = [(h, [])]"
proof -
  let ?r = "\<lambda>r. r\<lparr>gr_data := put_cstr (put_cstr (gr_data r) 10 32 ''SELF'') 42 32 ''k'', gr_id_len := 4, gr_name_len := 1\<rparr>"
  have s: "peek (put_cstr (gr_data r) 10 32 ''SELF'') 10 (length ''SELF'') = ''SELF''"
    if "length (gr_data r) = 128" for r :: generic_request
    using that by (intro peek_put_cstr_prefix) (simp_all add: no_nul_def)
  have k: "peek (put_cstr (put_cstr (gr_data r) 10 32 ''SELF'') 42 32 ''k'') 42 (length ''k'') = ''k''"
    if "length (gr_data r) = 128" for r :: generic_request
    using that by (intro peek_put_cstr_prefix) (simp_all add: no_nul_def)
  have len: "length (gr_data GetRequest) = 128" "length (gr_data PutRequest) = 128"
    by (simp_all add: ipc_ctors ipc_setters)
  have st: "\<not> gr_state (?r GetRequest)" "\<not> gr_state (?r PutRequest)"
    by (simp_all add: ipc_simps)
  have nm: "gr_name (?r GetRequest) = ''k''" "gr_name (?r PutRequest) = ''k''"
      "gr_process_id (?r GetRequest) = SELF_PROCESS" "gr_process_id (?r PutRequest) = SELF_PROCESS"
    using s [OF len(1)] s [OF len(2)] k [OF len(1)] k [OF len(2)] len
    by (simp_all add: gr_name_def gr_process_id_def SELF_PROCESS_def peek_put_other numeral_eq_Suc)
  have "ms_msgs (ct_mailbox example_controller) ''k'' = None"
      "fst (find_get ''k'' (ct_process_id example_controller) (ct_pending example_controller)) = None"
      "no_nul (ct_process_id example_controller)" "length (ct_process_id example_controller) \<le> IPC_NAME_LENGTH"
      "no_nul ''k''" "length ''k'' \<le> IPC_NAME_LENGTH" "1 < length (wp_workers (ct_workers example_controller))"
      "fw_sent (wp_workers (ct_workers example_controller) ! 1) = []"
    by (simp_all add: example_controller_def MessageStore_def PendingMessages_def no_nul_def FunctionWorker_def)
  with get_put_rendezvous [of "?r GetRequest" "''k''" "?r PutRequest" example_controller 1 5 "Buffer_new 2"] st nm
  show ?thesis by auto
qed





end
