(* ===== verification/Remote.thy ===== *)
theory Remote
  imports Controller
begin

text \<open>
  The TCP server of a process: \<^verbatim>\<open>src/process/controller/src/remote.cpp\<close> and \<^verbatim>\<open>remote.hpp\<close>. It
  keeps a table of connections by name, splits the byte stream of every connection into messages
  for the controller, and sends what the controller asks it to send. A socket is a number; what
  has been sent on it is a list of byte strings. A \<^verbatim>\<open>Connection\<close> object is shared between the
  table, the two special pointers and the contexts of the sockets; objects are only created together with
  their entry and entries are never replaced or removed, so that the name of the entry stands for the pointer.
  The event loop runs one callback at a time, and a callback is a function of the state here.
\<close>

section \<open>State\<close>

type_synonym sock = nat

datatype conn_status = DISCONNECTED | CONNECTING | CONNECTED

record connection =
  cn_status :: conn_status
  cn_type :: RemoteType
  cn_id :: "string option"
  cn_conn :: "sock option"
  cn_ip_address :: string
  cn_port :: int32
  cn_cur_msg :: bytes
  cn_parsed_msg :: MessageVariants
  cn_bytes_to_read :: nat
  cn_client :: "(string \<times> int16) option"
  cn_pendings_msgs :: "(bytes \<times> buffer) list"

definition Connection :: "conn_status \<Rightarrow> RemoteType \<Rightarrow> string option \<Rightarrow> sock option \<Rightarrow> string \<Rightarrow> int32 \<Rightarrow> connection" where
  "Connection st ty cid conn ip pt =
     \<lparr>cn_status = st, cn_type = ty, cn_id = cid, cn_conn = conn, cn_ip_address = ip, cn_port = pt,
      cn_cur_msg = replicate BUF_SIZE NUL, cn_parsed_msg = Monostate, cn_bytes_to_read = 0,
      cn_client = None, cn_pendings_msgs = []\<rparr>"

record tcp_server =
  sv_controller :: controller
  sv_buffers :: buffer_queue
  sv_connections :: "string \<Rightarrow> connection option"
  sv_data_plane :: "string option"
  sv_control_plane :: "string option"
  sv_context :: "sock \<Rightarrow> string option"
  sv_sent :: "sock \<Rightarrow> bytes list"

definition DATAPLANE_ID :: string where "DATAPLANE_ID = ''DATA_PLANE''"
definition CONTROLPLANE_ID :: string where "CONTROLPLANE_ID = ''CONTROL_PLANE''"

definition TCPServer :: "controller \<Rightarrow> tcp_server" where
  "TCPServer c = \<lparr>sv_controller = c, sv_buffers = [], sv_connections = Map.empty, sv_data_plane = None,
     sv_control_plane = None, sv_context = Map.empty, sv_sent = (\<lambda>_. [])\<rparr>"

definition set_connection :: "string \<Rightarrow> connection \<Rightarrow> tcp_server \<Rightarrow> tcp_server" where
  "set_connection k cn s = s\<lparr>sv_connections := (sv_connections s)(k \<mapsto> cn)\<rparr>"

definition sock_send :: "sock \<Rightarrow> bytes \<Rightarrow> tcp_server \<Rightarrow> tcp_server" where
  "sock_send sk d s = s\<lparr>sv_sent := (sv_sent s)(sk := sv_sent s sk @ [d])\<rparr>"

section \<open>Messages with a payload\<close>

text \<open>\<^verbatim>\<open>std::copy_n\<close> into a buffer, then \<^verbatim>\<open>len\<close>: past the end of the array it is undefined.\<close>

definition fill_buffer :: "bytes \<Rightarrow> buffer \<Rightarrow> buffer result" where
  "fill_buffer d b =
     (if length d \<le> buf_size b
      then Inr (b\<lparr>buf_ptr := map_option (\<lambda>m. poke m 0 d) (buf_ptr b), buf_len := length d\<rparr>)
      else Inl UndefinedBehaviour)"

text \<open>The id of a connection of a process, \<^verbatim>\<open>connection.id.value()\<close>.\<close>

definition conn_id :: "connection \<Rightarrow> string result" where
  "conn_id cn = (case cn_id cn of None \<Rightarrow> Inl BadOptionalAccess | Some i \<Rightarrow> Inr i)"

definition handle_invocation ::
    "string \<Rightarrow> connection \<Rightarrow> invocation_request \<Rightarrow> bytes \<Rightarrow> tcp_server \<Rightarrow> (bool \<times> bytes \<times> tcp_server) result" where
  "handle_invocation k cn msg buffer s =
     (let sz = size_of_i32 (payload_size msg);
          (cn1, buffer1) = (if cn_bytes_to_read cn = 0
                            then (cn\<lparr>cn_bytes_to_read := sz\<rparr>, drop BUF_SIZE buffer) else (cn, buffer)) in
      if length buffer1 \<ge> sz then
        (let (b, bufs) = retrieve_buffer sz (sv_buffers s) in
         and_then (fill_buffer (take sz buffer1) b) (\<lambda>buf.
         and_then
           (if cn_type cn1 = DATA_PLANE then Inr (dataplane_message (cn_cur_msg cn1) buf (sv_controller s))
            else if cn_type cn1 = CONTROL_PLANE then Inr (controlplane_message (cn_cur_msg cn1) buf (sv_controller s))
            else and_then (conn_id cn1) (\<lambda>i. Inr (remote_message (cn_cur_msg cn1) buf i (sv_controller s)))) (\<lambda>c.
         Inr (True, drop sz buffer1,
              set_connection k (cn1\<lparr>cn_bytes_to_read := 0\<rparr>) (s\<lparr>sv_buffers := bufs, sv_controller := c\<rparr>)))))
      else Inr (False, buffer1, set_connection k cn1 s))"

definition handle_invocation_result ::
    "string \<Rightarrow> connection \<Rightarrow> invocation_result \<Rightarrow> bytes \<Rightarrow> tcp_server \<Rightarrow> (bool \<times> bytes \<times> tcp_server) result" where
  "handle_invocation_result k cn msg buffer s =
     (let (cn1, buffer1) = (if cn_bytes_to_read cn = 0
                            then (cn\<lparr>cn_bytes_to_read := size_of_i32 (total_length msg)\<rparr>, drop BUF_SIZE buffer)
                            else (cn, buffer));
          sz = cn_bytes_to_read cn1 in
      if length buffer1 \<ge> sz then
        (let (b, bufs) = retrieve_buffer sz (sv_buffers s) in
         and_then (fill_buffer (take sz buffer1) b) (\<lambda>buf.
         and_then (conn_id cn1) (\<lambda>i.
         Inr (True, drop sz buffer1,
              set_connection k (cn1\<lparr>cn_bytes_to_read := 0\<rparr>)
                (s\<lparr>sv_buffers := bufs, sv_controller := remote_message (cn_cur_msg cn1) buf i (sv_controller s)\<rparr>)))))
      else Inr (False, buffer1, set_connection k cn1 s))"

definition handle_put_message ::
    "string \<Rightarrow> connection \<Rightarrow> put_message \<Rightarrow> bytes \<Rightarrow> tcp_server \<Rightarrow> (bool \<times> bytes \<times> tcp_server) result" where
  "handle_put_message k cn msg buffer s =
     (let (cn1, buffer1) = (if cn_bytes_to_read cn = 0
                            then (cn\<lparr>cn_bytes_to_read := size_of_i32 (total_length msg)\<rparr>, drop BUF_SIZE buffer)
                            else (cn, buffer));
          sz = cn_bytes_to_read cn1 in
      if length buffer1 \<ge> sz then
        (let (b, bufs) = retrieve_buffer sz (sv_buffers s) in
         and_then (fill_buffer (take sz buffer1) b) (\<lambda>buf.
         and_then (conn_id cn1) (\<lambda>i.
         Inr (True, drop sz buffer1,
              set_connection k (cn1\<lparr>cn_bytes_to_read := 0\<rparr>)
                (s\<lparr>sv_buffers := bufs, sv_controller := remote_message (cn_cur_msg cn1) buf i (sv_controller s)\<rparr>)))))
      else Inr (False, buffer1, set_connection k cn1 s))"

section \<open>Registration and updates\<close>

definition set_plane :: "string \<Rightarrow> tcp_server \<Rightarrow> tcp_server" where
  "set_plane name s =
     (if name = DATAPLANE_ID then s\<lparr>sv_data_plane := Some name\<rparr>
      else if name = CONTROLPLANE_ID then s\<lparr>sv_control_plane := Some name\<rparr> else s)"

definition handle_connection :: "sock \<Rightarrow> process_connection \<Rightarrow> tcp_server \<Rightarrow> tcp_server result" where
  "handle_connection sk msg s =
     (let name = process_name msg;
          cn = (case sv_connections s name of
                  Some old \<Rightarrow> old\<lparr>cn_conn := Some sk, cn_status := CONNECTED\<rparr>
                | None \<Rightarrow>
                    if name = DATAPLANE_ID then Connection CONNECTED DATA_PLANE None (Some sk) [] 0
                    else if name = CONTROLPLANE_ID then Connection CONNECTED CONTROL_PLANE None (Some sk) [] 0
                    else Connection CONNECTED PROCESS (Some name) (Some sk) [] 0);
          s1 = set_plane name (set_connection name cn s);
          s2 = s1\<lparr>sv_context := (sv_context s1)(sk \<mapsto> name)\<rparr> in
      and_then (set_process_name ''CORRECT'' (ProcessConnection MessageData_default)) (\<lambda>req.
      Inr (sock_send sk (msg_data req) s2)))"

definition handle_app_update :: "application_update \<Rightarrow> tcp_server \<Rightarrow> tcp_server" where
  "handle_app_update msg s =
     (let pid = update_process_id msg;
          s1 = s\<lparr>sv_controller := update_application (status_of_code (status_change msg)) pid (sv_controller s)\<rparr> in
      set_connection pid
        (case sv_connections s1 pid of
           Some cn \<Rightarrow> cn\<lparr>cn_ip_address := ip_address msg, cn_port := update_port msg\<rparr>
         | None \<Rightarrow> Connection DISCONNECTED PROCESS (Some pid) None (ip_address msg) (update_port msg)) s1)"

section \<open>Incoming bytes\<close>

text \<open>The second part of a message whose header has been read.\<close>

definition continue_message ::
    "string \<Rightarrow> connection \<Rightarrow> bytes \<Rightarrow> tcp_server \<Rightarrow> (bool \<times> bytes \<times> tcp_server) result" where
  "continue_message k cn buffer s =
     (case cn_parsed_msg cn of
        InvocationRequestPtr m \<Rightarrow> handle_invocation k cn m buffer s
      | PutMessagePtr m \<Rightarrow> handle_put_message k cn m buffer s
      | InvocationResultPtr m \<Rightarrow> handle_invocation_result k cn m buffer s
      | _ \<Rightarrow> Inr (False, buffer, s))"

definition start_message ::
    "string \<Rightarrow> connection \<Rightarrow> bytes \<Rightarrow> tcp_server \<Rightarrow> (bool \<times> bytes \<times> tcp_server) result" where
  "start_message k cn buffer s =
     (let cur = take BUF_SIZE buffer in
      and_then (parse cur) (\<lambda>v.
      let cn1 = cn\<lparr>cn_cur_msg := cur, cn_parsed_msg := v\<rparr>; s1 = set_connection k cn1 s in
      case v of
        InvocationRequestPtr m \<Rightarrow> handle_invocation k cn1 m buffer s1
      | InvocationResultPtr m \<Rightarrow> handle_invocation_result k cn1 m buffer s1
      | PutMessagePtr m \<Rightarrow> handle_put_message k cn1 m buffer s1
      | ProcessConnectionPtr m \<Rightarrow> Inr (True, drop BUF_SIZE buffer, s1)
      | ApplicationUpdatePtr m \<Rightarrow> Inr (True, drop BUF_SIZE buffer, handle_app_update m s1)
      | _ \<Rightarrow> Inr (True, drop BUF_SIZE buffer, s1)))"

text \<open>A handler that completes a message has taken at least its header off the buffer.\<close>

lemma handle_invocation_shortens:
  assumes "handle_invocation k cn m buffer s = Inr (True, buffer', s')" and "cn_bytes_to_read cn = 0"
  shows "length buffer' \<le> length buffer - BUF_SIZE"
proof -
  have "buffer' = drop (size_of_i32 (payload_size m)) (drop BUF_SIZE buffer)"
    using assms by (auto simp: handle_invocation_def and_then_eq_Inr Let_def split: prod.splits if_splits)
  then show ?thesis by simp
qed

lemma handle_invocation_result_shortens:
  assumes "handle_invocation_result k cn m buffer s = Inr (True, buffer', s')" and "cn_bytes_to_read cn = 0"
  shows "length buffer' \<le> length buffer - BUF_SIZE"
proof -
  have "buffer' = drop (size_of_i32 (total_length m)) (drop BUF_SIZE buffer)"
    using assms by (auto simp: handle_invocation_result_def and_then_eq_Inr Let_def split: prod.splits if_splits)
  then show ?thesis by simp
qed

lemma handle_put_message_shortens:
  assumes "handle_put_message k cn m buffer s = Inr (True, buffer', s')" and "cn_bytes_to_read cn = 0"
  shows "length buffer' \<le> length buffer - BUF_SIZE"
proof -
  have "buffer' = drop (size_of_i32 (total_length m)) (drop BUF_SIZE buffer)"
    using assms by (auto simp: handle_put_message_def and_then_eq_Inr Let_def split: prod.splits if_splits)
  then show ?thesis by simp
qed

lemmas handlers_shorten =
  handle_invocation_shortens handle_invocation_result_shortens handle_put_message_shortens

lemma start_message_shortens:
  assumes "start_message k cn buffer s = Inr (True, buffer', s')" and "cn_bytes_to_read cn = 0"
  shows "length buffer' \<le> length buffer - BUF_SIZE"
proof -
  from assms(1) obtain v where "parse (take BUF_SIZE buffer) = Inr v"
    by (auto simp: start_message_def Let_def and_then_eq_Inr)
  with assms show ?thesis
    by (cases v) (auto simp: start_message_def Let_def dest!: handlers_shorten)
qed

lemmas [fundef_cong] = and_then_cong

function handle_message :: "sock \<Rightarrow> bytes \<Rightarrow> tcp_server \<Rightarrow> (bytes \<times> tcp_server) result" where
  "handle_message sk buffer s =
     (case sv_context s sk of
        None \<Rightarrow>
          if length buffer < BUF_SIZE then Inr (buffer, s)
          else and_then (parse (take BUF_SIZE buffer)) (\<lambda>v.
               and_then (case v of ProcessConnectionPtr m \<Rightarrow> handle_connection sk m s | _ \<Rightarrow> Inr s) (\<lambda>s1.
               if length (drop BUF_SIZE buffer) > 0 then handle_message sk (drop BUF_SIZE buffer) s1
               else Inr (drop BUF_SIZE buffer, s1)))
      | Some k \<Rightarrow>
          (case sv_connections s k of
             None \<Rightarrow> Inl UndefinedBehaviour
           | Some cn \<Rightarrow>
               if cn_bytes_to_read cn > 0 then
                 if length buffer < cn_bytes_to_read cn then Inr (buffer, s)
                 else and_then (continue_message k cn buffer s) (\<lambda>(_, buffer1, s1). Inr (buffer1, s1))
               else if length buffer < BUF_SIZE then Inr (buffer, s)
               else and_then (start_message k cn buffer s) (\<lambda>(consumed, buffer1, s1).
                    if consumed \<and> length buffer1 > 0 then handle_message sk buffer1 s1
                    else Inr (buffer1, s1))))"
  by pat_completeness auto
termination
proof (relation "measure (\<lambda>(sk, buffer, s). length buffer)", goal_cases)
  case 1
  then show ?case by simp
next
  case (2 sk buffer s v s1)
  then show ?case by (simp add: BUF_SIZE_def)
next
  case (3 sk buffer s k cn r consumed x buffer1 s1)
  then have "start_message k cn buffer s = Inr (True, buffer1, s1)" by simp
  then have "length buffer1 \<le> length buffer - BUF_SIZE" using 3 by (intro start_message_shortens) auto
  with 3 show ?case by (auto simp: BUF_SIZE_def)
qed

text \<open>
  The receive callback: the library appends the bytes that arrived to the buffer of the socket
  and hands over the whole buffer; what a run of callbacks leaves is the buffer of the next.
\<close>

fun receive_chunks :: "sock \<Rightarrow> bytes list \<Rightarrow> bytes \<Rightarrow> tcp_server \<Rightarrow> (bytes \<times> tcp_server) result" where
  "receive_chunks sk [] buffer s = Inr (buffer, s)"
| "receive_chunks sk (chunk # chunks) buffer s =
     and_then (handle_message sk (buffer @ chunk) s) (\<lambda>(buffer1, s1). receive_chunks sk chunks buffer1 s1)"

section \<open>Outgoing messages\<close>

definition build_put :: "string \<Rightarrow> string \<Rightarrow> nat \<Rightarrow> bytes result" where
  "build_put nm pid len =
     and_then (set_put_name nm (PutMessage MessageData_default)) (\<lambda>m1.
     and_then (set_put_process_id pid m1) (\<lambda>m2.
     Inr (msg_data (set_total_length (i32_of_size len) m2))))"

definition build_request :: "string \<Rightarrow> string \<Rightarrow> nat \<Rightarrow> bytes result" where
  "build_request iid fname len =
     and_then (set_invocation_id iid (InvocationRequest MessageData_default)) (\<lambda>m1.
     and_then (set_function_name fname m1) (\<lambda>m2.
     and_then (set_payload_size (i32_of_size len) m2) (\<lambda>m3.
     Inr (msg_data (set_total_length (i32_of_size len) m3)))))"

definition build_registration :: "tcp_server \<Rightarrow> bytes result" where
  "build_registration s =
     and_then (set_process_name (ct_process_id (sv_controller s)) (ProcessConnection MessageData_default))
       (\<lambda>req. Inr (msg_data req))"

definition server_invocation_result ::
    "RemoteType \<Rightarrow> string option \<Rightarrow> string \<Rightarrow> int32 \<Rightarrow> bytes \<Rightarrow> tcp_server \<Rightarrow> tcp_server result" where
  "server_invocation_result source remote iid code payload s =
     (let conn = (if source = DATA_PLANE then sv_data_plane s
                  else if source = CONTROL_PLANE then sv_control_plane s else remote) in
      case Option.bind conn (sv_connections s) of
        None \<Rightarrow> Inr s
      | Some cn \<Rightarrow>
          and_then (set_result_id iid (InvocationResult MessageData_default)) (\<lambda>m1.
          let req = set_total_length (i32_of_size (length payload)) (set_return_code code m1) in
          (case cn_conn cn of
             None \<Rightarrow> Inl UndefinedBehaviour
           | Some sk \<Rightarrow>
               let s1 = sock_send sk (msg_data req) s in
               Inr (if length payload > 0 then sock_send sk payload s1 else s1))))"

text \<open>\<^verbatim>\<open>_connect\<close> starts a client; the library calls the connection callback later.\<close>

definition server_connect :: "connection \<Rightarrow> connection" where
  "server_connect cn =
     cn\<lparr>cn_status := CONNECTING, cn_client := Some (cn_ip_address cn, ucast (cn_port cn))\<rparr>"

definition submit_message :: "string \<Rightarrow> bytes result \<Rightarrow> buffer \<Rightarrow> tcp_server \<Rightarrow> tcp_server result" where
  "submit_message pid req payload s =
     (case sv_connections s pid of
        None \<Rightarrow> Inr s
      | Some cn \<Rightarrow>
          and_then req (\<lambda>h.
          case cn_conn cn of
            None \<Rightarrow>
              let cn1 = cn\<lparr>cn_pendings_msgs := cn_pendings_msgs cn @ [(h, payload)]\<rparr> in
              Inr (set_connection pid (if cn_status cn1 = DISCONNECTED then server_connect cn1 else cn1) s)
          | Some sk \<Rightarrow> Inr (sock_send sk (buffer_data payload) (sock_send sk h s))))"

definition server_put_message :: "string \<Rightarrow> string \<Rightarrow> buffer \<Rightarrow> tcp_server \<Rightarrow> tcp_server result" where
  "server_put_message pid nm payload s =
     submit_message pid (build_put nm (ct_process_id (sv_controller s)) (buf_len payload)) payload s"

definition server_invocation_request ::
    "string \<Rightarrow> string \<Rightarrow> string \<Rightarrow> buffer \<Rightarrow> tcp_server \<Rightarrow> tcp_server result" where
  "server_invocation_request pid fname iid payload s =
     submit_message pid (build_request iid fname (buf_len payload)) payload s"

text \<open>The calls of the controller, performed on the server.\<close>

fun perform_call :: "server_call \<Rightarrow> tcp_server \<Rightarrow> tcp_server result" where
  "perform_call (ServerInvocationResult src remote iid code payload) s =
     server_invocation_result src remote iid code payload s"
| "perform_call (ServerPutMessage pid nm payload) s = server_put_message pid nm payload s"
| "perform_call (ServerInvocationRequest pid fname iid payload) s =
     server_invocation_request pid fname iid payload s"

section \<open>Callbacks of client connections\<close>

fun send_pending :: "sock \<Rightarrow> (bytes \<times> buffer) list \<Rightarrow> tcp_server \<Rightarrow> tcp_server" where
  "send_pending sk [] s = s"
| "send_pending sk ((h, b) # ps) s =
     send_pending sk ps
       (if buf_len b > 0 then sock_send sk (buffer_data b) (sock_send sk h s) else sock_send sk h s)"

definition client_connected :: "string \<Rightarrow> sock \<Rightarrow> tcp_server \<Rightarrow> tcp_server result" where
  "client_connected k sk s =
     (case sv_connections s k of
        None \<Rightarrow> Inl UndefinedBehaviour
      | Some cn \<Rightarrow>
          and_then (build_registration s) (\<lambda>req.
          let s1 = send_pending sk (cn_pendings_msgs cn) (sock_send sk req s) in
          Inr (set_connection k (cn\<lparr>cn_status := CONNECTED, cn_conn := Some sk, cn_pendings_msgs := []\<rparr>) s1)))"

definition client_disconnected :: "string \<Rightarrow> tcp_server \<Rightarrow> tcp_server" where
  "client_disconnected k s =
     s\<lparr>sv_connections := (sv_connections s)(k := map_option (\<lambda>cn. cn\<lparr>cn_status := DISCONNECTED\<rparr>) (sv_connections s k))\<rparr>"

section \<open>The connection to the control plane\<close>

definition split_address :: "string \<Rightarrow> string \<times> string" where
  "split_address a =
     (if CHR '':'' \<in> set a
      then (takeWhile (\<lambda>c. c \<noteq> CHR '':'') a, tl (dropWhile (\<lambda>c. c \<noteq> CHR '':'') a)) else (a, a))"

definition server_poll :: "string option \<Rightarrow> tcp_server \<Rightarrow> tcp_server result" where
  "server_poll addr s =
     (case addr of
        None \<Rightarrow> Inr s
      | Some a \<Rightarrow>
          let (ip, pt) = split_address a in
          and_then (stoi pt) (\<lambda>port.
          if sv_connections s ''CONTROLPLANE'' \<noteq> None then Inl ProcessExit
          else Inr (set_connection ''CONTROLPLANE''
                 ((Connection CONNECTING CONTROL_PLANE None None [] 0)\<lparr>cn_client := Some (ip, ucast port)\<rparr>)
                 (s\<lparr>sv_control_plane := Some ''CONTROLPLANE''\<rparr>))))"

text \<open>
  The program of a process up to its poll loop: the configuration, the controller and its server,
  which connects to the control plane if the configuration names one. What the
  controller finds in the file of functions is an argument.
\<close>

definition process_main ::
    "cereal \<Rightarrow> (string \<rightharpoonup> json) \<Rightarrow> string option \<Rightarrow> environment \<Rightarrow> string \<Rightarrow> nat \<Rightarrow> json \<Rightarrow> tcp_server result" where
  "process_main ce files config env self_dir pid doc =
     and_then (process_configuration ce files config env) (\<lambda>cfg.
     and_then (Controller self_dir pid cfg doc) (\<lambda>c.
     server_poll (cfg_control_plane_addr cfg) (TCPServer c)))"

definition control_plane_connected :: "sock \<Rightarrow> tcp_server \<Rightarrow> tcp_server result" where
  "control_plane_connected sk s =
     (case sv_connections s ''CONTROLPLANE'' of
        None \<Rightarrow> Inl UndefinedBehaviour
      | Some cn \<Rightarrow>
          and_then (build_registration s) (\<lambda>req.
          Inr (set_connection ''CONTROLPLANE'' (cn\<lparr>cn_conn := Some sk\<rparr>)
            ((sock_send sk req s)\<lparr>sv_context := (sv_context s)(sk \<mapsto> ''CONTROLPLANE'')\<rparr>))))"

definition control_plane_disconnected :: "tcp_server \<Rightarrow> tcp_server" where
  "control_plane_disconnected s = s\<lparr>sv_control_plane := None\<rparr>"

section \<open>The stream of a connection\<close>

text \<open>
  A frame is a header and its payload; the specification of a connection is the list of frames
  that the peer sends. What a connection has still to deliver is the rest of that list, when it
  is between two messages, or the payload of a message whose header it has read.
\<close>

definition payload_length :: "MessageVariants \<Rightarrow> nat option" where
  "payload_length v = (case v of
      InvocationRequestPtr m \<Rightarrow> Some (size_of_i32 (payload_size m))
    | InvocationResultPtr m \<Rightarrow> Some (size_of_i32 (total_length m))
    | PutMessagePtr m \<Rightarrow> Some (size_of_i32 (total_length m))
    | _ \<Rightarrow> None)"

text \<open>What a connection may carry: a peer process everything, the planes only requests.\<close>

definition accepts :: "connection \<Rightarrow> MessageVariants \<Rightarrow> bool" where
  "accepts cn v \<longleftrightarrow>
     (case v of InvocationRequestPtr _ \<Rightarrow> cn_type cn \<in> {DATA_PLANE, CONTROL_PLANE} \<or> cn_id cn \<noteq> None
      | _ \<Rightarrow> cn_type cn = PROCESS \<and> cn_id cn \<noteq> None)"

definition is_frame :: "connection \<Rightarrow> bytes \<times> bytes \<Rightarrow> bool" where
  "is_frame cn f \<longleftrightarrow> length (fst f) = BUF_SIZE \<and>
     (case parse (fst f) of
        Inl _ \<Rightarrow> False
      | Inr v \<Rightarrow> payload_length v = Some (length (snd f)) \<and> accepts cn v)"

definition payload_buffer_of :: "bytes \<Rightarrow> buffer" where
  "payload_buffer_of p = \<lparr>buf_ptr = Some p, buf_size = length p, buf_len = length p\<rparr>"

definition incoming :: "connection \<Rightarrow> bytes \<times> bytes \<Rightarrow> external_message" where
  "incoming cn f =
     \<lparr>em_source_type = (if cn_type cn \<in> {DATA_PLANE, CONTROL_PLANE} then cn_type cn else PROCESS),
      em_source = (if cn_type cn \<in> {DATA_PLANE, CONTROL_PLANE} then None else cn_id cn),
      em_msg = fst f, em_payload = payload_buffer_of (snd f)\<rparr>"

definition deliver :: "external_message list \<Rightarrow> controller \<Rightarrow> controller" where
  "deliver ms c = c\<lparr>ct_external := ct_external c @ ms\<rparr>"

definition reading :: "connection \<Rightarrow> bytes \<Rightarrow> MessageVariants \<Rightarrow> nat \<Rightarrow> connection" where
  "reading cn h v n = cn\<lparr>cn_cur_msg := h, cn_parsed_msg := v, cn_bytes_to_read := n\<rparr>"

lemma fill_fresh: "fill_buffer p (Buffer_new (length p)) = Inr (payload_buffer_of p)"
  by (simp add: fill_buffer_def payload_buffer_of_def Buffer_new_def poke_def)

lemma deliver_simps:
  "deliver [] c = c"
  "deliver ms (deliver ms' c) = deliver (ms' @ ms) c"
  "ct_external (deliver ms c) = ct_external c @ ms"
  by (simp_all add: deliver_def)

lemma reading_simps [simp]:
  "cn_type (reading cn h v n) = cn_type cn"
  "cn_id (reading cn h v n) = cn_id cn"
  "cn_bytes_to_read (reading cn h v n) = n"
  "cn_cur_msg (reading cn h v n) = h"
  "cn_parsed_msg (reading cn h v n) = v"
  "reading (reading cn h' v' n') h v n = reading cn h v n"
  "incoming (reading cn h v n) = incoming cn"
  "is_frame (reading cn h v n) = is_frame cn"
  by (simp_all add: reading_def incoming_def is_frame_def accepts_def fun_eq_iff cong: sum.case_cong MessageVariants.case_cong)

lemmas payload_handlers = handle_invocation_def handle_invocation_result_def handle_put_message_def
  remote_message_def dataplane_message_def controlplane_message_def

lemma continue_message_frame:
  assumes "is_frame cn (h, p)" and "parse h = Inr v" and "p \<noteq> []" and "sv_buffers s = []"
  shows "continue_message k (reading cn h v (length p)) (p @ b) s =
           Inr (True, b, set_connection k (reading cn h v 0)
                  (s\<lparr>sv_controller := deliver [incoming cn (h, p)] (sv_controller s)\<rparr>))"
  using assms
  by (cases v; cases "cn_type cn")
     (auto simp: is_frame_def payload_length_def accepts_def continue_message_def payload_handlers Let_def
       allocate_buffer_def fill_fresh conn_id_def incoming_def deliver_def reading_def set_connection_def)

lemma start_message_frame:
  assumes "is_frame cn (h, p)" and "parse h = Inr v" and "sv_buffers s = []" and "cn_bytes_to_read cn = 0"
  shows "start_message k cn (h @ p @ b) s =
           Inr (True, b, set_connection k (reading cn h v 0)
                  (s\<lparr>sv_controller := deliver [incoming cn (h, p)] (sv_controller s)\<rparr>))"
    and "length b < length p \<Longrightarrow> start_message k cn (h @ b) s =
           Inr (False, b, set_connection k (reading cn h v (length p)) s)"
  using assms
  by (cases v; cases "cn_type cn";
     auto simp: is_frame_def payload_length_def accepts_def start_message_def payload_handlers Let_def
       allocate_buffer_def fill_fresh conn_id_def incoming_def deliver_def reading_def set_connection_def)+


declare handle_message.simps [simp del]

lemma handle_message_registered:
  assumes "sv_context s sk = Some k" and "sv_connections s k = Some cn"
  shows "0 < cn_bytes_to_read cn \<Longrightarrow> handle_message sk buffer s =
           (if length buffer < cn_bytes_to_read cn then Inr (buffer, s)
            else and_then (continue_message k cn buffer s) (\<lambda>(_, buffer1, s1). Inr (buffer1, s1)))"
    and "cn_bytes_to_read cn = 0 \<Longrightarrow> handle_message sk buffer s =
           (if length buffer < BUF_SIZE then Inr (buffer, s)
            else and_then (start_message k cn buffer s) (\<lambda>(consumed, buffer1, s1).
                 if consumed \<and> length buffer1 > 0 then handle_message sk buffer1 s1 else Inr (buffer1, s1)))"
  using assms by (subst handle_message.simps, simp)+

lemma set_connection_simps [simp]:
  "sv_connections (set_connection k cn s) = (sv_connections s)(k \<mapsto> cn)"
  "sv_context (set_connection k cn s) = sv_context s"
  "sv_controller (set_connection k cn s) = sv_controller s"
  "sv_buffers (set_connection k cn s) = sv_buffers s"
  "sv_sent (set_connection k cn s) = sv_sent s"
  "set_connection k cn (set_connection k cn' s) = set_connection k cn s"
  "(set_connection k cn s)\<lparr>sv_controller := c\<rparr> = set_connection k cn (s\<lparr>sv_controller := c\<rparr>)"
  by (simp_all add: set_connection_def)

lemma set_connection_same: "sv_connections s k = Some cn \<Longrightarrow> set_connection k cn s = s"
  by (cases s) (simp add: set_connection_def fun_upd_idem)

definition delivered :: "string \<Rightarrow> connection \<Rightarrow> connection \<Rightarrow> (bytes \<times> bytes) list \<Rightarrow> tcp_server \<Rightarrow> tcp_server" where
  "delivered k cn cn' fs s =
     set_connection k cn' (s\<lparr>sv_controller := deliver (map (incoming cn) fs) (sv_controller s)\<rparr>)"

definition remaining :: "connection \<Rightarrow> (bytes \<times> bytes) list \<Rightarrow> bytes \<Rightarrow> bool" where
  "remaining cn fs b \<longleftrightarrow>
     cn_bytes_to_read cn = 0 \<and> b = byte_stream fs \<or>
     (\<exists>h p fs' v. fs = (h, p) # fs' \<and> p \<noteq> [] \<and> parse h = Inr v \<and>
        cn = reading cn h v (length p) \<and> b = p @ byte_stream fs')"

definition same_peer :: "connection \<Rightarrow> connection \<Rightarrow> bool" where
  "same_peer cn cn' \<longleftrightarrow> (\<exists>h v n. cn' = reading cn h v n)"

lemma same_peer_simps:
  "same_peer cn cn"
  "same_peer cn (reading cn h v n)"
  "same_peer cn cn' \<Longrightarrow> same_peer cn' cn2 \<Longrightarrow> same_peer cn cn2"
  "same_peer cn cn' \<Longrightarrow> incoming cn' = incoming cn"
  "same_peer cn cn' \<Longrightarrow> is_frame cn' = is_frame cn"
proof -
  show "same_peer cn cn"
    unfolding same_peer_def reading_def by (intro exI [of _ "cn_cur_msg cn"] exI [of _ "cn_parsed_msg cn"] exI [of _ "cn_bytes_to_read cn"]) simp
qed (auto simp: same_peer_def, blast)

lemma delivered_none: "sv_connections s k = Some cn \<Longrightarrow> delivered k cn cn [] s = s"
  by (simp add: delivered_def deliver_simps set_connection_same)

lemma delivered_trans:
  "incoming cn' = incoming cn \<Longrightarrow> delivered k cn' cn2 gs (delivered k cn cn' fs s) = delivered k cn cn2 (fs @ gs) s"
  by (simp add: delivered_def deliver_simps set_connection_def)

lemma delivered_fields [simp]:
  "sv_connections (delivered k cn cn' fs s) = (sv_connections s)(k \<mapsto> cn')"
  "sv_context (delivered k cn cn' fs s) = sv_context s"
  "sv_buffers (delivered k cn cn' fs s) = sv_buffers s"
  "sv_sent (delivered k cn cn' fs s) = sv_sent s"
  "ct_external (sv_controller (delivered k cn cn' fs s)) = ct_external (sv_controller s) @ map (incoming cn) fs"
  by (simp_all add: delivered_def deliver_simps)

lemma stream_empty: "list_all (is_frame cn) fs \<Longrightarrow> byte_stream fs = [] \<longleftrightarrow> fs = []"
  by (cases fs) (auto simp: is_frame_def)

lemma handle_message_boundary:
  assumes "sv_context s sk = Some k" and "sv_connections s k = Some cn" and "sv_buffers s = []"
    and "cn_bytes_to_read cn = 0" and "list_all (is_frame cn) fs" and "buffer @ r = byte_stream fs"
  shows "\<exists>n cn' buffer'. handle_message sk buffer s = Inr (buffer', delivered k cn cn' (take n fs) s) \<and>
           n \<le> length fs \<and> same_peer cn cn' \<and> remaining cn' (drop n fs) (buffer' @ r) \<and>
           (r = [] \<longrightarrow> buffer' = [] \<and> n = length fs \<and> cn_bytes_to_read cn' = 0)"
  using assms
proof (induction fs arbitrary: s cn buffer)
  case Nil
  then show ?case
    by (intro exI [of _ 0] exI [of _ cn] exI [of _ "[]"])
       (simp add: handle_message_registered delivered_none same_peer_simps remaining_def)
next
  case (Cons f fs)
  obtain h p where f: "f = (h, p)" by (cases f)
  from Cons.prems f obtain v where h: "length h = BUF_SIZE" "parse h = Inr v"
    by (auto simp: is_frame_def split: sum.splits)
  show ?case
  proof (cases "length buffer < BUF_SIZE")
    case True
    with Cons.prems f h have "r \<noteq> []" by (cases r) auto
    with True Cons.prems show ?thesis
      by (intro exI [of _ 0] exI [of _ cn] exI [of _ buffer])
         (simp add: handle_message_registered delivered_none same_peer_simps remaining_def)
  next
    case False
    with Cons.prems f h have "h = take BUF_SIZE buffer"
      by (metis append_eq_append_conv_if append_eq_conv_conj linorder_not_less byte_stream_simps(2) nat_le_linear)
    then obtain b where b: "buffer = h @ b" by (metis append_take_drop_id)
    with Cons.prems f have br: "b @ r = p @ byte_stream fs" by simp
    show ?thesis
    proof (cases "length p \<le> length b")
      case True
      with br obtain b' where b': "b = p @ b'" "b' @ r = byte_stream fs"
        by (metis append_eq_append_conv_if append_eq_conv_conj append_take_drop_id)
      let ?cn = "reading cn h v 0"
      let ?s = "delivered k cn ?cn [f] s"
      have start: "start_message k cn buffer s = Inr (True, b', ?s)"
        using Cons.prems f h by (simp add: b b' start_message_frame delivered_def)
      have frames: "is_frame ?cn = is_frame cn" "incoming ?cn = incoming cn" by simp_all
      show ?thesis
      proof (cases "b' = []")
        case True
        have "r = [] \<Longrightarrow> fs = []" using Cons.prems(5) b' True stream_empty [of cn fs] by simp
        with start Cons.prems False f h b' True show ?thesis
          by (intro exI [of _ 1] exI [of _ ?cn] exI [of _ "[]"])
             (auto simp: handle_message_registered same_peer_simps remaining_def)
      next
        case b'_ne: False
        have "sv_context ?s sk = Some k" "sv_connections ?s k = Some ?cn" "sv_buffers ?s = []"
            "cn_bytes_to_read ?cn = 0" "list_all (is_frame ?cn) fs"
          using Cons.prems by (simp_all add: frames)
        from Cons.IH [OF this b'(2)] obtain n cn' buffer' where
          n: "handle_message sk b' ?s = Inr (buffer', delivered k ?cn cn' (take n fs) ?s)" "n \<le> length fs"
            "same_peer ?cn cn'" "remaining cn' (drop n fs) (buffer' @ r)"
            "r = [] \<longrightarrow> buffer' = [] \<and> n = length fs \<and> cn_bytes_to_read cn' = 0" by blast
        have "handle_message sk buffer s = Inr (buffer', delivered k cn cn' (take (Suc n) (f # fs)) s)"
          using start b'_ne False Cons.prems n(1) by (simp add: handle_message_registered delivered_trans frames)
        moreover have "same_peer cn cn'" using n(3) same_peer_simps(2,3) by blast
        ultimately show ?thesis using n
          by (intro exI [of _ "Suc n"] exI [of _ cn'] exI [of _ buffer']) auto
      qed
    next
      case short: False
      have "r \<noteq> []" using short br by auto
      have start: "start_message k cn buffer s = Inr (False, b, delivered k cn (reading cn h v (length p)) [] s)"
        using Cons.prems f h short by (simp add: b start_message_frame delivered_def deliver_simps)
      have "p \<noteq> []" using short by auto
      with start False Cons.prems f h br \<open>r \<noteq> []\<close> show ?thesis
        by (intro exI [of _ 0] exI [of _ "reading cn h v (length p)"] exI [of _ b])
           (auto simp: handle_message_registered same_peer_simps remaining_def)
    qed
  qed
qed

lemma handle_message_payload:
  assumes "sv_context s sk = Some k" and "sv_connections s k = Some cn" and "sv_buffers s = []"
    and cn: "cn = reading cn h v (length p)" and "parse h = Inr v" and "p \<noteq> []" and "is_frame cn (h, p)"
    and "buffer @ r = p @ byte_stream fs"
  shows "length buffer < length p \<Longrightarrow> handle_message sk buffer s = Inr (buffer, s)"
    and "length p \<le> length buffer \<Longrightarrow>
           handle_message sk buffer s = Inr (drop (length p) buffer, delivered k cn (reading cn h v 0) [(h, p)] s) \<and>
           drop (length p) buffer @ r = byte_stream fs"
proof -
  have n: "cn_bytes_to_read cn = length p" by (subst cn) simp
  with assms show "length buffer < length p \<Longrightarrow> handle_message sk buffer s = Inr (buffer, s)"
    by (simp add: handle_message_registered)
  assume len: "length p \<le> length buffer"
  with assms(8) obtain b where b: "buffer = p @ b" "b @ r = byte_stream fs"
    by (metis append_eq_append_conv_if append_eq_conv_conj append_take_drop_id)
  have "continue_message k cn (p @ b) s = Inr (True, b, delivered k cn (reading cn h v 0) [(h, p)] s)"
    using continue_message_frame [of cn h p v s k b] assms cn by (simp add: delivered_def)
  with n b assms show "handle_message sk buffer s =
      Inr (drop (length p) buffer, delivered k cn (reading cn h v 0) [(h, p)] s) \<and> drop (length p) buffer @ r = byte_stream fs"
    by (simp add: handle_message_registered)
qed


lemma handle_message_stream:
  assumes "sv_context s sk = Some k" and "sv_connections s k = Some cn" and "sv_buffers s = []"
    and "list_all (is_frame cn) fs" and rem: "remaining cn fs (buffer @ r)"
  shows "\<exists>n cn' buffer'. handle_message sk buffer s = Inr (buffer', delivered k cn cn' (take n fs) s) \<and>
           n \<le> length fs \<and> same_peer cn cn' \<and> remaining cn' (drop n fs) (buffer' @ r)"
  using rem [unfolded remaining_def]
proof (elim disjE conjE exE)
  assume "cn_bytes_to_read cn = 0" "buffer @ r = byte_stream fs"
  from handle_message_boundary [OF assms(1-3) this(1) assms(4) this(2)] show ?thesis by blast
next
  fix h p fs' v
  assume f: "fs = (h, p) # fs'" "p \<noteq> []" "parse h = Inr v" "cn = reading cn h v (length p)" "buffer @ r = p @ byte_stream fs'"
  have frame: "is_frame cn (h, p)" using assms(4) f(1) by simp
  note payload = handle_message_payload [OF assms(1-3) f(4,3,2) frame f(5)]
  show ?thesis
  proof (cases "length p \<le> length buffer")
    case True
    from payload(2) [OF True] f show ?thesis
      by (intro exI [of _ 1] exI [of _ "reading cn h v 0"] exI [of _ "drop (length p) buffer"])
         (simp add: same_peer_simps remaining_def)
  next
    case False
    with payload(1) rem show ?thesis
      by (intro exI [of _ 0] exI [of _ cn] exI [of _ buffer]) (simp add: same_peer_simps delivered_none assms(2))
  qed
qed

lemma receive_chunks_stream:
  assumes "sv_context s sk = Some k" and "sv_connections s k = Some cn" and "sv_buffers s = []"
    and "list_all (is_frame cn) fs" and "remaining cn fs (buffer @ concat chunks @ r)"
  shows "\<exists>n cn' buffer'. receive_chunks sk chunks buffer s = Inr (buffer', delivered k cn cn' (take n fs) s) \<and>
           n \<le> length fs \<and> same_peer cn cn' \<and> remaining cn' (drop n fs) (buffer' @ r)"
  using assms
proof (induction chunks arbitrary: s cn fs buffer)
  case Nil
  then show ?case
    by (intro exI [of _ 0] exI [of _ cn] exI [of _ buffer]) (simp add: same_peer_simps delivered_none)
next
  case (Cons chunk chunks)
  from Cons.prems(5) have "remaining cn fs ((buffer @ chunk) @ (concat chunks @ r))" by simp
  from handle_message_stream [OF Cons.prems(1-4) this] obtain n cn1 buffer1 where
    1: "handle_message sk (buffer @ chunk) s = Inr (buffer1, delivered k cn cn1 (take n fs) s)" "n \<le> length fs"
      "same_peer cn cn1" "remaining cn1 (drop n fs) (buffer1 @ concat chunks @ r)" by blast
  let ?s = "delivered k cn cn1 (take n fs) s"
  have "sv_context ?s sk = Some k" "sv_connections ?s k = Some cn1" "sv_buffers ?s = []"
      "list_all (is_frame cn1) (drop n fs)"
    using Cons.prems 1(3) by (auto simp: same_peer_simps(5) list_all_iff dest: in_set_dropD)
  from Cons.IH [OF this 1(4)] obtain m cn2 buffer2 where
    2: "receive_chunks sk chunks buffer1 ?s = Inr (buffer2, delivered k cn1 cn2 (take m (drop n fs)) ?s)"
      "m \<le> length (drop n fs)" "same_peer cn1 cn2" "remaining cn2 (drop m (drop n fs)) (buffer2 @ r)" by blast
  have "receive_chunks sk (chunk # chunks) buffer s = Inr (buffer2, delivered k cn cn2 (take (n + m) fs) s)"
    using 1 2(1) by (simp add: delivered_trans same_peer_simps(4) take_add)
  with 1 2 same_peer_simps(3) show ?case
    by (intro exI [of _ "n + m"] exI [of _ cn2] exI [of _ buffer2]) (auto simp: add.commute)
qed

section \<open>Messages to a peer\<close>

fun perform_calls :: "server_call list \<Rightarrow> tcp_server \<Rightarrow> tcp_server result" where
  "perform_calls [] s = Inr s"
| "perform_calls (call # calls) s = and_then (perform_call call s) (perform_calls calls)"

fun call_header :: "string \<Rightarrow> server_call \<Rightarrow> bytes result" where
  "call_header a (ServerPutMessage pid nm payload) = build_put nm a (buf_len payload)"
| "call_header a (ServerInvocationRequest pid fname iid payload) = build_request iid fname (buf_len payload)"
| "call_header a (ServerInvocationResult src remote iid code payload) = Inl InvalidArgument"

fun call_payload :: "server_call \<Rightarrow> buffer" where
  "call_payload (ServerPutMessage pid nm payload) = payload"
| "call_payload (ServerInvocationRequest pid fname iid payload) = payload"
| "call_payload (ServerInvocationResult src remote iid code payload) = Buffer_default"

definition name_ok :: "string \<Rightarrow> bool" where
  "name_ok s \<longleftrightarrow> no_nul s \<and> length s \<le> NAME_LENGTH"

fun call_ok :: "string \<Rightarrow> server_call \<Rightarrow> bool" where
  "call_ok b (ServerPutMessage pid nm payload) \<longleftrightarrow>
     pid = b \<and> name_ok nm \<and> wf_buffer payload \<and> buf_len payload < 2 ^ 31"
| "call_ok b (ServerInvocationRequest pid fname iid payload) \<longleftrightarrow>
     pid = b \<and> name_ok fname \<and> no_nul iid \<and> length iid \<le> ID_LENGTH \<and> wf_buffer payload \<and> buf_len payload < 2 ^ 31"
| "call_ok b (ServerInvocationResult src remote iid code payload) \<longleftrightarrow> False"

text \<open>The message that a peer's controller finds for a call of the controller of process \<open>a\<close>.\<close>

fun arrives :: "string \<Rightarrow> server_call \<Rightarrow> external_message \<Rightarrow> bool" where
  "arrives a (ServerPutMessage pid nm payload) m \<longleftrightarrow>
     em_source_type m = PROCESS \<and> em_source m = Some a \<and> buffer_data (em_payload m) = buffer_data payload \<and>
     (\<exists>u. parse (em_msg m) = Inr (PutMessagePtr u) \<and> put_name u = nm \<and> put_process_id u = a)"
| "arrives a (ServerInvocationRequest pid fname iid payload) m \<longleftrightarrow>
     em_source_type m = PROCESS \<and> em_source m = Some a \<and> buffer_data (em_payload m) = buffer_data payload \<and>
     (\<exists>r. parse (em_msg m) = Inr (InvocationRequestPtr r) \<and> function_name r = fname \<and> invocation_id r = iid)"
| "arrives a (ServerInvocationResult src remote iid code payload) m \<longleftrightarrow> False"

lemma build_put_ok:
  assumes "name_ok nm" and "name_ok a" and "n < 2 ^ 31"
  shows "\<exists>h u. build_put nm a n = Inr h \<and> length h = BUF_SIZE \<and> parse h = Inr (PutMessagePtr u) \<and>
           put_name u = nm \<and> put_process_id u = a \<and> size_of_i32 (total_length u) = n"
  using assms by (simp add: name_ok_def build_put_def message_simps parse_def)

lemma build_request_ok:
  assumes "name_ok fname" and "no_nul iid" and "length iid \<le> ID_LENGTH" and "n < 2 ^ 31"
  shows "\<exists>h r. build_request iid fname n = Inr h \<and> length h = BUF_SIZE \<and> parse h = Inr (InvocationRequestPtr r) \<and>
           function_name r = fname \<and> invocation_id r = iid \<and> size_of_i32 (payload_size r) = n"
  using assms sint_i32_of_size [of n] by (simp add: name_ok_def build_request_def message_simps parse_def)

lemma call_frame:
  assumes "call_ok b call" and "name_ok a" and "cn_type cn = PROCESS" and "cn_id cn = Some a"
  shows "\<exists>h. call_header a call = Inr h \<and> is_frame cn (h, buffer_data (call_payload call)) \<and>
           arrives a call (incoming cn (h, buffer_data (call_payload call)))"
proof (cases call)
  case (ServerPutMessage pid nm payload)
  with assms build_put_ok [of nm a "buf_len payload"] show ?thesis
    by (fastforce simp: is_frame_def payload_length_def accepts_def incoming_def payload_buffer_of_def
        length_buffer_data buffer_data_def [of "\<lparr>buf_ptr = _, buf_size = _, buf_len = _\<rparr>"] buffer_accessor_def accessor_data_def)
next
  case (ServerInvocationRequest pid fname iid payload)
  with assms build_request_ok [of fname iid "buf_len payload"] show ?thesis
    by (fastforce simp: is_frame_def payload_length_def accepts_def incoming_def payload_buffer_of_def
        length_buffer_data buffer_data_def [of "\<lparr>buf_ptr = _, buf_size = _, buf_len = _\<rparr>"] buffer_accessor_def accessor_data_def)
qed (use assms in simp)


lemma call_ok_wf: "call_ok b call \<Longrightarrow> wf_buffer (call_payload call)"
  by (cases call) auto

lemma perform_call_submits:
  "call_ok b call \<Longrightarrow> perform_call call s =
     submit_message b (call_header (ct_process_id (sv_controller s)) call) (call_payload call) s"
  by (cases call) (simp_all add: server_put_message_def server_invocation_request_def)

text \<open>A peer that is not connected yet collects the messages for it.\<close>

definition queued :: "(bytes \<times> buffer) list \<Rightarrow> connection \<Rightarrow> connection" where
  "queued ms cn = (if ms = [] \<or> cn_status cn \<noteq> DISCONNECTED then cn else server_connect cn)
     \<lparr>cn_pendings_msgs := cn_pendings_msgs cn @ ms\<rparr>"

lemma queued_fields [simp]:
  "cn_conn (queued ms cn) = cn_conn cn"
  "cn_pendings_msgs (queued ms cn) = cn_pendings_msgs cn @ ms"
  "ms \<noteq> [] \<Longrightarrow> cn_status (queued ms cn) = (if cn_status cn = DISCONNECTED then CONNECTING else cn_status cn)"
  by (simp_all add: queued_def server_connect_def)

lemma queued_append: "queued (ms @ ns) cn = queued ns (queued ms cn)"
  by (auto simp: queued_def server_connect_def)

lemma queued_none: "queued [] cn = cn"
  by (simp add: queued_def)

lemma submit_unconnected:
  "sv_connections s b = Some cn \<Longrightarrow> cn_conn cn = None \<Longrightarrow>
     submit_message b (Inr h) payload s = Inr (set_connection b (queued [(h, payload)] cn) s)"
  by (cases cn) (auto simp: submit_message_def queued_def server_connect_def Let_def)

lemma perform_calls_queues:
  assumes "list_all (call_ok b) calls" and "sv_connections s b = Some cn" and "cn_conn cn = None"
    and "list_all2 (\<lambda>call h. call_header (ct_process_id (sv_controller s)) call = Inr h) calls hs"
  shows "perform_calls calls s = Inr (set_connection b (queued (zip hs (map call_payload calls)) cn) s)"
  using assms
proof (induction calls arbitrary: s cn hs)
  case Nil
  then show ?case by (simp add: queued_none set_connection_same)
next
  case (Cons call calls)
  then obtain h hs' where hs: "hs = h # hs'" by (cases hs) auto
  let ?cn = "queued [(h, call_payload call)] cn"
  let ?s = "set_connection b ?cn s"
  have "perform_call call s = Inr ?s"
    using Cons.prems hs by (simp add: perform_call_submits [of b] submit_unconnected)
  moreover have "perform_calls calls ?s = Inr (set_connection b (queued (zip hs' (map call_payload calls)) ?cn) ?s)"
    using Cons.prems hs by (intro Cons.IH) auto
  ultimately show ?case using hs by (simp flip: queued_append)
qed

lemma sock_send_fields [simp]:
  "sv_connections (sock_send sk d s) = sv_connections s"
  "sv_context (sock_send sk d s) = sv_context s"
  "sv_controller (sock_send sk d s) = sv_controller s"
  "sv_buffers (sock_send sk d s) = sv_buffers s"
  "sv_sent (sock_send sk d s) sk = sv_sent s sk @ [d]"
  "sk' \<noteq> sk \<Longrightarrow> sv_sent (sock_send sk d s) sk' = sv_sent s sk'"
  by (simp_all add: sock_send_def)

lemma send_pending_fields [simp]:
  "sv_connections (send_pending sk ps s) = sv_connections s"
  "sv_controller (send_pending sk ps s) = sv_controller s"
  by (induction ps arbitrary: s rule: list.induct) (auto split: prod.splits)

lemma send_pending_stream:
  "list_all (\<lambda>(h, b). wf_buffer b) ps \<Longrightarrow>
     concat (sv_sent (send_pending sk ps s) sk) =
       concat (sv_sent s sk) @ byte_stream (map (\<lambda>(h, b). (h, buffer_data b)) ps)"
proof (induction ps arbitrary: s)
  case (Cons p ps)
  obtain h b where "p = (h, b)" by (cases p)
  with Cons show ?case using length_buffer_data [of b] by auto
qed simp

lemma registration_ok:
  assumes "name_ok (ct_process_id (sv_controller s))"
  shows "\<exists>h m. build_registration s = Inr h \<and> length h = BUF_SIZE \<and>
           parse h = Inr (ProcessConnectionPtr m) \<and> process_name m = ct_process_id (sv_controller s)"
  using assms by (simp add: name_ok_def build_registration_def message_simps parse_def)

text \<open>A registration followed by messages, in one piece, on a fresh socket.\<close>

lemma receive_registration:
  assumes "sv_context s sk = None" and "sv_connections s a = None" and "sv_buffers s = []"
    and a: "a \<noteq> DATAPLANE_ID" "a \<noteq> CONTROLPLANE_ID"
    and h: "length h = BUF_SIZE" "parse h = Inr (ProcessConnectionPtr m)" "process_name m = a"
    and cn: "cn = Connection CONNECTED PROCESS (Some a) (Some sk) [] 0" and fs: "list_all (is_frame cn) fs"
  shows "\<exists>cn' s'. handle_message sk (h @ byte_stream fs) s = Inr ([], s') \<and> same_peer cn cn' \<and>
           sv_connections s' a = Some cn' \<and> sv_context s' sk = Some a \<and>
           ct_external (sv_controller s') = ct_external (sv_controller s) @ map (incoming cn) fs"
proof -
  obtain q where q: "set_process_name ''CORRECT'' (ProcessConnection MessageData_default) = Inr q"
    by (simp add: set_process_name_def)
  define s1 where "s1 = sock_send sk (msg_data q) ((set_connection a cn s)\<lparr>sv_context := (sv_context s)(sk \<mapsto> a)\<rparr>)"
  have reg: "handle_connection sk m s = Inr s1"
    using assms q by (simp add: handle_connection_def s1_def set_plane_def)
  have s1: "sv_context s1 sk = Some a" "sv_connections s1 a = Some cn" "sv_buffers s1 = []" "cn_bytes_to_read cn = 0"
    using assms by (simp_all add: s1_def Connection_def)
  obtain cn' n where 1: "handle_message sk (byte_stream fs) s1 = Inr ([], delivered a cn cn' (take n fs) s1)"
      "n = length fs" "same_peer cn cn'"
    using handle_message_boundary [OF s1 fs, of "byte_stream fs" "[]"] by auto
  have "handle_message sk (h @ byte_stream fs) s =
      (if byte_stream fs = [] then Inr ([], s1) else handle_message sk (byte_stream fs) s1)"
    using assms reg by (subst handle_message.simps) simp
  also have "\<dots> = Inr ([], delivered a cn cn' fs s1)"
  proof (cases "byte_stream fs = []")
    case True
    with 1 s1 show ?thesis by (simp add: handle_message_registered)
  qed (use 1 in simp)
  finally show ?thesis using 1 s1 by (intro exI [of _ cn'] exI [of _ "delivered a cn cn' fs s1"]) (simp add: s1_def)
qed

lemma perform_result:
  assumes "sv_connections s k = Some cn" and "cn_conn cn = Some sk" and "no_nul iid" and "length iid \<le> ID_LENGTH"
    and "(src = DATA_PLANE \<and> sv_data_plane s = Some k) \<or> (src = CONTROL_PLANE \<and> sv_control_plane s = Some k) \<or>
         (src = PROCESS \<and> remote = Some k)"
  shows "\<exists>s' h m. perform_call (ServerInvocationResult src remote iid code payload) s = Inr s' \<and>
           concat (sv_sent s' sk) = concat (sv_sent s sk) @ h @ payload \<and>
           (\<forall>sk'. sk' \<noteq> sk \<longrightarrow> sv_sent s' sk' = sv_sent s sk') \<and> length h = BUF_SIZE \<and>
           parse h = Inr (InvocationResultPtr m) \<and> result_id m = iid \<and> return_code m = code \<and>
           total_length m = i32_of_size (length payload)"
proof -
  obtain m1 m where m: "set_result_id iid (InvocationResult MessageData_default) = Inr m1"
      "m = set_total_length (i32_of_size (length payload)) (set_return_code code m1)"
      "parse (msg_data m) = Inr (InvocationResultPtr m)" "result_id m = iid" "return_code m = code"
      "total_length m = i32_of_size (length payload)" "length (msg_data m) = BUF_SIZE"
    using assms(3,4) by (simp add: message_simps parse_def)
  show ?thesis
    using assms(1,2,5) m
    by (intro exI [of _ "if length payload > 0 then sock_send sk payload (sock_send sk (msg_data m) s) else sock_send sk (msg_data m) s"]
        exI [of _ "msg_data m"] exI [of _ m]) (auto simp: server_invocation_result_def Let_def)
qed

section \<open>Properties\<close>


definition example_header :: bytes where
  "example_header = (case build_put ''key'' ''peer'' 2 of Inl _ \<Rightarrow> [] | Inr h \<Rightarrow> h)"

definition example_peer :: connection where
  "example_peer = Connection CONNECTED PROCESS (Some ''peer'') (Some 3) [] 0"

definition example_server :: tcp_server where
  "example_server = (set_connection ''peer'' example_peer (TCPServer example_controller))\<lparr>sv_context := [3 \<mapsto> ''peer'']\<rparr>"

lemma example_frame: "is_frame example_peer (example_header, ''xy'')"
  using build_put_ok [of "''key''" "''peer''" 2]
  by (auto simp: name_ok_def no_nul_def example_header_def is_frame_def payload_length_def accepts_def
      example_peer_def Connection_def)

lemma example_server_fields:
  "sv_context example_server 3 = Some ''peer''" "sv_connections example_server ''peer'' = Some example_peer"
  "sv_buffers example_server = []" "cn_bytes_to_read example_peer = 0"
  by (simp_all add: example_server_def TCPServer_def example_peer_def Connection_def)




text \<open>
  The result of an invocation leaves on the socket of the party that asked for it, the data
  plane, the control plane or a peer process, and on no other, as a header that is parsed to the
  invocation id, the return code and the length of the output, followed by the output.
\<close>

lemma result_sent_back:
  assumes "sv_connections s k = Some cn" and "cn_conn cn = Some sk" and "no_nul iid" and "length iid \<le> ID_LENGTH"
    and "(src = DATA_PLANE \<and> sv_data_plane s = Some k) \<or> (src = CONTROL_PLANE \<and> sv_control_plane s = Some k) \<or>
         (src = PROCESS \<and> remote = Some k)"
  shows "\<exists>s' h m. perform_call (ServerInvocationResult src remote iid code payload) s = Inr s' \<and>
           concat (sv_sent s' sk) = concat (sv_sent s sk) @ h @ payload \<and>
           (\<forall>sk'. sk' \<noteq> sk \<longrightarrow> sv_sent s' sk' = sv_sent s sk') \<and>
           parse h = Inr (InvocationResultPtr m) \<and> result_id m = iid \<and> return_code m = code \<and>
           total_length m = i32_of_size (length payload)"
  using perform_result [OF assms] by blast

lemma result_sent_back_witness:
  "\<exists>s' h. perform_call (ServerInvocationResult PROCESS (Some ''peer'') ''id-1'' 0 ''out'') example_server = Inr s' \<and>
          concat (sv_sent s' 3) = h @ ''out''"
proof -
  have "cn_conn example_peer = Some 3" "sv_sent example_server 3 = []"
    by (simp_all add: example_peer_def Connection_def example_server_def TCPServer_def set_connection_def)
  with result_sent_back [OF example_server_fields(2), of 3 "''id-1''" PROCESS "Some ''peer''" 0 "''out''"] show ?thesis
    by (auto simp: no_nul_def)
qed

text \<open>
  C36. Complete messages can be left waiting. Two messages that arrive together are both handed to
  the controller; when the header of the first arrives alone and everything else follows in one
  piece, only the first is handed over and the second stays in the buffer, although it is
  complete, until more bytes arrive.
\<close>

theorem split_frame_stalls:
  assumes "sv_context s sk = Some k" and "sv_connections s k = Some cn" and "sv_buffers s = []" and "cn_bytes_to_read cn = 0"
    and "is_frame cn (h1, p1)" and "is_frame cn (h2, p2)" and "p1 \<noteq> []"
  shows "\<exists>s1 s2. receive_chunks sk [h1 @ p1 @ h2 @ p2] [] s = Inr ([], s1) \<and>
           ct_external (sv_controller s1) = ct_external (sv_controller s) @ [incoming cn (h1, p1), incoming cn (h2, p2)] \<and>
           receive_chunks sk [h1, p1 @ h2 @ p2] [] s = Inr (h2 @ p2, s2) \<and>
           ct_external (sv_controller s2) = ct_external (sv_controller s) @ [incoming cn (h1, p1)]"
proof -
  let ?fs = "[(h1, p1), (h2, p2)]"
  have fs: "list_all (is_frame cn) ?fs" "h1 @ p1 @ h2 @ p2 = byte_stream ?fs" using assms by simp_all
  have "(h1 @ p1 @ h2 @ p2) @ [] = byte_stream ?fs" by simp
  from handle_message_boundary [OF assms(1-4) fs(1) this]
  obtain cn' n where "handle_message sk (h1 @ p1 @ h2 @ p2) s = Inr ([], delivered k cn cn' (take n ?fs) s)" "n = length ?fs"
    by blast
  then have one: "handle_message sk (h1 @ p1 @ h2 @ p2) s = Inr ([], delivered k cn cn' ?fs s)" by simp
  obtain v where v: "parse h1 = Inr v" "length h1 = BUF_SIZE" using assms(5) by (auto simp: is_frame_def split: sum.splits)
  let ?cn = "reading cn h1 v (length p1)"
  let ?s = "set_connection k ?cn s"
  have "start_message k cn h1 s = Inr (False, [], ?s)"
    using start_message_frame(2) [OF assms(5) v(1) assms(3,4), of "[]" k] assms(7) by simp
  then have first: "handle_message sk h1 s = Inr ([], ?s)"
    unfolding handle_message_registered(2) [OF assms(1,2,4)] using v(2) by simp
  have ctx: "sv_context ?s sk = Some k" "sv_connections ?s k = Some ?cn" "sv_buffers ?s = []" "?cn = reading ?cn h1 v (length p1)"
      and frame: "is_frame ?cn (h1, p1)" and rest: "(p1 @ h2 @ p2) @ [] = p1 @ byte_stream [(h2, p2)]"
    using assms by simp_all
  have second: "handle_message sk (p1 @ h2 @ p2) ?s = Inr (h2 @ p2, delivered k ?cn (reading ?cn h1 v 0) [(h1, p1)] ?s)"
    using handle_message_payload(2) [OF ctx v(1) assms(7) frame rest] by simp
  have "receive_chunks sk [h1 @ p1 @ h2 @ p2] [] s = Inr ([], delivered k cn cn' ?fs s)" using one by simp
  moreover have "receive_chunks sk [h1, p1 @ h2 @ p2] [] s = Inr (h2 @ p2, delivered k ?cn (reading ?cn h1 v 0) [(h1, p1)] ?s)"
    using first second by simp
  ultimately show ?thesis
    by (intro exI [of _ "delivered k cn cn' ?fs s"] exI [of _ "delivered k ?cn (reading ?cn h1 v 0) [(h1, p1)] ?s"]) simp
qed

theorem split_frame_stalls_witness:
  "\<exists>s2. receive_chunks 3 [example_header, ''xy'' @ example_header @ ''xy''] [] example_server =
          Inr (example_header @ ''xy'', s2)"
  using split_frame_stalls [OF example_server_fields example_frame example_frame] by auto

end
