(* ===== verification/Control_Process.thy ===== *)
theory Control_Process
  imports Wire_Messages
begin

text \<open>
  A process as the control plane sees it: \<^verbatim>\<open>src/control-plane/src/process.cpp\<close> and
  \<^verbatim>\<open>process.hpp\<close>. It is allocated by a cloud backend, connects to the control plane, is sent the
  invocations of the HTTP clients and answers them, and is swapped out. An HTTP callback is the
  number of the client it answers, and the answers are recorded in order; what is sent on the
  TCP connection of the process is a list of byte strings. The closures that the code registers
  to learn about the allocation are values of a datatype that says what they do. Identifiers of
  invocations come from a random generator of a library and are arguments, in their printed form.
\<close>

section \<open>State\<close>

datatype proc_status =
    ALLOCATING | ALLOCATED | SWAPPED_OUT | SWAPPING_OUT | SWAPPING_IN | CLOSED | FAILURE

type_synonym client = nat

datatype response =
    InvocationResponse string string int32 bytes
  | ProcessResponse string string int32
  | FailedResponse string nat
  | MessageResponse string
  | ListResponse string "string set" "string set"

record metrics =
  mt_invocations :: int32
  mt_computation_time :: int32
  mt_last_invocation :: uint64
  mt_last_report :: int

record proc_resources =
  rs_vcpus :: string
  rs_memory :: string
  rs_sandbox_id :: string

record cp_invocation =
  ci_request :: bytes
  ci_callback :: client
  ci_function_name :: string
  ci_invocation_id :: string
  ci_start :: int
  ci_submitted :: bool

definition cp_Invocation :: "bytes \<Rightarrow> client \<Rightarrow> string \<Rightarrow> string \<Rightarrow> int \<Rightarrow> cp_invocation" where
  "cp_Invocation req cb fname iid start =
     \<lparr>ci_request = req, ci_callback = cb, ci_function_name = fname, ci_invocation_id = iid,
      ci_start = start, ci_submitted = False\<rparr>"

text \<open>What the backend returns for a process: a container with an address.\<close>

record process_instance =
  pi_ip_address :: string
  pi_port :: int32
  pi_container_id :: string

text \<open>
  The two callbacks the code registers for a new process: the invocation that a client of the
  control plane waits for (\<^verbatim>\<open>src/control-plane/src/worker.cpp\<close>), and the description of a process
  that a client asked to create (\<^verbatim>\<open>src/control-plane/src/http.cpp\<close>).
\<close>

datatype creation_callback =
    InvokeFunction bytes client string int
  | DescribeProcess client

record cp_process =
  pr_name :: string
  pr_status :: proc_status
  pr_resources :: proc_resources
  pr_metrics :: metrics
  pr_connection :: "nat option"
  pr_swap :: "string option"
  pr_wait_for_allocation :: bool
  pr_creation_callback :: "creation_callback option"
  pr_handle :: "process_instance option"
  pr_active_invocations :: int32
  pr_invocations :: "cp_invocation list"
  pr_sent :: "bytes list"
  pr_responses :: "(client \<times> response) list"

definition Process :: "string \<Rightarrow> proc_resources \<Rightarrow> cp_process" where
  "Process name res =
     \<lparr>pr_name = name, pr_status = ALLOCATING, pr_resources = res,
      pr_metrics = \<lparr>mt_invocations = 0, mt_computation_time = 0, mt_last_invocation = 0, mt_last_report = 0\<rparr>,
      pr_connection = None, pr_swap = None, pr_wait_for_allocation = False, pr_creation_callback = None,
      pr_handle = None, pr_active_invocations = 0, pr_invocations = [], pr_sent = [], pr_responses = []\<rparr>"

definition respond :: "client \<Rightarrow> response \<Rightarrow> cp_process \<Rightarrow> cp_process" where
  "respond cl r p = p\<lparr>pr_responses := pr_responses p @ [(cl, r)]\<rparr>"

definition tcp_send :: "bytes \<Rightarrow> cp_process \<Rightarrow> cp_process" where
  "tcp_send d p = p\<lparr>pr_sent := pr_sent p @ [d]\<rparr>"

section \<open>Invocations\<close>

definition short_id :: "string \<Rightarrow> string" where
  "short_id uuid = take 16 uuid"

definition invocation_header :: "cp_invocation \<Rightarrow> bytes result" where
  "invocation_header i =
     and_then (set_function_name (ci_function_name i) (InvocationRequest MessageData_default)) (\<lambda>m1.
     and_then (set_invocation_id (short_id (ci_invocation_id i)) m1) (\<lambda>m2.
     and_then (set_payload_size (i32_of_size (length (ci_request i))) m2) (\<lambda>m3.
     Inr (msg_data (set_total_length (i32_of_size (length (ci_request i))) m3)))))"

definition send_invocation :: "cp_invocation \<Rightarrow> cp_process \<Rightarrow> (cp_invocation \<times> cp_process) result" where
  "send_invocation i p =
     and_then (invocation_header i) (\<lambda>h.
     if pr_connection p = None then Inl UndefinedBehaviour
     else Inr (i\<lparr>ci_submitted := True\<rparr>, tcp_send (ci_request i) (tcp_send h p)))"

fun send_each :: "cp_invocation list \<Rightarrow> cp_process \<Rightarrow> (cp_invocation list \<times> cp_process) result" where
  "send_each [] p = Inr ([], p)"
| "send_each (i # is) p =
     and_then (if ci_submitted i then Inr (i, p) else send_invocation i p) (\<lambda>(i1, p1).
     and_then (send_each is p1) (\<lambda>(is1, p2). Inr (i1 # is1, p2)))"

definition send_invocations :: "cp_process \<Rightarrow> cp_process result" where
  "send_invocations p =
     and_then (send_each (pr_invocations p) p) (\<lambda>(is, p1). Inr (p1\<lparr>pr_invocations := is\<rparr>))"

definition add_invocation :: "bytes \<Rightarrow> client \<Rightarrow> string \<Rightarrow> int \<Rightarrow> string \<Rightarrow> cp_process \<Rightarrow> cp_process result" where
  "add_invocation req cb fname start uuid p =
     (let i = cp_Invocation req cb fname uuid start;
          p1 = p\<lparr>pr_active_invocations := pr_active_invocations p + 1\<rparr> in
      if pr_status p1 = ALLOCATED
      then and_then (send_invocation i p1) (\<lambda>(i1, p2). Inr (p2\<lparr>pr_invocations := pr_invocations p @ [i1]\<rparr>))
      else Inr (p1\<lparr>pr_invocations := pr_invocations p @ [i]\<rparr>))"

text \<open>The first invocation with an identifier, with those before and after it.\<close>

fun split_invocations ::
    "string \<Rightarrow> cp_invocation list \<Rightarrow> (cp_invocation list \<times> cp_invocation \<times> cp_invocation list) option" where
  "split_invocations iid [] = None"
| "split_invocations iid (i # is) =
     (if short_id (ci_invocation_id i) = iid then Some ([], i, is)
      else map_option (\<lambda>(bs, j, as). (i # bs, j, as)) (split_invocations iid is))"

definition finish_invocation :: "string \<Rightarrow> int32 \<Rightarrow> bytes \<Rightarrow> cp_process \<Rightarrow> cp_process" where
  "finish_invocation iid code buf p =
     (case split_invocations iid (pr_invocations p) of
        None \<Rightarrow> p
      | Some (bs, i, as) \<Rightarrow>
          (respond (ci_callback i) (InvocationResponse (ci_function_name i) iid code buf)
             (p\<lparr>pr_active_invocations := pr_active_invocations p - 1\<rparr>))\<lparr>pr_invocations := bs @ as\<rparr>)"

section \<open>Allocation\<close>

definition set_creation_callback :: "creation_callback \<Rightarrow> bool \<Rightarrow> cp_process \<Rightarrow> cp_process" where
  "set_creation_callback cb wait p = p\<lparr>pr_creation_callback := Some cb, pr_wait_for_allocation := wait\<rparr>"

definition set_handle :: "process_instance \<Rightarrow> cp_process \<Rightarrow> cp_process" where
  "set_handle inst p = p\<lparr>pr_handle := Some inst\<rparr>"

fun run_creation_callback :: "creation_callback \<Rightarrow> string option \<Rightarrow> string \<Rightarrow> cp_process \<Rightarrow> cp_process result" where
  "run_creation_callback (InvokeFunction req cl fname start) None uuid p = add_invocation req cl fname start uuid p"
| "run_creation_callback (InvokeFunction req cl fname start) (Some msg) uuid p = Inr (respond cl (FailedResponse msg 500) p)"
| "run_creation_callback (DescribeProcess cl) None uuid p =
     (case pr_handle p of
        None \<Rightarrow> Inl UndefinedBehaviour
      | Some inst \<Rightarrow> Inr (respond cl (ProcessResponse (pr_name p) (pi_ip_address inst) (pi_port inst)) p))"
| "run_creation_callback (DescribeProcess cl) (Some msg) uuid p = Inr (respond cl (FailedResponse msg 500) p)"

text \<open>
  An instance of the container backend is connected at once: its \<^verbatim>\<open>connect\<close> calls back with success.
\<close>

definition created_callback :: "string option \<Rightarrow> string \<Rightarrow> cp_process \<Rightarrow> cp_process result" where
  "created_callback error_msg uuid p =
     (case pr_creation_callback p of
        None \<Rightarrow> Inr p
      | Some cb \<Rightarrow>
          (case error_msg of
             None \<Rightarrow>
               if pr_handle p = None then Inr p
               else if pr_wait_for_allocation p \<and> pr_status p \<noteq> ALLOCATED then Inr p
               else and_then (run_creation_callback cb None uuid p) (\<lambda>p1. Inr (p1\<lparr>pr_creation_callback := None\<rparr>))
           | Some msg \<Rightarrow>
               and_then (run_creation_callback cb (Some msg) uuid p) (\<lambda>p1. Inr (p1\<lparr>pr_creation_callback := None\<rparr>))))"

definition connect :: "nat \<Rightarrow> string \<Rightarrow> cp_process \<Rightarrow> cp_process result" where
  "connect conn uuid p =
     (if pr_status p \<noteq> ALLOCATING then Inl InvalidProcessState
      else and_then (send_invocations (p\<lparr>pr_connection := Some conn, pr_status := ALLOCATED\<rparr>))
             (created_callback None uuid))"

text \<open>The backend's callback for an allocated instance, as the application registers it.\<close>

definition instance_allocated :: "process_instance \<Rightarrow> string \<Rightarrow> cp_process \<Rightarrow> cp_process result" where
  "instance_allocated inst uuid p = created_callback None uuid (set_handle inst p)"

section \<open>State changes\<close>

definition set_status :: "proc_status \<Rightarrow> cp_process \<Rightarrow> cp_process" where
  "set_status st p = p\<lparr>pr_status := st\<rparr>"

definition close_connection :: "cp_process \<Rightarrow> cp_process" where
  "close_connection p = p\<lparr>pr_status := CLOSED, pr_connection := None\<rparr>"

definition update_metrics :: "int \<Rightarrow> int32 \<Rightarrow> int32 \<Rightarrow> uint64 \<Rightarrow> cp_process \<Rightarrow> cp_process" where
  "update_metrics now time invocs timestamp p =
     (if now \<ge> mt_last_report (pr_metrics p)
      then p\<lparr>pr_metrics := \<lparr>mt_invocations = invocs, mt_computation_time = time,
                           mt_last_invocation = timestamp, mt_last_report = now\<rparr>\<rparr>
      else p)"

definition process_swap :: "cp_process \<Rightarrow> cp_process result" where
  "process_swap p =
     (if pr_connection p = None then Inr p
      else case pr_swap p of
             None \<Rightarrow> Inl UndefinedBehaviour
           | Some root \<Rightarrow>
               and_then (set_path root (SwapRequest MessageData_default)) (\<lambda>msg. Inr (tcp_send (msg_data msg) p)))"

section \<open>Invariant\<close>

text \<open>
  The counter counts the invocations without an answer, also those that wait for the process. A
  process that is still being allocated has sent nothing, an allocated one has a connection and
  has sent every invocation.
\<close>

definition proc_inv :: "cp_process \<Rightarrow> bool" where
  "proc_inv p \<longleftrightarrow>
     pr_active_invocations p = of_nat (length (pr_invocations p)) \<and>
     (pr_status p = ALLOCATING \<longrightarrow>
        pr_connection p = None \<and> pr_sent p = [] \<and> list_all (\<lambda>i. \<not> ci_submitted i) (pr_invocations p)) \<and>
     (pr_status p = ALLOCATED \<longrightarrow> pr_connection p \<noteq> None \<and> list_all ci_submitted (pr_invocations p))"

lemma Process_inv: "proc_inv (Process name res)"
  by (simp add: proc_inv_def Process_def)

lemma send_invocation_Inr:
  "send_invocation i p = Inr (i', p') \<Longrightarrow>
     ci_submitted i' \<and> (\<exists>ds. p' = p\<lparr>pr_sent := pr_sent p @ ds\<rparr>) \<and> pr_connection p \<noteq> None"
  by (auto simp: send_invocation_def and_then_eq_Inr tcp_send_def split: if_splits)

lemma send_each_Inr:
  "send_each is p = Inr (is', p') \<Longrightarrow>
     list_all ci_submitted is' \<and> length is' = length is \<and> (\<exists>ds. p' = p\<lparr>pr_sent := pr_sent p @ ds\<rparr>)"
proof (induction "is" arbitrary: p is' p')
  case Nil
  then show ?case by (auto intro!: exI [of _ "[]"])
next
  case (Cons i ivs)
  then obtain i1 p1 is1 where 1: "(if ci_submitted i then Inr (i, p) else send_invocation i p) = Inr (i1, p1)"
      "send_each ivs p1 = Inr (is1, p')" "is' = i1 # is1"
    by (auto simp: and_then_eq_Inr)
  from 1(1) obtain ds where "ci_submitted i1" "p1 = p\<lparr>pr_sent := pr_sent p @ ds\<rparr>"
    by (cases "ci_submitted i") (auto dest!: send_invocation_Inr intro: that [of "[]"])
  with Cons.IH [OF 1(2)] 1(3) show ?case by auto
qed

lemma add_invocation_inv:
  assumes "add_invocation req cl fname start uuid p = Inr p'" and "proc_inv p"
  shows "proc_inv p' \<and> pr_status p' = pr_status p \<and> pr_name p' = pr_name p \<and> pr_swap p' = pr_swap p"
  using assms
  by (auto simp: add_invocation_def Let_def proc_inv_def cp_Invocation_def and_then_eq_Inr
      split: if_splits dest!: send_invocation_Inr)

lemma run_creation_callback_inv:
  assumes "run_creation_callback cb err uuid p = Inr p'" and "proc_inv p"
  shows "proc_inv p' \<and> pr_status p' = pr_status p \<and> pr_name p' = pr_name p \<and> pr_swap p' = pr_swap p"
  using assms
  by (cases cb; cases err) (auto simp: respond_def proc_inv_def split: option.splits dest: add_invocation_inv)

lemma created_callback_inv:
  assumes "created_callback err uuid p = Inr p'" and "proc_inv p"
  shows "proc_inv p' \<and> pr_status p' = pr_status p \<and> pr_name p' = pr_name p \<and> pr_swap p' = pr_swap p"
proof (cases "pr_creation_callback p")
  case None
  with assms show ?thesis by (simp add: created_callback_def)
next
  case (Some cb)
  show ?thesis
  proof (cases "err = None \<and> (pr_handle p = None \<or> pr_wait_for_allocation p \<and> pr_status p \<noteq> ALLOCATED)")
    case True
    with Some assms show ?thesis by (auto simp: created_callback_def split: if_splits)
  next
    case False
    with Some assms(1) obtain p1 where p1: "run_creation_callback cb err uuid p = Inr p1"
        "p' = p1\<lparr>pr_creation_callback := None\<rparr>"
      by (cases err) (auto simp: created_callback_def and_then_eq_Inr)
    from run_creation_callback_inv [OF p1(1) assms(2)] p1(2) show ?thesis by (simp add: proc_inv_def)
  qed
qed

lemma connect_inv:
  assumes "connect conn uuid p = Inr p'" and "proc_inv p"
  shows "proc_inv p' \<and> pr_status p' = ALLOCATED \<and> pr_name p' = pr_name p \<and> pr_swap p' = pr_swap p"
proof -
  from assms(1) obtain "is" p1 where 1: "pr_status p = ALLOCATING"
      "send_each (pr_invocations p) (p\<lparr>pr_connection := Some conn, pr_status := ALLOCATED\<rparr>) = Inr (is, p1)"
      "created_callback None uuid (p1\<lparr>pr_invocations := is\<rparr>) = Inr p'"
    by (auto simp: connect_def send_invocations_def and_then_eq_Inr split: if_splits)
  from send_each_Inr [OF 1(2)] assms(2) have "proc_inv (p1\<lparr>pr_invocations := is\<rparr>)"
      "pr_status p1 = ALLOCATED" "pr_name p1 = pr_name p" "pr_swap p1 = pr_swap p"
    by (auto simp: proc_inv_def)
  with created_callback_inv [OF 1(3)] show ?thesis by simp
qed

lemma instance_allocated_inv:
  assumes "instance_allocated inst uuid p = Inr p'" and "proc_inv p"
  shows "proc_inv p' \<and> pr_status p' = pr_status p \<and> pr_name p' = pr_name p \<and> pr_swap p' = pr_swap p"
  using created_callback_inv [OF assms(1) [unfolded instance_allocated_def]] assms(2)
  by (simp add: set_handle_def proc_inv_def)

lemma split_invocations_Some:
  "split_invocations iid is = Some (bs, i, as) \<Longrightarrow>
     is = bs @ i # as \<and> short_id (ci_invocation_id i) = iid \<and>
     list_all (\<lambda>j. short_id (ci_invocation_id j) \<noteq> iid) bs"
  by (induction "is" arbitrary: bs) (auto split: if_splits)

lemma split_invocations_None:
  "split_invocations iid is = None \<longleftrightarrow> list_all (\<lambda>j. short_id (ci_invocation_id j) \<noteq> iid) is"
  by (induction "is") auto

lemma finish_invocation_inv: "proc_inv p \<Longrightarrow> proc_inv (finish_invocation iid code buf p)"
  by (auto simp: finish_invocation_def proc_inv_def respond_def split: option.splits prod.splits
      dest!: split_invocations_Some)

section \<open>Order of events\<close>

text \<open>Sending does not depend on the handle of the process.\<close>

lemma send_each_set_handle:
  "send_each is (set_handle inst p) = and_then (send_each is p) (\<lambda>(is', p'). Inr (is', set_handle inst p'))"
proof (induction "is" arbitrary: p)
  case Nil
  then show ?case by simp
next
  case (Cons i ivs)
  have "(if ci_submitted i then Inr (i, set_handle inst p) else send_invocation i (set_handle inst p)) =
      and_then (if ci_submitted i then Inr (i, p) else send_invocation i p) (\<lambda>(i', p'). Inr (i', set_handle inst p'))"
    by (cases "invocation_header i") (simp_all add: send_invocation_def set_handle_def tcp_send_def)
  then show ?case
    by (cases "if ci_submitted i then Inr (i, p) else send_invocation i p")
       (auto simp: Cons.IH and_then_def split: sum.splits prod.splits)
qed

lemma set_handle_invocations: "(set_handle inst p)\<lparr>pr_invocations := is\<rparr> = set_handle inst (p\<lparr>pr_invocations := is\<rparr>)"
  by (simp add: set_handle_def)

lemma created_callback_ready:
  assumes "pr_handle p \<noteq> None" and "pr_status p = ALLOCATED"
  shows "created_callback None uuid p =
     (case pr_creation_callback p of None \<Rightarrow> Inr p
      | Some cb \<Rightarrow> and_then (run_creation_callback cb None uuid p) (\<lambda>p1. Inr (p1\<lparr>pr_creation_callback := None\<rparr>)))"
  using assms by (auto simp: created_callback_def split: option.splits)

lemma created_callback_waits:
  "pr_handle p = None \<or> pr_wait_for_allocation p \<and> pr_status p \<noteq> ALLOCATED \<Longrightarrow> created_callback None uuid p = Inr p"
  by (auto simp: created_callback_def split: option.splits)


text \<open>A request of a client: its body, the client, the function, the time and the fresh identifier.\<close>

type_synonym client_request = "bytes \<times> client \<times> string \<times> int \<times> string"

fun add_requests :: "client_request list \<Rightarrow> cp_process \<Rightarrow> cp_process result" where
  "add_requests [] p = Inr p"
| "add_requests ((req, cl, fname, start, uuid) # rs) p =
     and_then (add_invocation req cl fname start uuid p) (add_requests rs)"

fun request_ok :: "client_request \<Rightarrow> bool" where
  "request_ok (req, cl, fname, start, uuid) \<longleftrightarrow>
     length req < 2 ^ 31 \<and> no_nul fname \<and> length fname \<le> NAME_LENGTH \<and> no_nul uuid"

fun invocation_of :: "client_request \<Rightarrow> cp_invocation" where
  "invocation_of (req, cl, fname, start, uuid) = cp_Invocation req cl fname uuid start"

text \<open>A header and a body that carry the request.\<close>

fun carries :: "client_request \<Rightarrow> bytes \<times> bytes \<Rightarrow> bool" where
  "carries (req, cl, fname, start, uuid) (h, body) \<longleftrightarrow> body = req \<and>
     (\<exists>m. parse h = Inr (InvocationRequestPtr m) \<and> length h = BUF_SIZE \<and> function_name m = fname \<and>
        invocation_id m = short_id uuid \<and> size_of_i32 (payload_size m) = length req)"

lemma invocation_header_ok:
  assumes "request_ok r"
  shows "\<exists>h. invocation_header (invocation_of r) = Inr h \<and> carries r (h, ci_request (invocation_of r))"
proof -
  obtain req cl fname start uuid where r: "r = (req, cl, fname, start, uuid)" by (cases r)
  have "no_nul (short_id uuid)" "length (short_id uuid) \<le> ID_LENGTH"
    using assms r by (auto simp: short_id_def no_nul_def dest: in_set_takeD)
  with assms r sint_i32_of_size [of "length req"] show ?thesis
    by (simp add: invocation_header_def cp_Invocation_def message_simps parse_def)
qed

lemma header_submitted [simp]: "invocation_header (i\<lparr>ci_submitted := b\<rparr>) = invocation_header i"
  by (simp add: invocation_header_def)

lemma add_requests_waiting:
  assumes "pr_status p = ALLOCATING"
  shows "add_requests rs p = Inr (p\<lparr>pr_active_invocations := pr_active_invocations p + of_nat (length rs),
            pr_invocations := pr_invocations p @ map invocation_of rs\<rparr>)"
  using assms
proof (induction rs arbitrary: p)
  case (Cons r rs)
  then show ?case by (cases r) (simp add: add_invocation_def Let_def add.assoc add.commute)
qed simp

lemma add_requests_connected:
  assumes "pr_status p = ALLOCATED" and "pr_connection p \<noteq> None"
    and "list_all2 (\<lambda>r h. invocation_header (invocation_of r) = Inr h) rs hs"
  shows "add_requests rs p = Inr (p\<lparr>pr_active_invocations := pr_active_invocations p + of_nat (length rs),
            pr_invocations := pr_invocations p @ map (\<lambda>r. (invocation_of r)\<lparr>ci_submitted := True\<rparr>) rs,
            pr_sent := pr_sent p @ concat (map2 (\<lambda>r h. [h, ci_request (invocation_of r)]) rs hs)\<rparr>)"
  using assms
proof (induction rs arbitrary: p hs)
  case (Cons r rs)
  then obtain h hs' where "hs = h # hs'" by (cases hs) auto
  with Cons show ?case
    by (cases r) (simp add: add_invocation_def send_invocation_def tcp_send_def Let_def Cons.IH [where hs = hs'] add.assoc add.commute)
qed simp

lemma send_each_fresh:
  assumes "pr_connection p \<noteq> None" and "list_all2 (\<lambda>r h. invocation_header (invocation_of r) = Inr h) rs hs"
  shows "send_each (map invocation_of rs) p =
     Inr (map (\<lambda>r. (invocation_of r)\<lparr>ci_submitted := True\<rparr>) rs,
          p\<lparr>pr_sent := pr_sent p @ concat (map2 (\<lambda>r h. [h, ci_request (invocation_of r)]) rs hs)\<rparr>)"
  using assms
proof (induction rs arbitrary: p hs)
  case (Cons r rs)
  then obtain h hs' where "hs = h # hs'" by (cases hs) auto
  with Cons show ?case
    by (cases r) (simp add: send_invocation_def tcp_send_def cp_Invocation_def Cons.IH [where hs = hs'])
qed simp


lemma split_invocations_first:
  "list_all (\<lambda>j. short_id (ci_invocation_id j) \<noteq> iid) bs \<Longrightarrow> short_id (ci_invocation_id i) = iid \<Longrightarrow>
     split_invocations iid (bs @ i # as) = Some (bs, i, as)"
  by (induction bs) auto

lemma finish_unknown:
  "list_all (\<lambda>j. short_id (ci_invocation_id j) \<noteq> iid) (pr_invocations p) \<Longrightarrow> finish_invocation iid code buf p = p"
  by (simp add: finish_invocation_def flip: split_invocations_None)

section \<open>Properties\<close>

text \<open>
  C14. No invocation is lost or sent twice around the connection of a process. The requests that
  arrive while the process is being allocated and those that arrive after it has connected are
  sent, in the order of their arrival and each exactly once, as a header that is parsed to the
  function, the short identifier and the size, and the body; all of them wait for their answers.
\<close>

theorem invocations_sent_once:
  assumes "list_all request_ok xs" and "list_all request_ok ys"
  shows "\<exists>p1 p2 p3 fs. add_requests xs (Process name res) = Inr p1 \<and> connect conn uuid p1 = Inr p2 \<and>
           add_requests ys p2 = Inr p3 \<and>
           pr_sent p3 = concat (map (\<lambda>(h, body). [h, body]) fs) \<and> list_all2 carries (xs @ ys) fs \<and>
           map ci_callback (pr_invocations p3) = map (ci_callback \<circ> invocation_of) (xs @ ys) \<and>
           list_all ci_submitted (pr_invocations p3) \<and>
           pr_active_invocations p3 = of_nat (length (xs @ ys))"
proof -
  let ?P = "\<lambda>r h. invocation_header (invocation_of r) = Inr h \<and> carries r (h, ci_request (invocation_of r))"
  have "\<exists>hs. list_all2 ?P rs hs" if "list_all request_ok rs" for rs
    using that invocation_header_ok by (intro list_all2_choice) (auto simp: list_all_iff)
  then obtain hs ks where hs: "list_all2 ?P xs hs" and ks: "list_all2 ?P ys ks" using assms by blast
  have hx: "list_all2 (\<lambda>r h. invocation_header (invocation_of r) = Inr h) xs hs"
    and hy: "list_all2 (\<lambda>r h. invocation_header (invocation_of r) = Inr h) ys ks"
    using hs ks by (auto elim: list_all2_mono)
  define fs where "fs = map2 (\<lambda>r h. (h, ci_request (invocation_of r))) (xs @ ys) (hs @ ks)"
  have "list_all2 carries (xs @ ys) fs"
    using list_all2_appendI [OF hs ks] by (auto simp: fs_def list_all2_conv_all_nth)
  moreover have "concat (map (\<lambda>(h, body). [h, body]) fs) =
      concat (map2 (\<lambda>r h. [h, ci_request (invocation_of r)]) xs hs) @ concat (map2 (\<lambda>r h. [h, ci_request (invocation_of r)]) ys ks)"
    using list_all2_lengthD [OF hs] by (simp add: fs_def comp_def split_def)
  moreover define p1 where "p1 = (Process name res)\<lparr>pr_active_invocations := of_nat (length xs), pr_invocations := map invocation_of xs\<rparr>"
  then have "add_requests xs (Process name res) = Inr p1"
    by (simp add: add_requests_waiting Process_def)
  moreover define p2 where "p2 = p1\<lparr>pr_connection := Some conn, pr_status := ALLOCATED,
      pr_sent := concat (map2 (\<lambda>r h. [h, ci_request (invocation_of r)]) xs hs),
      pr_invocations := map (\<lambda>r. (invocation_of r)\<lparr>ci_submitted := True\<rparr>) xs\<rparr>"
  have "connect conn uuid p1 = Inr p2"
    using send_each_fresh [OF _ hx, of "p1\<lparr>pr_connection := Some conn, pr_status := ALLOCATED\<rparr>"]
    by (simp add: p1_def p2_def connect_def Process_def send_invocations_def created_callback_def)
  moreover define p3 where "p3 = p2\<lparr>pr_active_invocations := of_nat (length (xs @ ys)),
      pr_invocations := pr_invocations p2 @ map (\<lambda>r. (invocation_of r)\<lparr>ci_submitted := True\<rparr>) ys,
      pr_sent := pr_sent p2 @ concat (map2 (\<lambda>r h. [h, ci_request (invocation_of r)]) ys ks)\<rparr>"
  have "add_requests ys p2 = Inr p3"
    using add_requests_connected [OF _ _ hy, of p2] by (simp add: p1_def p2_def p3_def)
  moreover have "pr_sent p3 = concat (map2 (\<lambda>r h. [h, ci_request (invocation_of r)]) xs hs) @
        concat (map2 (\<lambda>r h. [h, ci_request (invocation_of r)]) ys ks)"
      "map ci_callback (pr_invocations p3) = map (ci_callback \<circ> invocation_of) (xs @ ys)"
      "list_all ci_submitted (pr_invocations p3)" "pr_active_invocations p3 = of_nat (length (xs @ ys))"
    by (auto simp: p3_def p2_def list_all_iff)
  ultimately show ?thesis by metis
qed

definition example_resources :: proc_resources where
  "example_resources = \<lparr>rs_vcpus = ''1'', rs_memory = ''128'', rs_sandbox_id = []\<rparr>"

theorem invocations_sent_once_witness:
  "\<exists>p1 p2 p3 fs. add_requests [(''in'', 1, ''add'', 0, ''aaaaaaaa-bbbb-cccc'')] (Process ''p'' example_resources) = Inr p1 \<and>
     connect 7 ''u'' p1 = Inr p2 \<and> add_requests [(''x'', 2, ''mul'', 5, ''dddddddd-bbbb-cccc'')] p2 = Inr p3 \<and>
     pr_sent p3 = concat (map (\<lambda>(h, body). [h, body]) fs) \<and>
     list_all2 carries [(''in'', 1, ''add'', 0, ''aaaaaaaa-bbbb-cccc''), (''x'', 2, ''mul'', 5, ''dddddddd-bbbb-cccc'')] fs"
proof -
  have "list_all request_ok [(''in'', 1, ''add'', 0, ''aaaaaaaa-bbbb-cccc'')]"
      "list_all request_ok [(''x'', 2, ''mul'', 5, ''dddddddd-bbbb-cccc'')]"
    by (simp_all add: no_nul_def)
  from invocations_sent_once [OF this, of "''p''" example_resources 7 "''u''"] show ?thesis by (simp only: append.simps) blast
qed

text \<open>
  The answer of a process reaches the client that asked, once: with distinct identifiers, a
  result is given to the client of the invocation with that identifier, the invocation is
  removed, the counter goes down by one, the invariant is kept, and a second result with the same
  identifier changes nothing.
\<close>

lemma result_answers_client:
  assumes "proc_inv p" and "pr_invocations p = bs @ i # as"
    and "distinct (map (short_id \<circ> ci_invocation_id) (pr_invocations p))"
  shows "let iid = short_id (ci_invocation_id i); p' = finish_invocation iid code out p in
         pr_responses p' = pr_responses p @ [(ci_callback i, InvocationResponse (ci_function_name i) iid code out)] \<and>
         pr_invocations p' = bs @ as \<and> pr_active_invocations p' = of_nat (length bs + length as) \<and> proc_inv p' \<and>
         finish_invocation iid code' out' p' = p'"
proof -
  let ?iid = "short_id (ci_invocation_id i)" and ?p = "finish_invocation (short_id (ci_invocation_id i)) code out p"
  have "?iid \<notin> (\<lambda>j. short_id (ci_invocation_id j)) ` set (bs @ as)"
    using assms(2,3) by (simp add: comp_def image_Un)
  then have others: "list_all (\<lambda>j. short_id (ci_invocation_id j) \<noteq> ?iid) (bs @ as)"
    unfolding list_all_iff by (metis (no_types, lifting) imageI)
  then have split: "split_invocations ?iid (pr_invocations p) = Some (bs, i, as)"
    using assms(2) by (simp add: split_invocations_first)
  have rest: "pr_invocations ?p = bs @ as"
    using split by (simp add: finish_invocation_def)
  have "finish_invocation ?iid code' out' ?p = ?p"
    using others rest by (intro finish_unknown) simp
  moreover have "proc_inv ?p" by (rule finish_invocation_inv [OF assms(1)])
  moreover from this have "pr_active_invocations ?p = of_nat (length bs + length as)"
    using rest by (simp add: proc_inv_def)
  moreover have "pr_responses ?p = pr_responses p @ [(ci_callback i, InvocationResponse (ci_function_name i) ?iid code out)]"
    using split by (simp add: finish_invocation_def respond_def)
  ultimately show ?thesis using rest by (simp add: Let_def)
qed

definition example_process :: cp_process where
  "example_process = (Process ''p'' example_resources)
     \<lparr>pr_status := ALLOCATED, pr_connection := Some 7, pr_active_invocations := 2,
      pr_invocations := [(cp_Invocation ''a'' 1 ''add'' ''id-1'' 0)\<lparr>ci_submitted := True\<rparr>,
                         (cp_Invocation ''b'' 2 ''mul'' ''id-2'' 0)\<lparr>ci_submitted := True\<rparr>]\<rparr>"

lemma result_answers_client_witness:
  "pr_responses (finish_invocation ''id-2'' 0 ''out'' example_process) = [(2, InvocationResponse ''mul'' ''id-2'' 0 ''out'')]"
proof -
  let ?i = "\<lambda>r cl f k. (cp_Invocation r cl f k 0)\<lparr>ci_submitted := True\<rparr>"
  have "proc_inv example_process" "pr_invocations example_process = [?i ''a'' 1 ''add'' ''id-1''] @ ?i ''b'' 2 ''mul'' ''id-2'' # []"
      "distinct (map (short_id \<circ> ci_invocation_id) (pr_invocations example_process))"
    by (simp_all add: proc_inv_def example_process_def Process_def cp_Invocation_def short_id_def)
  from result_answers_client [OF this, of 0 "''out''"] show ?thesis
    by (simp add: Let_def cp_Invocation_def short_id_def) (simp add: example_process_def Process_def)
qed



end
