(* ===== verification/Control_Application.thy ===== *)
theory Control_Application
  imports Complex_Main Control_Process
begin

text \<open>
  Applications of the control plane: \<^verbatim>\<open>src/control-plane/src/application.cpp\<close> and
  \<^verbatim>\<open>application.hpp\<close>, with the part of \<^verbatim>\<open>src/control-plane/src/tcpserver.cpp\<close> that keeps the
  processes that have not connected yet. Process objects are shared between the tables, so they live in a store and the
  tables hold their addresses. The cloud backend works asynchronously: an allocation is a request
  that is recorded, and its callback is an operation of its own. The backend's limits and
  \<^verbatim>\<open>std::stod\<close>, restricted to finite numbers, are arguments. Every operation runs under the locks
  of the tables it touches and is one step here.
\<close>

section \<open>State\<close>

record cp_application =
  ap_name :: string
  ap_code_resource :: string
  ap_active :: "string \<Rightarrow> nat option"
  ap_swapped :: "string \<Rightarrow> nat option"
  ap_controlplane :: "nat list"

definition Application :: "string \<Rightarrow> string \<Rightarrow> cp_application" where
  "Application name code = \<lparr>ap_name = name, ap_code_resource = code, ap_active = Map.empty,
     ap_swapped = Map.empty, ap_controlplane = []\<rparr>"

record app_world =
  aw_app :: cp_application
  aw_store :: "nat \<Rightarrow> cp_process option"
  aw_next :: nat
  aw_pending :: "string \<Rightarrow> nat option"
  aw_requests :: "nat list"

definition app_start :: "string \<Rightarrow> string \<Rightarrow> app_world" where
  "app_start name code = \<lparr>aw_app = Application name code, aw_store = Map.empty, aw_next = 0,
     aw_pending = Map.empty, aw_requests = []\<rparr>"

definition put_process :: "nat \<Rightarrow> cp_process \<Rightarrow> app_world \<Rightarrow> app_world" where
  "put_process pid p w = w\<lparr>aw_store := (aw_store w)(pid \<mapsto> p)\<rparr>"

definition set_active :: "(string \<Rightarrow> nat option) \<Rightarrow> app_world \<Rightarrow> app_world" where
  "set_active t w = w\<lparr>aw_app := (aw_app w)\<lparr>ap_active := t\<rparr>\<rparr>"

definition set_swapped :: "(string \<Rightarrow> nat option) \<Rightarrow> app_world \<Rightarrow> app_world" where
  "set_swapped t w = w\<lparr>aw_app := (aw_app w)\<lparr>ap_swapped := t\<rparr>\<rparr>"

abbreviation active :: "app_world \<Rightarrow> string \<Rightarrow> nat option" where
  "active w \<equiv> ap_active (aw_app w)"

abbreviation swapped :: "app_world \<Rightarrow> string \<Rightarrow> nat option" where
  "swapped w \<equiv> ap_swapped (aw_app w)"

text \<open>Dereferencing a process pointer.\<close>

definition with_process :: "nat \<Rightarrow> (cp_process \<Rightarrow> 'a result) \<Rightarrow> app_world \<Rightarrow> 'a result" where
  "with_process pid f w = (case aw_store w pid of None \<Rightarrow> Inl UndefinedBehaviour | Some p \<Rightarrow> f p)"

section \<open>The server's waiting processes\<close>

definition server_add_process :: "nat \<Rightarrow> string \<Rightarrow> app_world \<Rightarrow> app_world result" where
  "server_add_process pid name w =
     (if aw_pending w name \<noteq> None then Inl (ObjectExists name)
      else Inr (w\<lparr>aw_pending := (aw_pending w)(name \<mapsto> pid)\<rparr>))"

text \<open>\<^verbatim>\<open>remove_process\<close> of the server only writes to the log.\<close>

definition server_remove_process :: "nat \<Rightarrow> app_world \<Rightarrow> app_world" where
  "server_remove_process pid w = w"

text \<open>The registration of a connection, as far as it concerns the process.\<close>

definition server_register :: "nat \<Rightarrow> string \<Rightarrow> string \<Rightarrow> app_world \<Rightarrow> app_world result" where
  "server_register conn name uuid w =
     (case aw_pending w name of
        None \<Rightarrow> Inr w
      | Some pid \<Rightarrow>
          with_process pid (\<lambda>p.
            and_then (connect conn uuid p) (\<lambda>p1.
            Inr (put_process pid p1 (w\<lparr>aw_pending := (aw_pending w)(name := None)\<rparr>)))) w)"

section \<open>New processes\<close>

definition app_add_process ::
    "(string \<Rightarrow> real result) \<Rightarrow> real \<Rightarrow> real \<Rightarrow> string \<Rightarrow> proc_resources \<Rightarrow> creation_callback \<Rightarrow> bool \<Rightarrow>
     app_world \<Rightarrow> app_world result" where
  "app_add_process stod max_memory max_vcpus name res cb wait w =
     (if length name \<le> 0 then Inl InvalidConfigurationError
      else and_then (stod (rs_memory res)) (\<lambda>memory.
        if memory \<le> 0 \<or> memory > max_memory then Inl InvalidConfigurationError
        else and_then (stod (rs_vcpus res)) (\<lambda>vcpus.
          if vcpus \<le> 0 \<or> vcpus > max_vcpus then Inl InvalidConfigurationError
          else if active w name \<noteq> None then Inl (ObjectExists name)
          else
            let pid = aw_next w; p = Process name res;
                w1 = (set_active ((active w)(name \<mapsto> pid)) w)\<lparr>aw_next := Suc pid\<rparr> in
            and_then (server_add_process pid name w1) (\<lambda>w2.
            Inr ((put_process pid (set_creation_callback cb wait p) w2)\<lparr>aw_requests := aw_requests w @ [pid]\<rparr>)))))"

text \<open>
  The backend's callback for a process of \<^verbatim>\<open>add_process\<close>: an instance, or an error. The error
  case erases the entry through an iterator, which has no meaning once the entry has gone.
\<close>

definition app_allocated :: "nat \<Rightarrow> process_instance \<Rightarrow> string \<Rightarrow> app_world \<Rightarrow> app_world result" where
  "app_allocated pid inst uuid w =
     with_process pid (\<lambda>p. and_then (instance_allocated inst uuid p) (\<lambda>p1. Inr (put_process pid p1 w))) w"

definition app_allocation_failed :: "nat \<Rightarrow> string \<Rightarrow> string \<Rightarrow> app_world \<Rightarrow> app_world result" where
  "app_allocation_failed pid msg uuid w =
     with_process pid (\<lambda>p.
       let w1 = server_remove_process pid w; w2 = set_active ((active w1)(pr_name p := None)) w1 in
       if active w1 (pr_name p) \<noteq> Some pid then Inl UndefinedBehaviour
       else and_then (created_callback (Some msg) uuid p) (\<lambda>p1. Inr (put_process pid p1 w2))) w"

section \<open>Processes for invocations of the control plane\<close>

definition MAX_FUNCS_PER_PROCESS :: int where "MAX_FUNCS_PER_PROCESS = 1"

fun first_free :: "(nat \<Rightarrow> cp_process option) \<Rightarrow> nat list \<Rightarrow> nat option" where
  "first_free store [] = None"
| "first_free store (pid # pids) =
     (case store pid of
        Some p \<Rightarrow> if sint (pr_active_invocations p) < MAX_FUNCS_PER_PROCESS then Some pid else first_free store pids
      | None \<Rightarrow> first_free store pids)"

definition controlplane_name :: "app_world \<Rightarrow> string" where
  "controlplane_name w = ''controlplane-'' @ decimal (length (ap_controlplane (aw_app w)))"

definition get_controlplane_process ::
    "proc_resources \<Rightarrow> creation_callback \<Rightarrow> string \<Rightarrow> app_world \<Rightarrow> app_world result" where
  "get_controlplane_process res cb uuid w =
     (case first_free (aw_store w) (ap_controlplane (aw_app w)) of
        Some pid \<Rightarrow>
          with_process pid (\<lambda>p. and_then (run_creation_callback cb None uuid p) (\<lambda>p1. Inr (put_process pid p1 w))) w
      | None \<Rightarrow>
          let name = controlplane_name w; pid = aw_next w;
              p = set_creation_callback cb True (Process name res) in
          and_then (server_add_process pid name (w\<lparr>aw_next := Suc pid\<rparr>)) (\<lambda>w1.
          Inr ((put_process pid p w1)\<lparr>aw_requests := aw_requests w @ [pid]\<rparr>)))"

definition controlplane_allocated :: "nat \<Rightarrow> process_instance \<Rightarrow> string \<Rightarrow> app_world \<Rightarrow> app_world result" where
  "controlplane_allocated pid inst uuid w =
     with_process pid (\<lambda>p.
       and_then (instance_allocated inst uuid p) (\<lambda>p1.
       Inr (put_process pid p1 (w\<lparr>aw_app := (aw_app w)\<lparr>ap_controlplane := ap_controlplane (aw_app w) @ [pid]\<rparr>\<rparr>)))) w"

definition controlplane_failed :: "nat \<Rightarrow> string \<Rightarrow> string \<Rightarrow> app_world \<Rightarrow> app_world result" where
  "controlplane_failed pid msg uuid w =
     with_process pid (\<lambda>p. and_then (created_callback (Some msg) uuid p) (\<lambda>p1. Inr (put_process pid p1 w))) w"

section \<open>Lookup\<close>

definition get_process :: "string \<Rightarrow> app_world \<Rightarrow> nat result" where
  "get_process name w = (case active w name of Some pid \<Rightarrow> Inr pid | None \<Rightarrow> Inl (ObjectDoesNotExist name))"

definition get_swapped_process :: "string \<Rightarrow> app_world \<Rightarrow> nat result" where
  "get_swapped_process name w = (case swapped w name of Some pid \<Rightarrow> Inr pid | None \<Rightarrow> Inl (ObjectDoesNotExist name))"

text \<open>The names come in the order of a hash table, which is left open: they are sets here.\<close>

definition get_processes :: "cp_application \<Rightarrow> string set" where
  "get_processes app = dom (ap_active app)"

definition get_swapped_processes :: "cp_application \<Rightarrow> string set" where
  "get_swapped_processes app = dom (ap_swapped app)"

section \<open>Swapping\<close>

text \<open>The location of the deployment is its root path; the local deployment has one for all processes.\<close>

definition swap_process :: "string \<Rightarrow> string \<Rightarrow> app_world \<Rightarrow> app_world result" where
  "swap_process loc name w =
     (if length name = 0 then Inl InvalidConfigurationError
      else case active w name of
             None \<Rightarrow> Inl (ObjectDoesNotExist name)
           | Some pid \<Rightarrow>
               with_process pid (\<lambda>p.
                 if pr_status p \<noteq> ALLOCATED then Inl InvalidProcessState
                 else and_then (process_swap ((set_status SWAPPING_OUT p)\<lparr>pr_swap := Some loc\<rparr>)) (\<lambda>p1.
                      Inr (put_process pid p1 w))) w)"

definition swapped_process :: "string \<Rightarrow> app_world \<Rightarrow> app_world result" where
  "swapped_process name w =
     (case active w name of
        None \<Rightarrow> Inl (ObjectDoesNotExist name)
      | Some pid \<Rightarrow>
          with_process pid (\<lambda>p.
            if pr_status p \<noteq> SWAPPING_OUT then Inl InvalidProcessState
            else
              let w1 = put_process pid (set_status SWAPPED_OUT p) (set_active ((active w)(name := None)) w) in
              Inr (if swapped w name = None then set_swapped ((swapped w)(name \<mapsto> pid)) w1 else w1)) w)"

definition closed_process :: "nat \<Rightarrow> app_world \<Rightarrow> app_world result" where
  "closed_process pid w =
     with_process pid (\<lambda>p.
       if pr_status p \<noteq> SWAPPED_OUT then
         let w1 = put_process pid (set_status FAILURE p) w in
         Inr (if active w (pr_name p) \<noteq> None then set_active ((active w)(pr_name p := None)) w1
              else if swapped w (pr_name p) \<noteq> None then set_swapped ((swapped w)(pr_name p := None)) w1
              else w1)
       else Inr (put_process pid (close_connection p) w)) w"

text \<open>Deleting the swapped state is a no-op of the local deployment, which the swap pointer has to exist for.\<close>

definition delete_process :: "string \<Rightarrow> app_world \<Rightarrow> app_world result" where
  "delete_process name w =
     (if length name = 0 then Inl InvalidConfigurationError
      else case swapped w name of
             None \<Rightarrow> Inl (ObjectDoesNotExist name)
           | Some pid \<Rightarrow>
               with_process pid (\<lambda>p.
                 if pr_swap p = None then Inl UndefinedBehaviour
                 else Inr (set_swapped ((swapped w)(name := None)) w)) w)"

section \<open>Runs\<close>

text \<open>Everything that can happen to the processes of an application.\<close>

inductive app_step :: "app_world \<Rightarrow> app_world \<Rightarrow> bool" where
  step_add: "app_add_process stod mem cpus name res cb wait w = Inr w' \<Longrightarrow> app_step w w'"
| step_allocated: "app_allocated pid inst uuid w = Inr w' \<Longrightarrow> app_step w w'"
| step_failed: "app_allocation_failed pid msg uuid w = Inr w' \<Longrightarrow> app_step w w'"
| step_register: "server_register conn name uuid w = Inr w' \<Longrightarrow> app_step w w'"
| step_controlplane: "get_controlplane_process res cb uuid w = Inr w' \<Longrightarrow> app_step w w'"
| step_cp_allocated: "controlplane_allocated pid inst uuid w = Inr w' \<Longrightarrow> app_step w w'"
| step_cp_failed: "controlplane_failed pid msg uuid w = Inr w' \<Longrightarrow> app_step w w'"
| step_result: "aw_store w pid = Some p \<Longrightarrow> app_step w (put_process pid (finish_invocation iid code buf p) w)"
| step_metrics: "aw_store w pid = Some p \<Longrightarrow> app_step w (put_process pid (update_metrics now t n ts p) w)"
| step_swap: "swap_process loc name w = Inr w' \<Longrightarrow> app_step w w'"
| step_swapped: "swapped_process name w = Inr w' \<Longrightarrow> app_step w w'"
| step_closed: "closed_process pid w = Inr w' \<Longrightarrow> app_step w w'"
| step_delete: "delete_process name w = Inr w' \<Longrightarrow> app_step w w'"

section \<open>Invariant\<close>

text \<open>
  The tables agree with the store: an entry leads to a process of that name, an active one is
  being allocated, allocated or on its way out, a swapped one has left and has a swap location.
  Every process satisfies the invariant of processes.
\<close>

definition entry_ok :: "app_world \<Rightarrow> proc_status set \<Rightarrow> string \<Rightarrow> nat \<Rightarrow> bool" where
  "entry_ok w S name pid \<longleftrightarrow> (\<exists>p. aw_store w pid = Some p \<and> pr_name p = name \<and> pr_status p \<in> S)"

definition app_inv :: "app_world \<Rightarrow> bool" where
  "app_inv w \<longleftrightarrow>
     (\<forall>n pid. active w n = Some pid \<longrightarrow> entry_ok w {ALLOCATING, ALLOCATED, SWAPPING_OUT} n pid) \<and>
     (\<forall>n pid. swapped w n = Some pid \<longrightarrow> entry_ok w {SWAPPED_OUT, CLOSED, FAILURE} n pid) \<and>
     (\<forall>pid p. aw_store w pid = Some p \<longrightarrow> pid < aw_next w \<and> proc_inv p \<and>
        (pr_status p \<in> {SWAPPING_OUT, SWAPPED_OUT} \<longrightarrow> pr_swap p \<noteq> None))"

lemma app_world_fields [simp]:
  "aw_store (put_process pid p w) = (aw_store w)(pid \<mapsto> p)"
  "aw_app (put_process pid p w) = aw_app w"
  "aw_next (put_process pid p w) = aw_next w"
  "aw_pending (put_process pid p w) = aw_pending w"
  "aw_store (set_active t w) = aw_store w"
  "active (set_active t w) = t"
  "swapped (set_active t w) = swapped w"
  "aw_next (set_active t w) = aw_next w"
  "aw_pending (set_active t w) = aw_pending w"
  "aw_store (set_swapped t w) = aw_store w"
  "active (set_swapped t w) = active w"
  "swapped (set_swapped t w) = t"
  "aw_next (set_swapped t w) = aw_next w"
  "aw_pending (set_swapped t w) = aw_pending w"
  by (simp_all add: put_process_def set_active_def set_swapped_def)

lemma with_process_Inr:
  "with_process pid f w = Inr r \<longleftrightarrow> (\<exists>p. aw_store w pid = Some p \<and> f p = Inr r)"
  by (simp add: with_process_def split: option.splits)

text \<open>The three kinds of change: of a process in place, of a table, a new process.\<close>

definition same_place :: "cp_process \<Rightarrow> cp_process \<Rightarrow> bool" where
  "same_place p p' \<longleftrightarrow> pr_name p' = pr_name p \<and> proc_inv p' \<and>
     (pr_status p' = pr_status p \<and> pr_swap p' = pr_swap p \<or>
      {pr_status p, pr_status p'} \<subseteq> {ALLOCATING, ALLOCATED, SWAPPING_OUT} \<and> (pr_status p' = SWAPPING_OUT \<longrightarrow> pr_swap p' \<noteq> None) \<or>
      {pr_status p, pr_status p'} \<subseteq> {SWAPPED_OUT, CLOSED, FAILURE} \<and> (pr_status p' = SWAPPED_OUT \<longrightarrow> pr_swap p' \<noteq> None))"

lemma app_inv_put:
  assumes "app_inv w" and "aw_store w pid = Some p" and "same_place p p'"
  shows "app_inv (put_process pid p' w)"
  using assms unfolding app_inv_def entry_ok_def same_place_def by (auto 0 4)

lemma app_inv_remove:
  assumes "app_inv w"
  shows "app_inv (set_active ((active w)(n := None)) w)" and "app_inv (set_swapped ((swapped w)(n := None)) w)"
  using assms by (simp_all add: app_inv_def entry_ok_def)

lemma app_inv_frame:
  assumes "app_inv w"
  shows "app_inv (w\<lparr>aw_pending := pend\<rparr>)" and "app_inv (w\<lparr>aw_requests := reqs\<rparr>)"
    and "app_inv (w\<lparr>aw_app := (aw_app w)\<lparr>ap_controlplane := pids\<rparr>\<rparr>)"
  using assms by (simp_all add: app_inv_def entry_ok_def)

lemma same_place_inv:
  "proc_inv p' \<Longrightarrow> pr_name p' = pr_name p \<Longrightarrow> pr_status p' = pr_status p \<Longrightarrow> pr_swap p' = pr_swap p \<Longrightarrow> same_place p p'"
  by (simp add: same_place_def)

lemma app_inv_store: "app_inv w \<Longrightarrow> aw_store w pid = Some p \<Longrightarrow> proc_inv p"
  by (simp add: app_inv_def)

lemma app_invD:
  assumes "app_inv w"
  shows "aw_store w pid = Some p \<Longrightarrow> pid < aw_next w"
    and "active w n = Some pid \<Longrightarrow> aw_store w pid = Some p \<Longrightarrow>
           pr_name p = n \<and> pr_status p \<in> {ALLOCATING, ALLOCATED, SWAPPING_OUT}"
    and "swapped w n = Some pid \<Longrightarrow> aw_store w pid = Some p \<Longrightarrow>
           pr_name p = n \<and> pr_status p \<in> {SWAPPED_OUT, CLOSED, FAILURE}"
    and "aw_store w pid = Some p \<Longrightarrow> pr_status p = SWAPPING_OUT \<Longrightarrow> pr_swap p \<noteq> None"
    and "active w n = Some pid \<Longrightarrow> \<exists>p. aw_store w pid = Some p"
  using assms unfolding app_inv_def entry_ok_def by (blast, metis option.inject, metis option.inject, blast, blast)

text \<open>A process changes together with its entries: entries may go, and one for the process may come.\<close>

lemma app_inv_change:
  assumes inv: "app_inv w" and p: "aw_store w pid = Some p" and q: "proc_inv q" "pr_name q = pr_name p"
    and swap: "pr_status q \<in> {SWAPPING_OUT, SWAPPED_OUT} \<longrightarrow> pr_swap q \<noteq> None"
    and act: "\<And>n x. act n = Some x \<Longrightarrow> active w n = Some x \<and> (x = pid \<longrightarrow> pr_status q \<in> {ALLOCATING, ALLOCATED, SWAPPING_OUT})"
    and swp: "\<And>n x. swp n = Some x \<Longrightarrow> (swapped w n = Some x \<or> n = pr_name p \<and> x = pid) \<and>
                (x = pid \<longrightarrow> pr_status q \<in> {SWAPPED_OUT, CLOSED, FAILURE})"
  shows "app_inv (set_swapped swp (set_active act (put_process pid q w)))"
proof -
  let ?w = "set_swapped swp (set_active act (put_process pid q w))"
  have "entry_ok ?w {ALLOCATING, ALLOCATED, SWAPPING_OUT} n x" if "act n = Some x" for n x
    using inv act [OF that] p q app_invD(2) [OF inv, of n pid p] by (cases "x = pid") (auto simp: app_inv_def entry_ok_def)
  moreover have "entry_ok ?w {SWAPPED_OUT, CLOSED, FAILURE} n x" if "swp n = Some x" for n x
    using inv swp [OF that] p q app_invD(3) [OF inv, of n pid p] by (cases "x = pid") (auto simp: app_inv_def entry_ok_def)
  moreover have "x < aw_next ?w \<and> proc_inv r \<and> (pr_status r \<in> {SWAPPING_OUT, SWAPPED_OUT} \<longrightarrow> pr_swap r \<noteq> None)"
    if "aw_store ?w x = Some r" for x r
    using that inv p q swap by (cases "x = pid") (auto simp: app_inv_def)
  ultimately show ?thesis unfolding app_inv_def by simp
qed

lemma set_tables_same [simp]: "set_active (active w) w = w" "set_swapped (swapped w) w = w"
  by (simp_all add: set_active_def set_swapped_def)

lemma app_inv_new:
  assumes "app_inv w" and "pr_name p = n" and "pr_status p = ALLOCATING" and "proc_inv p"
  shows "app_inv (put_process (aw_next w) p (w\<lparr>aw_next := Suc (aw_next w)\<rparr>))"
    and "app_inv (put_process (aw_next w) p ((set_active ((active w)(n \<mapsto> aw_next w)) w)\<lparr>aw_next := Suc (aw_next w)\<rparr>))"
proof -
  have old: "aw_store w pid = Some q \<Longrightarrow> pid \<noteq> aw_next w \<and> pid < Suc (aw_next w)" for pid q
    using app_invD(1) [OF assms(1)] by fastforce
  have "swapped w m \<noteq> Some (aw_next w)" for m
    using assms(1) old unfolding app_inv_def entry_ok_def by blast
  then show "app_inv (put_process (aw_next w) p (w\<lparr>aw_next := Suc (aw_next w)\<rparr>))"
    and "app_inv (put_process (aw_next w) p ((set_active ((active w)(n \<mapsto> aw_next w)) w)\<lparr>aw_next := Suc (aw_next w)\<rparr>))"
    using assms unfolding app_inv_def entry_ok_def by (auto dest: old simp: set_active_def put_process_def)
qed

lemma Process_new:
  "pr_name (set_creation_callback cb wait (Process name res)) = name"
  "pr_status (set_creation_callback cb wait (Process name res)) = ALLOCATING"
  "proc_inv (set_creation_callback cb wait (Process name res))"
  by (simp_all add: set_creation_callback_def Process_def proc_inv_def)

lemma app_add_process_inv:
  assumes "app_add_process stod mem cpus name res cb wait w = Inr w'" and "app_inv w"
  shows "app_inv w'"
proof -
  let ?p = "set_creation_callback cb wait (Process name res)"
  let ?w = "put_process (aw_next w) ?p ((set_active ((active w)(name \<mapsto> aw_next w)) w)\<lparr>aw_next := Suc (aw_next w)\<rparr>)"
  from assms(1) have "w' = ?w\<lparr>aw_pending := (aw_pending w)(name \<mapsto> aw_next w)\<rparr>\<lparr>aw_requests := aw_requests w @ [aw_next w]\<rparr>"
    by (auto simp: app_add_process_def Let_def server_add_process_def and_then_eq_Inr put_process_def set_active_def split: if_splits)
  moreover have "app_inv ?w" using assms(2) by (intro app_inv_new Process_new)
  ultimately show ?thesis by (simp add: app_inv_frame)
qed

lemma get_controlplane_process_inv:
  assumes "get_controlplane_process res cb uuid w = Inr w'" and "app_inv w"
  shows "app_inv w'"
proof (cases "first_free (aw_store w) (ap_controlplane (aw_app w))")
  case None
  let ?p = "set_creation_callback cb True (Process (controlplane_name w) res)"
  let ?w = "put_process (aw_next w) ?p (w\<lparr>aw_next := Suc (aw_next w)\<rparr>)"
  from None assms(1) have "w' = ?w\<lparr>aw_pending := (aw_pending w)(controlplane_name w \<mapsto> aw_next w)\<rparr>\<lparr>aw_requests := aw_requests w @ [aw_next w]\<rparr>"
    by (auto simp: get_controlplane_process_def Let_def server_add_process_def and_then_eq_Inr put_process_def split: if_splits)
  moreover have "app_inv ?w" by (intro app_inv_new(1) [OF assms(2) refl] Process_new)
  ultimately show ?thesis by (simp add: app_inv_frame)
next
  case (Some pid)
  with assms(1) obtain p p1 where p: "aw_store w pid = Some p" "run_creation_callback cb None uuid p = Inr p1" "w' = put_process pid p1 w"
    by (auto simp: get_controlplane_process_def with_process_Inr and_then_eq_Inr)
  with run_creation_callback_inv [OF p(2)] assms(2) show ?thesis
    by (auto intro: app_inv_put same_place_inv app_inv_store)
qed

lemma app_allocation_inv:
  "app_allocated pid inst uuid w = Inr w' \<Longrightarrow> app_inv w \<Longrightarrow> app_inv w'"
  "app_allocation_failed pid msg uuid w = Inr w' \<Longrightarrow> app_inv w \<Longrightarrow> app_inv w'"
  "controlplane_allocated pid inst uuid w = Inr w' \<Longrightarrow> app_inv w \<Longrightarrow> app_inv w'"
  "controlplane_failed pid msg uuid w = Inr w' \<Longrightarrow> app_inv w \<Longrightarrow> app_inv w'"
proof -
  assume inv: "app_inv w"
  show "app_inv w'" if "app_allocated pid inst uuid w = Inr w'"
    using that inv instance_allocated_inv
    by (fastforce simp: app_allocated_def with_process_Inr and_then_eq_Inr intro: app_inv_put same_place_inv app_inv_store)
  show "app_inv w'" if "app_allocation_failed pid msg uuid w = Inr w'"
  proof -
    from that obtain p p1 where p: "aw_store w pid = Some p" "created_callback (Some msg) uuid p = Inr p1"
        "w' = put_process pid p1 (set_active ((active w)(pr_name p := None)) w)"
      by (auto simp: app_allocation_failed_def with_process_Inr and_then_eq_Inr Let_def server_remove_process_def split: if_splits)
    from created_callback_inv [OF p(2)] app_inv_store [OF inv p(1)] have "same_place p p1"
      by (simp add: same_place_inv)
    with p inv show ?thesis by (simp add: app_inv_put [of _ pid p] app_inv_remove)
  qed
  show "app_inv w'" if "controlplane_allocated pid inst uuid w = Inr w'"
    using that inv instance_allocated_inv
    by (fastforce simp: controlplane_allocated_def with_process_Inr and_then_eq_Inr
        intro!: app_inv_put [of _ pid] app_inv_frame intro: same_place_inv app_inv_store)
  show "app_inv w'" if "controlplane_failed pid msg uuid w = Inr w'"
    using that inv created_callback_inv
    by (fastforce simp: controlplane_failed_def with_process_Inr and_then_eq_Inr intro: app_inv_put same_place_inv app_inv_store)
qed

lemma server_register_inv:
  assumes "server_register conn name uuid w = Inr w'" and "app_inv w"
  shows "app_inv w'"
proof (cases "aw_pending w name")
  case None
  with assms show ?thesis by (simp add: server_register_def)
next
  case (Some pid)
  with assms(1) obtain p p1 where p: "aw_store w pid = Some p" "connect conn uuid p = Inr p1"
      "w' = put_process pid p1 (w\<lparr>aw_pending := (aw_pending w)(name := None)\<rparr>)"
    by (auto simp: server_register_def with_process_Inr and_then_eq_Inr)
  from p(2) have "pr_status p = ALLOCATING" by (simp add: connect_def split: if_splits)
  with connect_inv [OF p(2)] app_inv_store [OF assms(2) p(1)] have "same_place p p1" by (simp add: same_place_def)
  with p assms(2) show ?thesis by (simp add: app_inv_frame app_inv_put [of _ pid p])
qed

lemma process_swap_Inr:
  "process_swap p = Inr p' \<Longrightarrow> \<exists>ds. p' = p\<lparr>pr_sent := pr_sent p @ ds\<rparr>"
  by (auto simp: process_swap_def tcp_send_def and_then_eq_Inr split: if_splits option.splits intro: exI [of _ "[]"])

lemma swap_process_inv:
  assumes "swap_process loc name w = Inr w'" and "app_inv w"
  shows "app_inv w'"
proof -
  from assms(1) obtain pid p p1 where p: "aw_store w pid = Some p" "pr_status p = ALLOCATED"
      "process_swap ((set_status SWAPPING_OUT p)\<lparr>pr_swap := Some loc\<rparr>) = Inr p1" "w' = put_process pid p1 w"
    by (auto simp: swap_process_def with_process_Inr and_then_eq_Inr split: if_splits option.splits)
  from process_swap_Inr [OF p(3)] app_inv_store [OF assms(2) p(1)] p(2) have "same_place p p1"
    by (auto simp: same_place_def proc_inv_def set_status_def)
  with p assms(2) show ?thesis by (simp add: app_inv_put)
qed

lemma swapped_process_inv:
  assumes "swapped_process name w = Inr w'" and "app_inv w"
  shows "app_inv w'"
proof -
  from assms(1) obtain pid p where p: "active w name = Some pid" "aw_store w pid = Some p" "pr_status p = SWAPPING_OUT"
      "w' = (let w1 = put_process pid (set_status SWAPPED_OUT p) (set_active ((active w)(name := None)) w) in
             if swapped w name = None then set_swapped ((swapped w)(name \<mapsto> pid)) w1 else w1)"
    by (auto simp: swapped_process_def with_process_Inr Let_def split: if_splits option.splits)
  have name: "pr_name p = name" "proc_inv p" "pr_swap p \<noteq> None"
    using app_invD(2) [OF assms(2) p(1,2)] app_invD(4) [OF assms(2) p(2,3)] app_inv_store [OF assms(2) p(2)] by simp_all
  have only: "active w n = Some pid \<Longrightarrow> n = name" "swapped w n \<noteq> Some pid" for n
    using app_invD(2,3) [OF assms(2), of n pid p] p(2,3) name(1) by auto
  have w': "w' = set_swapped (if swapped w name = None then (swapped w)(name \<mapsto> pid) else swapped w)
      (set_active ((active w)(name := None)) (put_process pid (set_status SWAPPED_OUT p) w))"
    using p(4) by (simp add: Let_def set_swapped_def set_active_def put_process_def)
  show ?thesis
    unfolding w' using name only p(2)
    by (intro app_inv_change [OF assms(2) p(2)]) (auto simp: set_status_def proc_inv_def split: if_splits)
qed

lemma closed_process_inv:
  assumes "closed_process pid w = Inr w'" and "app_inv w"
  shows "app_inv w'"
proof -
  from assms(1) obtain p where p: "aw_store w pid = Some p"
      "(if pr_status p \<noteq> SWAPPED_OUT then
          let w1 = put_process pid (set_status FAILURE p) w in
          Inr (if active w (pr_name p) \<noteq> None then set_active ((active w)(pr_name p := None)) w1
               else if swapped w (pr_name p) \<noteq> None then set_swapped ((swapped w)(pr_name p := None)) w1
               else w1)
        else Inr (put_process pid (close_connection p) w)) = (Inr w' :: app_world result)"
    using assms(1) [unfolded closed_process_def with_process_Inr] by (elim exE conjE) (rule that, assumption+)
  have only: "active w n = Some pid \<Longrightarrow> n = pr_name p" "swapped w n = Some pid \<Longrightarrow> n = pr_name p" "proc_inv p" for n
    using app_invD(2,3) [OF assms(2), of n pid p] p(1) app_inv_store [OF assms(2) p(1)] by auto
  have inv: "proc_inv (set_status FAILURE p)" "proc_inv (close_connection p)"
    using only(3) by (simp_all add: proc_inv_def set_status_def close_connection_def)
  show ?thesis
  proof (cases "pr_status p = SWAPPED_OUT")
    case True
    then have "same_place p (close_connection p)" using inv by (simp add: same_place_def close_connection_def)
    with True p assms(2) show ?thesis using app_inv_put [OF assms(2) p(1)] by auto
  next
    case False
    define act where "act = (if active w (pr_name p) \<noteq> None then (active w)(pr_name p := None) else active w)"
    define swp where "swp = (if active w (pr_name p) = None \<and> swapped w (pr_name p) \<noteq> None
        then (swapped w)(pr_name p := None) else swapped w)"
    have "w' = set_swapped swp (set_active act (put_process pid (set_status FAILURE p) w))"
      using p(2) False by (cases "active w (pr_name p)"; cases "swapped w (pr_name p)")
        (auto simp: Let_def act_def swp_def set_swapped_def set_active_def put_process_def)
    moreover have "app_inv \<dots>"
      using inv only False by (intro app_inv_change [OF assms(2) p(1)]) (auto simp: act_def swp_def set_status_def split: if_splits)
    ultimately show ?thesis by simp
  qed
qed

lemma app_step_inv: "app_inv w \<Longrightarrow> app_step w w' \<Longrightarrow> app_inv w'"
proof (erule app_step.cases, goal_cases)
  case (8 v pid p iid code buf)
  then have "same_place p (finish_invocation iid code buf p)"
    by (intro same_place_inv finish_invocation_inv app_inv_store)
       (auto simp: finish_invocation_def respond_def split: option.splits)
  with 8 show ?case by (simp add: app_inv_put)
next
  case (9 v pid p now t n ts)
  then have "same_place p (update_metrics now t n ts p)"
    using app_inv_store [of v pid p] by (auto simp: same_place_def update_metrics_def proc_inv_def)
  with 9 show ?case by (simp add: app_inv_put)
next
  case (13 name v v')
  then show ?case
    by (auto simp: delete_process_def with_process_Inr app_inv_remove split: if_splits option.splits)
qed (auto intro: app_add_process_inv app_allocation_inv server_register_inv get_controlplane_process_inv
      swap_process_inv swapped_process_inv closed_process_inv)

interpretation app_run: invariant_machine "\<lambda>w. \<exists>name code. w = app_start name code" app_step app_inv
proof
  show "app_inv w" if "\<exists>name code. w = app_start name code" for w
    using that by (auto simp: app_inv_def app_start_def Application_def)
qed (rule app_step_inv)


section \<open>The life of a name\<close>

text \<open>
  The abstract machine of an application: for every name the status of its active process, and
  the set of swapped names.
\<close>

type_synonym table = "(string \<Rightarrow> proc_status option) \<times> string set"

inductive table_step :: "table \<Rightarrow> table \<Rightarrow> bool" where
  table_stay: "table_step t t"
| table_add: "act n = None \<Longrightarrow> table_step (act, swp) (act(n \<mapsto> ALLOCATING), swp)"
| table_connect: "act n = Some ALLOCATING \<Longrightarrow> table_step (act, swp) (act(n \<mapsto> ALLOCATED), swp)"
| table_swap: "act n = Some ALLOCATED \<Longrightarrow> table_step (act, swp) (act(n \<mapsto> SWAPPING_OUT), swp)"
| table_swapped: "act n = Some SWAPPING_OUT \<Longrightarrow> table_step (act, swp) (act(n := None), insert n swp)"
| table_remove: "act n \<noteq> None \<Longrightarrow> table_step (act, swp) (act(n := None), swp)"
| table_delete: "n \<in> swp \<Longrightarrow> table_step (act, swp) (act, swp - {n})"

inductive_simps table_step_pair: "table_step (act, swp) t"

definition active_view :: "app_world \<Rightarrow> string \<Rightarrow> proc_status option" where
  "active_view w n = Option.bind (active w n) (\<lambda>pid. map_option pr_status (aw_store w pid))"

definition table_view :: "app_world \<Rightarrow> table" where
  "table_view w = (active_view w, dom (swapped w))"

lemma active_view_Some:
  "active w n = Some pid \<Longrightarrow> aw_store w pid = Some p \<Longrightarrow> active_view w n = Some (pr_status p)"
  by (simp add: active_view_def)

lemma active_view_put:
  assumes "app_inv w" and "aw_store w pid = Some p"
  shows "active_view (put_process pid q w) =
     (if active w (pr_name p) = Some pid then (active_view w)(pr_name p \<mapsto> pr_status q) else active_view w)"
proof
  fix n
  have "active w n = Some pid \<Longrightarrow> n = pr_name p" using app_invD(2) [OF assms(1) _ assms(2)] by auto
  then show "active_view (put_process pid q w) n =
      (if active w (pr_name p) = Some pid then (active_view w)(pr_name p \<mapsto> pr_status q) else active_view w) n"
    by (cases "active w n") (auto simp: active_view_def)
qed

lemma active_view_put_same:
  "app_inv w \<Longrightarrow> aw_store w pid = Some p \<Longrightarrow> pr_status q = pr_status p \<Longrightarrow> active_view (put_process pid q w) = active_view w"
  by (auto simp: active_view_put active_view_def fun_eq_iff)

lemma active_view_frame:
  "active_view (w\<lparr>aw_pending := pend\<rparr>) = active_view w" "active_view (w\<lparr>aw_requests := reqs\<rparr>) = active_view w"
  "active_view (w\<lparr>aw_app := (aw_app w)\<lparr>ap_controlplane := pids\<rparr>\<rparr>) = active_view w"
  "active_view (set_swapped t w) = active_view w"
  "active_view (set_active ((active w)(n := None)) w) = (active_view w)(n := None)"
  by (auto simp: active_view_def fun_eq_iff)

lemma active_view_new:
  assumes "app_inv w"
  shows "active_view (put_process (aw_next w) p (w\<lparr>aw_next := k\<rparr>)) = active_view w"
    and "active_view (put_process (aw_next w) p ((set_active ((active w)(n \<mapsto> aw_next w)) w)\<lparr>aw_next := k\<rparr>)) =
         (active_view w)(n \<mapsto> pr_status p)"
proof -
  have "active w m \<noteq> Some (aw_next w)" for m
    using assms app_invD(1) [OF assms] unfolding app_inv_def entry_ok_def by blast
  then show "active_view (put_process (aw_next w) p (w\<lparr>aw_next := k\<rparr>)) = active_view w"
    and "active_view (put_process (aw_next w) p ((set_active ((active w)(n \<mapsto> aw_next w)) w)\<lparr>aw_next := k\<rparr>)) =
         (active_view w)(n \<mapsto> pr_status p)"
    by (auto simp: active_view_def fun_eq_iff set_active_def split: bind_splits)
qed

lemma closed_process_view:
  assumes "closed_process pid w = Inr w'" and inv: "app_inv w"
  shows "table_step (table_view w) (table_view w')"
proof -
  from assms(1) obtain p where p: "aw_store w pid = Some p"
    by (auto simp: closed_process_def with_process_Inr)
  show ?thesis
  proof (cases "pr_status p = SWAPPED_OUT")
    case True
    then have "active w (pr_name p) \<noteq> Some pid" using app_invD(2) [OF inv _ p] by auto
    with True p assms have "table_view w' = table_view w"
      by (auto simp: closed_process_def with_process_def table_view_def active_view_put)
    then show ?thesis by (simp add: table_stay)
  next
    case False
    consider (act) pid' where "active w (pr_name p) = Some pid'"
      | (swp) "active w (pr_name p) = None" "swapped w (pr_name p) \<noteq> None"
      | (none) "active w (pr_name p) = None" "swapped w (pr_name p) = None" by fastforce
    then show ?thesis
    proof cases
      case act
      with p False assms(1) have "w' = set_active ((active w)(pr_name p := None)) (put_process pid (set_status FAILURE p) w)"
        by (simp add: closed_process_def with_process_def Let_def)
      then have "table_view w' = ((active_view w)(pr_name p := None), dom (swapped w))"
        using active_view_frame(5) [of "put_process pid (set_status FAILURE p) w" "pr_name p"]
        by (auto simp: table_view_def active_view_put [OF inv p])
      moreover have "active_view w (pr_name p) \<noteq> None"
        using app_invD(5) [OF inv act] act by (auto simp: active_view_def)
      ultimately show ?thesis by (simp add: table_view_def table_remove)
    next
      case swp
      with p False assms(1) have "table_view w' = (active_view w, dom (swapped w) - {pr_name p})"
        by (auto simp: closed_process_def with_process_def Let_def table_view_def active_view_frame active_view_put [OF inv p] split: if_splits)
      with swp show ?thesis by (simp add: table_view_def table_delete domIff)
    next
      case none
      with p False assms(1) have "table_view w' = table_view w"
        by (auto simp: closed_process_def with_process_def Let_def table_view_def active_view_put [OF inv p])
      then show ?thesis by (simp add: table_stay)
    qed
  qed
qed


lemma app_add_process_view:
  assumes "app_add_process stod mem cpus name res cb wait w = Inr w'" and inv: "app_inv w"
  shows "table_step (table_view w) (table_view w')"
proof -
  let ?p = "set_creation_callback cb wait (Process name res)"
  from assms(1) have new: "active w name = None" and w': "w' = put_process (aw_next w) ?p ((set_active ((active w)(name \<mapsto> aw_next w)) w)\<lparr>aw_next := Suc (aw_next w)\<rparr>)
      \<lparr>aw_pending := (aw_pending w)(name \<mapsto> aw_next w)\<rparr>\<lparr>aw_requests := aw_requests w @ [aw_next w]\<rparr>"
    by (auto simp: app_add_process_def Let_def server_add_process_def and_then_eq_Inr put_process_def set_active_def split: if_splits)
  have "table_view w' = ((active_view w)(name \<mapsto> ALLOCATING), dom (swapped w))"
    unfolding w' table_view_def active_view_frame active_view_new(2) [OF inv] by (simp add: Process_new set_active_def)
  moreover have "active_view w name = None" using new by (simp add: active_view_def)
  ultimately show ?thesis by (simp add: table_view_def table_add)
qed

lemma get_controlplane_process_view:
  assumes "get_controlplane_process res cb uuid w = Inr w'" and inv: "app_inv w"
  shows "table_step (table_view w) (table_view w')"
proof -
  show ?thesis
  proof (cases "first_free (aw_store w) (ap_controlplane (aw_app w))")
    case None
    let ?p = "set_creation_callback cb True (Process (controlplane_name w) res)"
    from None assms(1) have w': "w' = put_process (aw_next w) ?p (w\<lparr>aw_next := Suc (aw_next w)\<rparr>)
        \<lparr>aw_pending := (aw_pending w)(controlplane_name w \<mapsto> aw_next w)\<rparr>\<lparr>aw_requests := aw_requests w @ [aw_next w]\<rparr>"
      by (auto simp: get_controlplane_process_def Let_def server_add_process_def and_then_eq_Inr put_process_def split: if_splits)
    have "table_view w' = table_view w"
      unfolding w' table_view_def active_view_frame active_view_new(1) [OF inv] by simp
    then show ?thesis by (simp add: table_stay)
  next
    case (Some pid)
    with assms(1) obtain p p1 where p: "aw_store w pid = Some p" "run_creation_callback cb None uuid p = Inr p1" "w' = put_process pid p1 w"
      by (auto simp: get_controlplane_process_def with_process_Inr and_then_eq_Inr)
    with run_creation_callback_inv [OF p(2) app_inv_store [OF inv p(1)]] have "table_view w' = table_view w"
      by (simp add: table_view_def active_view_put_same [OF inv p(1)])
    then show ?thesis by (simp add: table_stay)
  qed
qed

lemma server_register_view:
  assumes "server_register conn name uuid w = Inr w'" and inv: "app_inv w"
  shows "table_step (table_view w) (table_view w')"
proof -
  show ?thesis
  proof (cases "aw_pending w name")
    case None
    with assms(1) show ?thesis by (simp add: server_register_def table_stay)
  next
    case (Some pid)
    with assms(1) obtain p p1 where p: "aw_store w pid = Some p" "connect conn uuid p = Inr p1"
        "w' = (put_process pid p1 w)\<lparr>aw_pending := (aw_pending w)(name := None)\<rparr>"
      by (auto simp: server_register_def with_process_Inr and_then_eq_Inr put_process_def)
    have st: "pr_status p = ALLOCATING" "pr_status p1 = ALLOCATED"
      using p(2) connect_inv [OF p(2) app_inv_store [OF inv p(1)]] by (simp_all add: connect_def split: if_splits)
    show ?thesis
    proof (cases "active w (pr_name p) = Some pid")
      case True
      then have "active_view w (pr_name p) = Some ALLOCATING" using p(1) st by (simp add: active_view_Some)
      moreover have "table_view w' = ((active_view w)(pr_name p \<mapsto> ALLOCATED), dom (swapped w))"
        using True st(2) unfolding p(3) table_view_def active_view_frame by (simp add: active_view_put [OF inv p(1)])
      ultimately show ?thesis by (simp add: table_view_def table_connect)
    next
      case False
      then have "table_view w' = table_view w"
        unfolding p(3) table_view_def active_view_frame by (simp add: active_view_put [OF inv p(1)])
      then show ?thesis by (simp add: table_stay)
    qed
  qed
qed

lemma app_allocation_failed_view:
  assumes "app_allocation_failed pid msg uuid w = Inr w'" and inv: "app_inv w"
  shows "table_step (table_view w) (table_view w')"
proof -
  from assms(1) obtain p p1 where p: "aw_store w pid = Some p" "created_callback (Some msg) uuid p = Inr p1" "active w (pr_name p) = Some pid"
      "w' = set_active ((active w)(pr_name p := None)) (put_process pid p1 w)"
    by (auto simp: app_allocation_failed_def with_process_Inr and_then_eq_Inr Let_def server_remove_process_def
        put_process_def set_active_def split: if_splits)
  have "active_view w' = (active_view w)(pr_name p := None)"
    using active_view_frame(5) [of "put_process pid p1 w" "pr_name p"] by (simp add: p(4) active_view_put [OF inv p(1)])
  moreover have "active_view w (pr_name p) \<noteq> None" using p by (simp add: active_view_Some)
  ultimately show ?thesis using p(4) by (simp add: table_view_def table_remove)
qed

lemma swap_process_view:
  assumes "swap_process loc name w = Inr w'" and inv: "app_inv w"
  shows "table_step (table_view w) (table_view w')"
proof -
  from assms(1) obtain pid p p1 where p: "active w name = Some pid" "aw_store w pid = Some p" "pr_status p = ALLOCATED"
      "process_swap ((set_status SWAPPING_OUT p)\<lparr>pr_swap := Some loc\<rparr>) = Inr p1" "w' = put_process pid p1 w"
    by (auto simp: swap_process_def with_process_Inr and_then_eq_Inr split: if_splits option.splits)
  have "pr_status p1 = SWAPPING_OUT" using process_swap_Inr [OF p(4)] by (auto simp: set_status_def)
  moreover have "pr_name p = name" using app_invD(2) [OF inv p(1,2)] by simp
  ultimately show ?thesis
    using p table_swap [of "active_view w" name "dom (swapped w)"]
    by (simp add: table_view_def active_view_put [OF inv p(2)] active_view_Some)
qed

lemma swapped_process_view:
  assumes "swapped_process name w = Inr w'" and inv: "app_inv w"
  shows "table_step (table_view w) (table_view w')"
proof -
  from assms(1) obtain pid p where p: "active w name = Some pid" "aw_store w pid = Some p" "pr_status p = SWAPPING_OUT"
      "w' = (let w1 = put_process pid (set_status SWAPPED_OUT p) (set_active ((active w)(name := None)) w) in
             if swapped w name = None then set_swapped ((swapped w)(name \<mapsto> pid)) w1 else w1)"
    by (auto simp: swapped_process_def with_process_Inr Let_def split: if_splits option.splits)
  let ?w = "set_active ((active w)(name := None)) w"
  have "pr_name p = name" using app_invD(2) [OF inv p(1,2)] by simp
  then have "active_view (put_process pid (set_status SWAPPED_OUT p) ?w) = (active_view w)(name := None)"
    using app_inv_remove(1) [OF inv] p(2) active_view_put [of ?w pid p] by (simp add: active_view_frame)
  then have "table_view w' = ((active_view w)(name := None), insert name (dom (swapped w)))"
    using p(4) by (auto simp: table_view_def Let_def active_view_frame split: if_splits)
  with p show ?thesis by (simp add: table_view_def table_swapped active_view_Some)
qed

lemma controlplane_allocated_view:
  assumes "controlplane_allocated pid inst uuid w = Inr w'" and inv: "app_inv w"
  shows "table_step (table_view w) (table_view w')"
proof -
  from assms(1) obtain p p1 where p: "aw_store w pid = Some p" "instance_allocated inst uuid p = Inr p1"
      "w' = (put_process pid p1 w)\<lparr>aw_app := (aw_app w)\<lparr>ap_controlplane := ap_controlplane (aw_app w) @ [pid]\<rparr>\<rparr>"
    by (auto simp: controlplane_allocated_def with_process_Inr and_then_eq_Inr put_process_def)
  have "active_view w' = active_view (put_process pid p1 w)"
    using active_view_frame(3) [where w = "put_process pid p1 w"] by (simp add: p(3))
  also have "\<dots> = active_view w"
    using instance_allocated_inv [OF p(2) app_inv_store [OF inv p(1)]] by (simp add: active_view_put_same [OF inv p(1)])
  finally show ?thesis using p(3) by (simp add: table_view_def table_stay)
qed

lemma app_step_view:
  assumes "app_step w w'" and inv: "app_inv w"
  shows "table_step (table_view w) (table_view w')"
  using assms(1)
proof cases
  case (step_allocated pid inst uuid)
  then have "table_view w' = table_view w"
    using inv instance_allocated_inv app_inv_store [OF inv]
    by (fastforce simp: app_allocated_def with_process_Inr and_then_eq_Inr table_view_def active_view_put_same)
  then show ?thesis by (simp add: table_stay)
next
  case (step_cp_failed pid msg uuid)
  then have "table_view w' = table_view w"
    using inv created_callback_inv app_inv_store [OF inv]
    by (fastforce simp: controlplane_failed_def with_process_Inr and_then_eq_Inr table_view_def active_view_put_same)
  then show ?thesis by (simp add: table_stay)
next
  case (step_result pid p iid code buf)
  then have "table_view w' = table_view w"
    using inv by (auto simp: table_view_def active_view_put_same finish_invocation_def respond_def split: option.splits)
  then show ?thesis by (simp add: table_stay)
next
  case (step_metrics pid p now t n ts)
  then have "table_view w' = table_view w"
    using inv by (auto simp: table_view_def active_view_put_same update_metrics_def)
  then show ?thesis by (simp add: table_stay)
next
  case (step_delete name)
  then have "table_view w' = (active_view w, dom (swapped w) - {name})" "name \<in> dom (swapped w)"
    by (auto simp: delete_process_def with_process_Inr table_view_def active_view_frame split: if_splits option.splits)
  then show ?thesis by (simp add: table_view_def table_delete)
qed (use inv in \<open>auto intro: app_add_process_view get_controlplane_process_view server_register_view
    app_allocation_failed_view swap_process_view swapped_process_view controlplane_allocated_view closed_process_view\<close>)

section \<open>Properties\<close>

text \<open>
  C12. Refinement. Whatever happens to an application (new processes, answers of the backend,
  connections, results, swaps and closed connections in any order) is, on the table of names, a
  step of the abstract life cycle: a name is added when it is not active, its process connects,
  swaps out and becomes swapped in that order, and is removed on failure; swapped names are only
  added by a completed swap and removed by a deletion or a failure. The tables and the store agree
  in every reachable state, so that a process is never active and swapped at the same time.
\<close>

theorem application_refines_lifecycle:
  assumes "reachable (\<lambda>w. \<exists>name code. w = app_start name code) app_step w" and "app_step w w'"
  shows "table_step (table_view w) (table_view w') \<and> app_inv w'"
  using app_step_view app_step_inv assms(2) app_run.reachable_good [OF assms(1)] by blast

theorem application_refines_lifecycle_witness:
  "\<exists>w'. app_add_process (\<lambda>s. Inr 1) 1024 1 ''p'' example_resources (DescribeProcess 1) True (app_start ''app'' ''img'') = Inr w' \<and>
        table_step (table_view (app_start ''app'' ''img'')) (table_view w')"
proof -
  obtain w' where w': "app_add_process (\<lambda>s. Inr 1) 1024 1 ''p'' example_resources (DescribeProcess 1) True (app_start ''app'' ''img'') = Inr w'"
    by (simp add: app_add_process_def app_start_def Application_def Let_def server_add_process_def set_active_def)
  have "reachable (\<lambda>w. \<exists>name code. w = app_start name code) app_step (app_start ''app'' ''img'')"
    by (auto intro: reachable_start)
  with w' show ?thesis using application_refines_lifecycle [of "app_start ''app'' ''img''" w'] step_add [OF w'] by blast
qed


definition example_world :: app_world where
  "example_world = (put_process 0 example_process (set_active [''p'' \<mapsto> 0] (app_start ''app'' ''img'')))\<lparr>aw_next := 1\<rparr>"

lemma example_world_inv: "app_inv example_world"
  by (simp add: example_world_def app_inv_def entry_ok_def app_start_def Application_def put_process_def set_active_def
      example_process_def Process_def proc_inv_def cp_Invocation_def)

lemma example_world_fields:
  "active example_world ''p'' = Some 0" "aw_store example_world 0 = Some example_process"
  "pr_status example_process = ALLOCATED" "swapped example_world ''p'' = None"
  by (simp_all add: example_world_def app_start_def Application_def put_process_def set_active_def example_process_def)


text \<open>
  C39. A second swap of a name loses the process. When a process is created under the name of a
  swapped one and is swapped out itself, the insertion into the table of swapped processes fails
  without notice: afterwards the new process is in neither table, and its state can no longer be
  found or deleted.
\<close>

theorem swapped_name_lost:
  assumes inv: "app_inv w" and p: "active w n = Some pid" "aw_store w pid = Some p" "pr_status p = SWAPPING_OUT"
    and old: "swapped w n = Some other"
  shows "\<exists>w'. swapped_process n w = Inr w' \<and> get_swapped_process n w' = Inr other \<and>
              (\<forall>m. active w' m \<noteq> Some pid \<and> swapped w' m \<noteq> Some pid)"
proof -
  have name: "pr_name p = n" using app_invD(2) [OF inv p(1,2)] by simp
  have only: "active w m = Some pid \<Longrightarrow> m = n" "swapped w m \<noteq> Some pid" for m
    using app_invD(2) [OF inv, of m pid p] app_invD(3) [OF inv, of m pid p] p(2,3) name by auto
  define w' where "w' = put_process pid (set_status SWAPPED_OUT p) (set_active ((active w)(n := None)) w)"
  have "swapped_process n w = Inr w'"
    using p old by (simp add: swapped_process_def with_process_def Let_def w'_def)
  moreover have "get_swapped_process n w' = Inr other" using old by (simp add: get_swapped_process_def w'_def)
  moreover have "active w' m \<noteq> Some pid \<and> swapped w' m \<noteq> Some pid" for m
    using only [of m] by (auto simp: w'_def)
  ultimately show ?thesis by blast
qed

theorem swapped_name_lost_witness:
  "\<exists>w'. swapped_process ''p'' (set_swapped [''p'' \<mapsto> 1] (put_process 1 (set_status CLOSED (Process ''p'' example_resources))
           (put_process 0 ((set_status SWAPPING_OUT example_process)\<lparr>pr_swap := Some []\<rparr>) (example_world\<lparr>aw_next := 2\<rparr>)))) = Inr w' \<and>
        (\<forall>m. active w' m \<noteq> Some 0 \<and> swapped w' m \<noteq> Some 0)"
proof -
  let ?p = "(set_status SWAPPING_OUT example_process)\<lparr>pr_swap := Some []\<rparr>"
  let ?w = "set_swapped [''p'' \<mapsto> 1] (put_process 1 (set_status CLOSED (Process ''p'' example_resources))
           (put_process 0 ?p (example_world\<lparr>aw_next := 2\<rparr>)))"
  have "app_inv ?w"
    by (simp add: app_inv_def entry_ok_def example_world_def app_start_def Application_def put_process_def set_active_def
        set_swapped_def example_process_def Process_def proc_inv_def cp_Invocation_def set_status_def)
  moreover have "active ?w ''p'' = Some 0" "aw_store ?w 0 = Some ?p" "pr_status ?p = SWAPPING_OUT" "swapped ?w ''p'' = Some 1"
    using example_world_fields by (simp_all add: set_status_def)
  ultimately show ?thesis using swapped_name_lost [of ?w "''p''" 0 ?p 1] by blast
qed

text \<open>
  A failed allocation blocks its name. The failure takes the process out of the table of the
  application, but the server keeps it among the processes it waits for, since its removal is not
  implemented; creating a process of that name again fails with an object that exists, although
  the application has none.
\<close>

lemma failed_allocation_blocks_name:
  assumes "app_add_process stod mem cpus n res cb wait w = Inr w1"
    and "app_allocation_failed (aw_next w) msg uuid w1 = Inr w2"
  shows "get_process n w2 = Inl (ObjectDoesNotExist n) \<and>
         app_add_process stod mem cpus n res cb' wait' w2 = Inl (ObjectExists n)"
proof -
  have a: "n \<noteq> []" "\<exists>m. stod (rs_memory res) = Inr m \<and> 0 < m \<and> m \<le> mem" "\<exists>v. stod (rs_vcpus res) = Inr v \<and> 0 < v \<and> v \<le> cpus"
      "aw_pending w1 n = Some (aw_next w)" "active w1 n = Some (aw_next w)" "\<exists>p. aw_store w1 (aw_next w) = Some p \<and> pr_name p = n"
    using assms(1)
    by (auto simp: app_add_process_def and_then_eq_Inr Let_def server_add_process_def set_creation_callback_def Process_def
        set_active_def split: if_splits)
  then have "active w2 n = None" "aw_pending w2 n = Some (aw_next w)"
    using assms(2)
    by (auto simp: app_allocation_failed_def with_process_Inr and_then_eq_Inr Let_def server_remove_process_def split: if_splits)
  with a show ?thesis
    by (auto simp: get_process_def app_add_process_def Let_def server_add_process_def)
qed

lemma failed_allocation_blocks_name_witness:
  "\<exists>w1 w2. app_add_process (\<lambda>s. Inr 1) 1024 1 ''p'' example_resources (DescribeProcess 1) True (app_start ''app'' ''img'') = Inr w1 \<and>
     app_allocation_failed 0 ''error'' ''u'' w1 = Inr w2 \<and>
     app_add_process (\<lambda>s. Inr 1) 1024 1 ''p'' example_resources (DescribeProcess 2) True w2 = Inl (ObjectExists ''p'')"
proof -
  obtain w1 where w1: "app_add_process (\<lambda>s. Inr 1) 1024 1 ''p'' example_resources (DescribeProcess 1) True (app_start ''app'' ''img'') = Inr w1"
      "active w1 ''p'' = Some 0" "aw_store w1 0 = Some (set_creation_callback (DescribeProcess 1) True (Process ''p'' example_resources))"
    by (simp add: app_add_process_def app_start_def Application_def Let_def server_add_process_def set_active_def put_process_def)
  obtain w2 where w2: "app_allocation_failed 0 ''error'' ''u'' w1 = Inr w2"
    using w1(2,3) by (simp add: app_allocation_failed_def with_process_def Let_def server_remove_process_def created_callback_def
        set_creation_callback_def Process_def)
  have "aw_next (app_start ''app'' ''img'') = 0" by (simp add: app_start_def)
  with failed_allocation_blocks_name [OF w1(1), of "''error''" "''u''" w2] w1(1) w2 show ?thesis by auto
qed

end
