(* ===== verification/Control_Server.thy ===== *)
theory Control_Server
  imports Control_Application
begin

text \<open>
  The control plane around its applications: the table of applications
  (\<^verbatim>\<open>src/control-plane/src/resources.cpp\<close>), the tasks of the worker pool
  (\<^verbatim>\<open>worker.cpp\<close>), the handlers of the HTTP server (\<^verbatim>\<open>http.cpp\<close>) and the TCP server the processes
  connect to (\<^verbatim>\<open>tcpserver.cpp\<close>). All applications share the process objects, the server's waiting
  processes and the backend; an operation of an application is lifted to the shared state. A task
  runs to completion before the next one here. The message that a failing task leaves in its future
  is the error value of the task; nobody reads it in the code.
\<close>

section \<open>State\<close>

record conn_data =
  cd_process :: nat
  cd_cur_msg :: bytes
  cd_bytes_to_read :: nat

record cloud =
  cl_apps :: "string \<Rightarrow> cp_application option"
  cl_store :: "nat \<Rightarrow> cp_process option"
  cl_next :: nat
  cl_pending :: "string \<Rightarrow> nat option"
  cl_requests :: "nat list"
  cl_owner :: "nat \<Rightarrow> string"
  cl_context :: "nat \<Rightarrow> conn_data option"
  cl_connected :: int32
  cl_registered :: int32
  cl_processes :: "string \<Rightarrow> nat option"
  cl_running :: bool
  cl_responses :: "(client \<times> response) list"

definition cloud_start :: cloud where
  "cloud_start = \<lparr>cl_apps = Map.empty, cl_store = Map.empty, cl_next = 0, cl_pending = Map.empty, cl_requests = [],
     cl_owner = (\<lambda>_. []), cl_context = Map.empty, cl_connected = 0, cl_registered = 0,
     cl_processes = Map.empty, cl_running = True, cl_responses = []\<rparr>"

definition http_respond :: "client \<Rightarrow> response \<Rightarrow> cloud \<Rightarrow> cloud" where
  "http_respond cl r s = s\<lparr>cl_responses := cl_responses s @ [(cl, r)]\<rparr>"

text \<open>An application with the shared state, and an operation on it.\<close>

definition world_of :: "cp_application \<Rightarrow> cloud \<Rightarrow> app_world" where
  "world_of app s = \<lparr>aw_app = app, aw_store = cl_store s, aw_next = cl_next s, aw_pending = cl_pending s,
     aw_requests = cl_requests s\<rparr>"

definition with_world :: "string \<Rightarrow> app_world \<Rightarrow> cloud \<Rightarrow> cloud" where
  "with_world name w s = s\<lparr>cl_apps := (cl_apps s)(name \<mapsto> aw_app w), cl_store := aw_store w, cl_next := aw_next w,
     cl_pending := aw_pending w, cl_requests := aw_requests w,
     cl_owner := (\<lambda>pid. if cl_next s \<le> pid \<and> pid < aw_next w then name else cl_owner s pid)\<rparr>"

definition in_app :: "string \<Rightarrow> (app_world \<Rightarrow> app_world result) \<Rightarrow> cp_application \<Rightarrow> cloud \<Rightarrow> cloud result" where
  "in_app name f app s = and_then (f (world_of app s)) (\<lambda>w. Inr (with_world name w s))"

section \<open>Resources\<close>

definition add_application :: "string \<Rightarrow> string \<Rightarrow> cloud \<Rightarrow> cloud result" where
  "add_application name code s =
     (if length name = 0 then Inl InvalidConfigurationError
      else if cl_apps s name = None then Inr (s\<lparr>cl_apps := (cl_apps s)(name \<mapsto> Application name code)\<rparr>)
      else Inl (ObjectExists name))"

definition get_application :: "string \<Rightarrow> cloud \<Rightarrow> cp_application option" where
  "get_application name s = cl_apps s name"

definition delete_application :: "string \<Rightarrow> cloud \<Rightarrow> cloud result" where
  "delete_application name s =
     (if length name = 0 then Inl InvalidConfigurationError
      else if cl_apps s name = None then Inl (ObjectDoesNotExist name)
      else Inr (s\<lparr>cl_apps := (cl_apps s)(name := None)\<rparr>))"

section \<open>Tasks of the workers\<close>

definition create_application :: "string \<Rightarrow> string \<Rightarrow> cloud \<Rightarrow> (bool \<times> cloud) result" where
  "create_application name code s =
     (case add_application name code s of
        Inr s1 \<Rightarrow> Inr (True, s1)
      | Inl e \<Rightarrow> if is_praas_exception e then Inr (False, s) else Inl e)"

definition create_process ::
    "(string \<Rightarrow> real result) \<Rightarrow> real \<Rightarrow> real \<Rightarrow> string \<Rightarrow> string \<Rightarrow> proc_resources \<Rightarrow> creation_callback \<Rightarrow>
     cloud \<Rightarrow> (bool \<times> cloud) result" where
  "create_process stod mem cpus app_name proc_id res cb s =
     (case get_application app_name s of
        None \<Rightarrow> Inr (False, s)
      | Some app \<Rightarrow>
          and_then (in_app app_name (app_add_process stod mem cpus proc_id res cb True) app s) (\<lambda>s1. Inr (True, s1)))"

definition cloud_handle_invocation ::
    "bytes \<Rightarrow> client \<Rightarrow> string \<Rightarrow> string \<Rightarrow> int \<Rightarrow> string \<Rightarrow> cloud \<Rightarrow> cloud result" where
  "cloud_handle_invocation req cl app_name fname start uuid s =
     (case get_application app_name s of
        None \<Rightarrow> Inr (http_respond cl (FailedResponse ''App unknown'' 404) s)
      | Some app \<Rightarrow>
          in_app app_name
            (get_controlplane_process \<lparr>rs_vcpus = ''1'', rs_memory = ''2048'', rs_sandbox_id = []\<rparr>
               (InvokeFunction req cl fname start) uuid) app s)"

definition worker_delete_process :: "string \<Rightarrow> string \<Rightarrow> cloud \<Rightarrow> (string option \<times> cloud) result" where
  "worker_delete_process app_name proc_id s =
     (case get_application app_name s of
        None \<Rightarrow> Inr (Some ''Application does not exist'', s)
      | Some app \<Rightarrow>
          (case in_app app_name (delete_process proc_id) app s of
             Inr s1 \<Rightarrow> Inr (None, s1)
           | Inl (ObjectDoesNotExist _) \<Rightarrow> Inr (Some ''Process does not exist or is not swapped out.'', s)
           | Inl e \<Rightarrow> Inl e))"

definition worker_swap_process :: "string \<Rightarrow> string \<Rightarrow> string \<Rightarrow> cloud \<Rightarrow> (string option \<times> cloud) result" where
  "worker_swap_process loc app_name proc_id s =
     (case get_application app_name s of
        None \<Rightarrow> Inr (Some ''Application does not exist'', s)
      | Some app \<Rightarrow>
          (case in_app app_name (swap_process loc proc_id) app s of
             Inr s1 \<Rightarrow> Inr (None, s1)
           | Inl (ObjectDoesNotExist _) \<Rightarrow> Inr (Some ''Process does not exist.'', s)
           | Inl InvalidProcessState \<Rightarrow> Inr (Some ''Process cannot be swapped out (not allocated, not active).'', s)
           | Inl e \<Rightarrow> Inl e))"

definition worker_list_processes :: "string \<Rightarrow> cloud \<Rightarrow> string option \<times> string set \<times> string set" where
  "worker_list_processes app_name s =
     (case get_application app_name s of
        None \<Rightarrow> (Some ''Application does not exist'', {}, {})
      | Some app \<Rightarrow> (None, get_processes app, get_swapped_processes app))"

section \<open>Handlers of the HTTP server\<close>

text \<open>The parameter of a request that is missing is the empty string.\<close>

definition http_create_app :: "client \<Rightarrow> string \<Rightarrow> string \<Rightarrow> cloud \<Rightarrow> cloud result" where
  "http_create_app cl app_name cloud_resource_name s =
     (if cloud_resource_name = [] then Inr (http_respond cl (FailedResponse ''Missing arguments!'' 500) s)
      else and_then (create_application app_name cloud_resource_name s) (\<lambda>(ok, s1).
           Inr (http_respond cl (if ok then MessageResponse ''Created'' else FailedResponse ''Failed to create'' 500) s1)))"

definition http_create_process ::
    "(string \<Rightarrow> real result) \<Rightarrow> real \<Rightarrow> real \<Rightarrow> client \<Rightarrow> string \<Rightarrow> string \<Rightarrow> string \<Rightarrow> string \<Rightarrow> cloud \<Rightarrow> cloud result" where
  "http_create_process stod mem cpus cl app_name proc_name vcpus memory s =
     (let s1 = (if vcpus = [] \<or> memory = [] then http_respond cl (FailedResponse ''Missing arguments!'' 500) s else s) in
      and_then (create_process stod mem cpus app_name proc_name
          \<lparr>rs_vcpus = vcpus, rs_memory = memory, rs_sandbox_id = []\<rparr> (DescribeProcess cl) s1) (\<lambda>(_, s2). Inr s2))"

definition http_delete_process :: "client \<Rightarrow> string \<Rightarrow> string \<Rightarrow> cloud \<Rightarrow> cloud result" where
  "http_delete_process cl app_name proc_name s =
     and_then (worker_delete_process app_name proc_name s) (\<lambda>(r, s1).
     Inr (http_respond cl
       (case r of Some msg \<Rightarrow> FailedResponse msg 400
        | None \<Rightarrow> MessageResponse (''Deleted swapped state of process '' @ proc_name @ ''.'')) s1))"

definition http_swap_process :: "string \<Rightarrow> client \<Rightarrow> string \<Rightarrow> string \<Rightarrow> cloud \<Rightarrow> cloud result" where
  "http_swap_process loc cl app_name proc_name s =
     and_then (worker_swap_process loc app_name proc_name s) (\<lambda>(r, s1).
     Inr (http_respond cl
       (case r of Some msg \<Rightarrow> FailedResponse msg 400
        | None \<Rightarrow> MessageResponse (''Request swapping of process '' @ proc_name @ ''.'')) s1))"

definition http_list_processes :: "client \<Rightarrow> string \<Rightarrow> cloud \<Rightarrow> cloud" where
  "http_list_processes cl app_name s =
     (let (r, act, swp) = worker_list_processes app_name s;
          s1 = (case r of Some msg \<Rightarrow> http_respond cl (FailedResponse msg 400) s | None \<Rightarrow> s) in
      http_respond cl (ListResponse app_name act swp) s1)"

section \<open>The TCP server\<close>

definition conn_process :: "nat \<Rightarrow> (cp_process \<Rightarrow> cp_process) \<Rightarrow> cloud \<Rightarrow> cloud result" where
  "conn_process pid f s =
     (case cl_store s pid of
        None \<Rightarrow> Inl UndefinedBehaviour
      | Some p \<Rightarrow> Inr (s\<lparr>cl_store := (cl_store s)(pid \<mapsto> f p)\<rparr>))"

definition set_context :: "nat \<Rightarrow> conn_data \<Rightarrow> cloud \<Rightarrow> cloud" where
  "set_context conn d s = s\<lparr>cl_context := (cl_context s)(conn \<mapsto> d)\<rparr>"

definition owner_app :: "nat \<Rightarrow> (app_world \<Rightarrow> app_world result) \<Rightarrow> cloud \<Rightarrow> cloud result" where
  "owner_app pid f s =
     (case cl_apps s (cl_owner s pid) of
        None \<Rightarrow> Inl UndefinedBehaviour
      | Some app \<Rightarrow> in_app (cl_owner s pid) f app s)"

definition cloud_handle_result ::
    "nat \<Rightarrow> conn_data \<Rightarrow> invocation_result \<Rightarrow> bytes \<Rightarrow> cloud \<Rightarrow> (bool \<times> bytes \<times> cloud) result" where
  "cloud_handle_result conn d req buffer s =
     (let (d1, buffer1) = (if cd_bytes_to_read d = 0
            then (d\<lparr>cd_bytes_to_read := size_of_i32 (total_length req), cd_cur_msg := msg_data req\<rparr>, drop BUF_SIZE buffer)
            else (d, buffer)) in
      if length buffer1 \<ge> cd_bytes_to_read d1 then
        and_then (conn_process (cd_process d1)
            (finish_invocation (result_id req) (return_code req) (take (cd_bytes_to_read d1) buffer1)) s) (\<lambda>s1.
        Inr (True, drop (cd_bytes_to_read d1) buffer1, set_context conn (d1\<lparr>cd_bytes_to_read := 0\<rparr>) s1))
      else Inr (False, buffer1, set_context conn d1 s))"

definition cloud_handle_connection :: "nat \<Rightarrow> process_connection \<Rightarrow> string \<Rightarrow> cloud \<Rightarrow> cloud result" where
  "cloud_handle_connection conn msg uuid s =
     (case cl_pending s (process_name msg) of
        None \<Rightarrow> Inr s
      | Some pid \<Rightarrow>
          let s1 = set_context conn \<lparr>cd_process = pid, cd_cur_msg = replicate BUF_SIZE NUL, cd_bytes_to_read = 0\<rparr>
                     (s\<lparr>cl_pending := (cl_pending s)(process_name msg := None)\<rparr>) in
          (case cl_store s1 pid of
             None \<Rightarrow> Inl UndefinedBehaviour
           | Some p \<Rightarrow>
               and_then (connect conn uuid p) (\<lambda>p1.
               Inr (s1\<lparr>cl_store := (cl_store s1)(pid \<mapsto> p1), cl_registered := cl_registered s1 + 1,
                     cl_processes := (if cl_processes s1 (pr_name p) = None
                                      then (cl_processes s1)(pr_name p \<mapsto> conn) else cl_processes s1)\<rparr>))))"

definition handle_disconnection :: "nat \<Rightarrow> cloud \<Rightarrow> cloud result" where
  "handle_disconnection conn s =
     (let s1 = s\<lparr>cl_connected := cl_connected s - 1\<rparr> in
      case cl_context s1 conn of
        None \<Rightarrow> Inr s1
      | Some d \<Rightarrow>
          owner_app (cd_process d) (closed_process (cd_process d)) (s1\<lparr>cl_registered := cl_registered s1 - 1\<rparr>))"

text \<open>A closure also shuts the socket down; the library reports the disconnection later.\<close>

definition handle_closure :: "nat \<Rightarrow> cloud \<Rightarrow> cloud result" where
  "handle_closure conn s = handle_disconnection conn s"

text \<open>
  The callback of the library for a new and for a lost connection. A server that is shut down
  ignores the connections it loses.
\<close>

definition connection_callback :: "bool \<Rightarrow> nat \<Rightarrow> cloud \<Rightarrow> cloud result" where
  "connection_callback up conn s =
     (if up then Inr (s\<lparr>cl_connected := cl_connected s + 1\<rparr>)
      else if \<not> cl_running s then Inr s
      else handle_disconnection conn s)"

definition tcp_shutdown :: "cloud \<Rightarrow> cloud" where
  "tcp_shutdown s = s\<lparr>cl_running := False\<rparr>"

definition handle_data_metrics :: "int \<Rightarrow> nat \<Rightarrow> message \<Rightarrow> cloud \<Rightarrow> cloud result" where
  "handle_data_metrics now pid msg s =
     conn_process pid (update_metrics now (computation_time msg) (invocations msg) (last_invocation_timestamp msg)) s"

definition handle_swap :: "nat \<Rightarrow> cloud \<Rightarrow> cloud result" where
  "handle_swap pid s =
     (case cl_store s pid of
        None \<Rightarrow> Inl UndefinedBehaviour
      | Some p \<Rightarrow> owner_app pid (swapped_process (pr_name p)) s)"

text \<open>
  One message of a registered connection; the clock is an argument. The handler for a second
  registration takes its message by a reference that may be modified, the visited variant is
  constant: the handler is not viable and the message goes to the one for all other messages.
\<close>

definition dispatch_message ::
    "int \<Rightarrow> nat \<Rightarrow> conn_data \<Rightarrow> MessageVariants \<Rightarrow> bytes \<Rightarrow> cloud \<Rightarrow> (bool \<times> bytes \<times> cloud) result" where
  "dispatch_message now conn d msg buffer s =
     (case msg of
        ProcessClosurePtr _ \<Rightarrow> and_then (handle_closure conn s) (\<lambda>s1. Inr (True, drop BUF_SIZE buffer, s1))
      | DataPlaneMetricsPtr m \<Rightarrow>
          and_then (handle_data_metrics now (cd_process d) m s) (\<lambda>s1. Inr (True, drop BUF_SIZE buffer, s1))
      | InvocationResultPtr m \<Rightarrow> cloud_handle_result conn d m buffer s
      | SwapConfirmationPtr _ \<Rightarrow> and_then (handle_swap (cd_process d) s) (\<lambda>s1. Inr (True, drop BUF_SIZE buffer, s1))
      | _ \<Rightarrow> Inr (True, drop BUF_SIZE buffer, s))"

text \<open>A message that is consumed shortens the buffer, and leaves it empty when it was short.\<close>

lemma cloud_handle_result_shortens:
  assumes "cloud_handle_result conn d m buffer s = Inr (True, buffer', s')" and "buffer' \<noteq> []"
  shows "length buffer' < length buffer"
proof (cases "cd_bytes_to_read d = 0")
  case True
  with assms have "buffer' = drop (size_of_i32 (total_length m)) (drop BUF_SIZE buffer)"
    by (auto simp: cloud_handle_result_def Let_def and_then_eq_Inr split: if_splits)
  with assms(2) show ?thesis by (simp add: BUF_SIZE_def)
next
  case False
  with assms have "buffer' = drop (cd_bytes_to_read d) buffer"
    by (auto simp: cloud_handle_result_def Let_def and_then_eq_Inr split: if_splits)
  with assms(2) False show ?thesis by simp
qed

lemma dispatch_message_shortens:
  assumes "dispatch_message now conn d msg buffer s = Inr (True, buffer', s')" and "buffer' \<noteq> []"
  shows "length buffer' < length buffer"
  using assms
  by (cases msg) (auto simp: dispatch_message_def and_then_eq_Inr BUF_SIZE_def intro: cloud_handle_result_shortens)

lemmas [fundef_cong] = and_then_cong

function cloud_handle_message :: "int \<Rightarrow> string \<Rightarrow> nat \<Rightarrow> bytes \<Rightarrow> cloud \<Rightarrow> (bytes \<times> cloud) result" where
  "cloud_handle_message now uuid conn buffer s =
     (case cl_context s conn of
        None \<Rightarrow>
          if length buffer < BUF_SIZE then Inr (buffer, s)
          else and_then (parse (take BUF_SIZE buffer)) (\<lambda>v.
               and_then (case v of ProcessConnectionPtr m \<Rightarrow> cloud_handle_connection conn m uuid s | _ \<Rightarrow> Inr s) (\<lambda>s1.
               if length (drop BUF_SIZE buffer) > 0 then cloud_handle_message now uuid conn (drop BUF_SIZE buffer) s1
               else Inr (drop BUF_SIZE buffer, s1)))
      | Some d \<Rightarrow>
          if cd_bytes_to_read d = 0 \<and> length buffer < BUF_SIZE then Inr (buffer, s)
          else and_then (parse (if cd_bytes_to_read d > 0 then cd_cur_msg d else take BUF_SIZE buffer)) (\<lambda>v.
               and_then (dispatch_message now conn d v buffer s) (\<lambda>(consumed, buffer1, s1).
               if consumed \<and> length buffer1 > 0 then cloud_handle_message now uuid conn buffer1 s1
               else Inr (buffer1, s1))))"
  by pat_completeness auto
termination
proof (relation "measure (\<lambda>(now, uuid, conn, buffer, s). length buffer)", goal_cases)
  case 1
  then show ?case by simp
next
  case (2 now uuid conn buffer s v s1)
  then show ?case by (simp add: BUF_SIZE_def)
next
  case (3 now uuid conn buffer s d v r consumed x buffer1 s1)
  then have "dispatch_message now conn d v buffer s = Inr (True, buffer1, s1)" "buffer1 \<noteq> []" by auto
  from dispatch_message_shortens [OF this] 3 show ?case by auto
qed

declare cloud_handle_message.simps [simp del]

fun cloud_receive :: "int \<Rightarrow> string \<Rightarrow> nat \<Rightarrow> bytes list \<Rightarrow> bytes \<Rightarrow> cloud \<Rightarrow> (bytes \<times> cloud) result" where
  "cloud_receive now uuid conn [] buffer s = Inr (buffer, s)"
| "cloud_receive now uuid conn (chunk # chunks) buffer s =
     and_then (cloud_handle_message now uuid conn (buffer @ chunk) s) (\<lambda>(buffer1, s1).
     cloud_receive now uuid conn chunks buffer1 s1)"

section \<open>Reports of a process\<close>

text \<open>What a process sends on its own: results with their output, and metrics.\<close>

definition is_report :: "bytes \<times> bytes \<Rightarrow> bool" where
  "is_report f \<longleftrightarrow> length (fst f) = BUF_SIZE \<and>
     (case parse (fst f) of
        Inr (InvocationResultPtr m) \<Rightarrow> size_of_i32 (total_length m) = length (snd f)
      | Inr (DataPlaneMetricsPtr m) \<Rightarrow> snd f = []
      | _ \<Rightarrow> False)"

definition report_effect :: "int \<Rightarrow> bytes \<times> bytes \<Rightarrow> cp_process \<Rightarrow> cp_process" where
  "report_effect now f =
     (case parse (fst f) of
        Inr (InvocationResultPtr m) \<Rightarrow> finish_invocation (result_id m) (return_code m) (snd f)
      | Inr (DataPlaneMetricsPtr m) \<Rightarrow> update_metrics now (computation_time m) (invocations m) (last_invocation_timestamp m)
      | _ \<Rightarrow> id)"

definition served :: "nat \<Rightarrow> conn_data \<Rightarrow> cp_process \<Rightarrow> cloud \<Rightarrow> cloud" where
  "served conn d p s = set_context conn d (s\<lparr>cl_store := (cl_store s)(cd_process d \<mapsto> p)\<rparr>)"

definition report_rest :: "conn_data \<Rightarrow> (bytes \<times> bytes) list \<Rightarrow> bytes \<Rightarrow> bool" where
  "report_rest d fs b \<longleftrightarrow>
     cd_bytes_to_read d = 0 \<and> b = byte_stream fs \<or>
     (\<exists>h p fs' m. fs = (h, p) # fs' \<and> p \<noteq> [] \<and> parse h = Inr (InvocationResultPtr m) \<and>
        cd_bytes_to_read d = length p \<and> cd_cur_msg d = h \<and> b = p @ byte_stream fs')"

lemma parse_result_data: "parse h = Inr (InvocationResultPtr m) \<Longrightarrow> msg_data m = h"
  by (auto simp: parse_def Let_def InvocationResult_def split: if_splits)

lemma served_fields [simp]:
  "cl_context (served conn d p s) = (cl_context s)(conn \<mapsto> d)"
  "cl_store (served conn d p s) = (cl_store s)(cd_process d \<mapsto> p)"
  by (simp_all add: served_def set_context_def)

lemma served_served: "cd_process d' = cd_process d \<Longrightarrow> served conn d' p' (served conn d p s) = served conn d' p' s"
  by (simp add: served_def set_context_def)

lemma served_same: "cl_context s conn = Some d \<Longrightarrow> cl_store s (cd_process d) = Some p \<Longrightarrow> served conn d p s = s"
  by (cases s) (simp add: served_def set_context_def fun_upd_idem)

lemma report_start:
  assumes ctx: "cl_context s conn = Some d" and p: "cl_store s (cd_process d) = Some p"
    and f: "is_report (h, b)" and d: "cd_bytes_to_read d = 0"
  shows "\<exists>v d'. parse h = Inr v \<and> cd_process d' = cd_process d \<and> cd_bytes_to_read d' = 0 \<and>
           dispatch_message now conn d v (h @ b @ rest) s = Inr (True, rest, served conn d' (report_effect now (h, b) p) s)"
proof -
  from f obtain v where v: "parse h = Inr v" "length h = BUF_SIZE" by (auto simp: is_report_def split: sum.splits)
  show ?thesis
  proof (cases v)
    case (InvocationResultPtr m)
    with f v d p parse_result_data [of h m] show ?thesis
      by (intro exI [of _ v] exI [of _ "d\<lparr>cd_cur_msg := h, cd_bytes_to_read := 0\<rparr>"])
         (simp add: is_report_def dispatch_message_def cloud_handle_result_def conn_process_def report_effect_def served_def)
  next
    case (DataPlaneMetricsPtr m)
    with f v d p ctx show ?thesis
      by (intro exI [of _ v] exI [of _ d])
         (simp add: is_report_def dispatch_message_def handle_data_metrics_def conn_process_def report_effect_def served_def
           set_context_def fun_upd_idem)
  qed (use f v in \<open>simp_all add: is_report_def\<close>)
qed

lemma report_header:
  assumes ctx: "cl_context s conn = Some d" and p: "cl_store s (cd_process d) = Some p"
    and f: "is_report (h, b)" and d: "cd_bytes_to_read d = 0" and short: "length rest < length b"
  shows "\<exists>m. parse h = Inr (InvocationResultPtr m) \<and>
           dispatch_message now conn d (InvocationResultPtr m) (h @ rest) s =
             Inr (False, rest, served conn (d\<lparr>cd_bytes_to_read := length b, cd_cur_msg := h\<rparr>) p s)"
proof -
  from f obtain v where v: "parse h = Inr v" "length h = BUF_SIZE" by (auto simp: is_report_def split: sum.splits)
  with f short obtain m where m: "v = InvocationResultPtr m" "size_of_i32 (total_length m) = length b"
    by (cases v) (auto simp: is_report_def)
  with v d p short parse_result_data [of h m] show ?thesis
    by (intro exI [of _ m])
       (simp add: dispatch_message_def cloud_handle_result_def served_def set_context_def fun_upd_idem)
qed

lemma report_payload:
  assumes p: "cl_store s (cd_process d) = Some p"
    and h: "parse h = Inr (InvocationResultPtr m)" and d: "cd_bytes_to_read d = length b" "b \<noteq> []"
  shows "dispatch_message now conn d (InvocationResultPtr m) (b @ rest) s =
           Inr (True, rest, served conn (d\<lparr>cd_bytes_to_read := 0\<rparr>) (report_effect now (h, b) p) s)"
  using assms by (simp add: dispatch_message_def cloud_handle_result_def conn_process_def report_effect_def served_def)

lemma prefix_split: "length x \<le> length b \<Longrightarrow> b @ r = x @ y \<Longrightarrow> \<exists>b'. b = x @ b' \<and> b' @ r = y"
  by (metis append_eq_append_conv_if append_eq_conv_conj append_take_drop_id)

text \<open>
  One round of the handler: it stops when the first message is not complete, or applies it and
  goes on with the rest of the buffer.
\<close>

definition report_stops :: "int \<Rightarrow> string \<Rightarrow> nat \<Rightarrow> conn_data \<Rightarrow> cp_process \<Rightarrow> (bytes \<times> bytes) list \<Rightarrow> bytes \<Rightarrow> bytes \<Rightarrow> cloud \<Rightarrow> bool" where
  "report_stops now uuid conn d p fs buffer r s \<longleftrightarrow> r \<noteq> [] \<and>
     (\<exists>d' buffer'. cloud_handle_message now uuid conn buffer s = Inr (buffer', served conn d' p s) \<and>
        cd_process d' = cd_process d \<and> report_rest d' fs (buffer' @ r))"

definition report_goes_on :: "int \<Rightarrow> string \<Rightarrow> nat \<Rightarrow> conn_data \<Rightarrow> cp_process \<Rightarrow> (bytes \<times> bytes) list \<Rightarrow> bytes \<Rightarrow> bytes \<Rightarrow> cloud \<Rightarrow> bool" where
  "report_goes_on now uuid conn d p fs buffer r s \<longleftrightarrow>
     (\<exists>d1 rest. cloud_handle_message now uuid conn buffer s = cloud_handle_message now uuid conn rest (served conn d1 p s) \<and>
        cd_process d1 = cd_process d \<and> cd_bytes_to_read d1 = 0 \<and> rest @ r = byte_stream fs)"

lemma handle_nothing:
  "cl_context s conn = Some d \<Longrightarrow> cd_bytes_to_read d = 0 \<Longrightarrow> cloud_handle_message now uuid conn [] s = Inr ([], s)"
  by (simp add: cloud_handle_message.simps)

lemma report_round_start:
  assumes ctx: "cl_context s conn = Some d" and p: "cl_store s (cd_process d) = Some p" and f: "is_report (h, b)"
    and d: "cd_bytes_to_read d = 0" and br: "buffer @ r = h @ b @ byte_stream fs"
  shows "report_stops now uuid conn d p ((h, b) # fs) buffer r s \<or>
         report_goes_on now uuid conn d (report_effect now (h, b) p) fs buffer r s"
proof (cases "length buffer < BUF_SIZE")
  case True
  have "r \<noteq> []" using True br f by (cases r) (auto simp: is_report_def)
  with True assms show ?thesis
    by (intro disjI1) (auto simp: report_stops_def cloud_handle_message.simps served_same report_rest_def intro!: exI [of _ d])
next
  case False
  have len: "length h = BUF_SIZE" using f by (simp add: is_report_def)
  with False obtain b1 where b1: "buffer = h @ b1" "b1 @ r = b @ byte_stream fs"
    using prefix_split [of h buffer r "b @ byte_stream fs"] br by auto
  show ?thesis
  proof (cases "length b \<le> length b1")
    case True
    then obtain rest where rest: "b1 = b @ rest" "rest @ r = byte_stream fs" using prefix_split b1(2) by blast
    obtain v d1 where v: "parse h = Inr v" "cd_process d1 = cd_process d" "cd_bytes_to_read d1 = 0"
        "dispatch_message now conn d v buffer s = Inr (True, rest, served conn d1 (report_effect now (h, b) p) s)"
      using report_start [OF ctx p f d, of now rest] b1(1) rest(1) by auto
    then have "cloud_handle_message now uuid conn buffer s =
        cloud_handle_message now uuid conn rest (served conn d1 (report_effect now (h, b) p) s)"
      using ctx d False b1(1) len handle_nothing [of "served conn d1 (report_effect now (h, b) p) s" conn d1]
      by (subst cloud_handle_message.simps) simp
    with v(2,3) rest(2) show ?thesis by (auto simp: report_goes_on_def)
  next
    case short: False
    let ?d = "d\<lparr>cd_bytes_to_read := length b, cd_cur_msg := h\<rparr>"
    obtain m where m: "parse h = Inr (InvocationResultPtr m)"
        "dispatch_message now conn d (InvocationResultPtr m) buffer s = Inr (False, b1, served conn ?d p s)"
      using report_header [OF ctx p f d, of b1 now] short b1(1) by auto
    then have "cloud_handle_message now uuid conn buffer s = Inr (b1, served conn ?d p s)"
      using ctx d False b1(1) len by (subst cloud_handle_message.simps) simp
    moreover have "r \<noteq> []" "b \<noteq> []" using short b1(2) by auto
    ultimately show ?thesis using b1(2) m(1)
      by (intro disjI1) (auto simp: report_stops_def report_rest_def intro!: exI [of _ ?d])
  qed
qed

lemma report_round_payload:
  assumes ctx: "cl_context s conn = Some d" and p: "cl_store s (cd_process d) = Some p"
    and h: "parse h = Inr (InvocationResultPtr m)" and d: "cd_bytes_to_read d = length b" "b \<noteq> []" "cd_cur_msg d = h"
    and br: "buffer @ r = b @ byte_stream fs"
  shows "report_stops now uuid conn d p ((h, b) # fs) buffer r s \<or>
         report_goes_on now uuid conn d (report_effect now (h, b) p) fs buffer r s"
proof (cases "length b \<le> length buffer")
  case True
  then obtain rest where rest: "buffer = b @ rest" "rest @ r = byte_stream fs" using prefix_split br by blast
  let ?d = "d\<lparr>cd_bytes_to_read := 0\<rparr>"
  have "cloud_handle_message now uuid conn buffer s =
      cloud_handle_message now uuid conn rest (served conn ?d (report_effect now (h, b) p) s)"
    using ctx h d rest(1) report_payload [OF p h d(1,2), of now conn rest]
      handle_nothing [of "served conn ?d (report_effect now (h, b) p) s" conn ?d]
    by (subst cloud_handle_message.simps) simp
  with rest(2) show ?thesis by (auto simp: report_goes_on_def intro!: exI [of _ ?d])
next
  case False
  then have "cloud_handle_message now uuid conn buffer s = Inr (buffer, s)"
    using ctx h d by (subst cloud_handle_message.simps)
      (simp add: dispatch_message_def cloud_handle_result_def set_context_def fun_upd_idem)
  moreover have "r \<noteq> []" using False br by auto
  ultimately show ?thesis using assms
    by (intro disjI1) (auto simp: report_stops_def served_same report_rest_def intro!: exI [of _ d])
qed

lemma reports_served:
  assumes "cl_context s conn = Some d" and "cl_store s (cd_process d) = Some p"
    and "list_all is_report fs" and "report_rest d fs (buffer @ r)"
  shows "\<exists>n d' buffer'. cloud_handle_message now uuid conn buffer s =
             Inr (buffer', served conn d' (fold (report_effect now) (take n fs) p) s) \<and>
           n \<le> length fs \<and> cd_process d' = cd_process d \<and> report_rest d' (drop n fs) (buffer' @ r) \<and>
           (r = [] \<longrightarrow> buffer' = [] \<and> n = length fs)"
  using assms
proof (induction fs arbitrary: s d p buffer)
  case Nil
  then show ?case
    by (intro exI [of _ 0] exI [of _ d] exI [of _ "[]"])
       (auto simp: cloud_handle_message.simps report_rest_def served_same)
next
  case (Cons f fs)
  obtain h b where f: "f = (h, b)" by (cases f)
  have "report_stops now uuid conn d p (f # fs) buffer r s \<or>
        report_goes_on now uuid conn d (report_effect now f p) fs buffer r s"
    using Cons.prems(3,4) report_round_start [OF Cons.prems(1,2), of h b buffer r fs now uuid]
      report_round_payload [OF Cons.prems(1,2), of h _ b buffer r fs now uuid]
    unfolding report_rest_def f by auto
  then show ?case
  proof
    assume "report_stops now uuid conn d p (f # fs) buffer r s"
    then show ?thesis unfolding report_stops_def by (intro exI [of _ 0]) auto
  next
    assume "report_goes_on now uuid conn d (report_effect now f p) fs buffer r s"
    then obtain d1 rest where go: "cloud_handle_message now uuid conn buffer s =
          cloud_handle_message now uuid conn rest (served conn d1 (report_effect now f p) s)"
        "cd_process d1 = cd_process d" "cd_bytes_to_read d1 = 0" "rest @ r = byte_stream fs"
      unfolding report_goes_on_def by blast
    let ?s = "served conn d1 (report_effect now f p) s"
    have "cl_context ?s conn = Some d1" "cl_store ?s (cd_process d1) = Some (report_effect now f p)"
        "list_all is_report fs" "report_rest d1 fs (rest @ r)"
      using go Cons.prems(3) by (simp_all add: report_rest_def)
    from Cons.IH [OF this] obtain n d' buffer' where
      "cloud_handle_message now uuid conn rest ?s =
             Inr (buffer', served conn d' (fold (report_effect now) (take n fs) (report_effect now f p)) ?s)"
        "n \<le> length fs" "cd_process d' = cd_process d1" "report_rest d' (drop n fs) (buffer' @ r)"
        "r = [] \<longrightarrow> buffer' = [] \<and> n = length fs" by blast
    with go show ?thesis
      by (intro exI [of _ "Suc n"] exI [of _ d'] exI [of _ buffer']) (auto simp: served_served)
  qed
qed

lemma receive_reports:
  assumes "cl_context s conn = Some d" and "cl_store s (cd_process d) = Some p"
    and "list_all is_report fs" and "report_rest d fs (buffer @ concat chunks)" and "chunks \<noteq> []"
  shows "\<exists>d'. cloud_receive now uuid conn chunks buffer s = Inr ([], served conn d' (fold (report_effect now) fs p) s) \<and>
              cd_process d' = cd_process d \<and> cd_bytes_to_read d' = 0"
  using assms
proof (induction chunks arbitrary: s d p fs buffer)
  case (Cons chunk chunks)
  have "report_rest d fs ((buffer @ chunk) @ concat chunks)" using Cons.prems(4) by simp
  from reports_served [OF Cons.prems(1-3) this, of now uuid] obtain n d1 buffer1 where
    1: "cloud_handle_message now uuid conn (buffer @ chunk) s =
          Inr (buffer1, served conn d1 (fold (report_effect now) (take n fs) p) s)" "n \<le> length fs"
      "cd_process d1 = cd_process d" "report_rest d1 (drop n fs) (buffer1 @ concat chunks)"
      "concat chunks = [] \<longrightarrow> buffer1 = [] \<and> n = length fs" by blast
  let ?p = "fold (report_effect now) (take n fs) p"
  let ?s = "served conn d1 ?p s"
  show ?case
  proof (cases "chunks = []")
    case True
    with 1 show ?thesis by (intro exI [of _ d1]) (auto simp: report_rest_def)
  next
    case False
    have "cl_context ?s conn = Some d1" "cl_store ?s (cd_process d1) = Some ?p" "list_all is_report (drop n fs)"
      using Cons.prems(3) by (auto simp: list_all_iff dest: in_set_dropD)
    from Cons.IH [OF this 1(4) False] obtain d' where
      "cloud_receive now uuid conn chunks buffer1 ?s = Inr ([], served conn d' (fold (report_effect now) (drop n fs) ?p) ?s)"
      "cd_process d' = cd_process d1" "cd_bytes_to_read d' = 0" by blast
    moreover have "fold (report_effect now) (drop n fs) ?p = fold (report_effect now) fs p"
      by (metis append_take_drop_id comp_apply fold_append)
    ultimately show ?thesis using 1 by (intro exI [of _ d']) (simp add: served_served)
  qed
qed simp

section \<open>Properties\<close>

text \<open>
  C13. What a process reports does not depend on how the network cuts the stream. When the bytes of
  any results and metrics arrive in any pieces, the server ends with the process that one call of
  the handler on the whole stream gives, and that the effects of the reports, applied one after
  the other, give: every result finishes its invocation with the whole output, metrics are
  updated, nothing is left in the buffer and no other process or application changes.
\<close>

theorem reports_in_any_pieces:
  assumes "cl_context s conn = Some d" and "cl_store s (cd_process d) = Some p" and "cd_bytes_to_read d = 0"
    and "list_all is_report fs" and "concat chunks = byte_stream fs" and "chunks \<noteq> []"
  shows "\<exists>s1 s2. cloud_receive now uuid conn chunks [] s = Inr ([], s1) \<and>
           cloud_handle_message now uuid conn (byte_stream fs) s = Inr ([], s2) \<and>
           cl_store s1 = (cl_store s)(cd_process d \<mapsto> fold (report_effect now) fs p) \<and> cl_store s2 = cl_store s1 \<and>
           cl_apps s1 = cl_apps s \<and> cl_pending s1 = cl_pending s"
proof -
  have rest: "report_rest d fs ([] @ concat chunks)" "report_rest d fs (byte_stream fs @ [])"
    using assms(3,5) by (simp_all add: report_rest_def)
  obtain d1 where "cloud_receive now uuid conn chunks [] s = Inr ([], served conn d1 (fold (report_effect now) fs p) s)"
      "cd_process d1 = cd_process d"
    using receive_reports [OF assms(1,2,4) rest(1) assms(6)] by blast
  moreover obtain d2 where "cloud_handle_message now uuid conn (byte_stream fs) s = Inr ([], served conn d2 (fold (report_effect now) fs p) s)"
      "cd_process d2 = cd_process d"
    using reports_served [OF assms(1,2,4) rest(2), of now uuid] by auto
  ultimately show ?thesis
    by (intro exI [of _ "served conn d1 (fold (report_effect now) fs p) s"] exI [of _ "served conn d2 (fold (report_effect now) fs p) s"])
       (simp add: served_def set_context_def)
qed

definition example_report :: bytes where
  "example_report = (case set_result_id ''id-2'' (InvocationResult MessageData_default) of
     Inl _ \<Rightarrow> [] | Inr m \<Rightarrow> msg_data (set_total_length 3 (set_return_code 0 m)))"

definition example_cloud :: cloud where
  "example_cloud = cloud_start\<lparr>cl_store := [0 \<mapsto> example_process],
     cl_context := [7 \<mapsto> \<lparr>cd_process = 0, cd_cur_msg = replicate BUF_SIZE NUL, cd_bytes_to_read = 0\<rparr>]\<rparr>"

lemma example_report_ok: "is_report (example_report, ''out'')"
proof -
  have s: "sint (3 :: int32) = 3" by simp
  obtain m where m: "set_result_id ''id-2'' (InvocationResult MessageData_default) = Inr m"
      "parse (msg_data (set_total_length 3 (set_return_code 0 m))) =
         Inr (InvocationResultPtr (set_total_length 3 (set_return_code 0 m)))"
      "total_length (set_total_length 3 (set_return_code 0 m)) = 3"
      "length (msg_data (set_total_length 3 (set_return_code 0 m))) = BUF_SIZE"
    by (simp add: message_simps parse_def no_nul_def)
  then show ?thesis by (simp add: is_report_def example_report_def size_of_i32_def s)
qed

theorem reports_in_any_pieces_witness:
  "\<exists>s1. cloud_receive 0 ''u'' 7 [take 10 example_report, drop 10 example_report @ ''o'', ''ut''] [] example_cloud = Inr ([], s1) \<and>
        cl_store s1 0 = Some (report_effect 0 (example_report, ''out'') example_process)"
proof -
  let ?d = "\<lparr>cd_process = 0, cd_cur_msg = replicate BUF_SIZE NUL, cd_bytes_to_read = 0\<rparr>"
  have "cl_context example_cloud 7 = Some ?d" "cl_store example_cloud (cd_process ?d) = Some example_process"
      "cd_bytes_to_read ?d = 0" "list_all is_report [(example_report, ''out'')]"
      "concat [take 10 example_report, drop 10 example_report @ ''o'', ''ut''] = byte_stream [(example_report, ''out'')]"
    using example_report_ok by (simp_all add: example_cloud_def)
  from reports_in_any_pieces [OF this, of 0 "''u''"] show ?thesis by auto
qed

end
