(* ===== verification/Invoker.thy ===== *)
theory Invoker
  imports Work_Queue Application_Status
begin

text \<open>
  A function invoker: \<^verbatim>\<open>src/process/runtime/src/internal/invoker.cpp\<close>, the context that user
  functions are given, \<^verbatim>\<open>src/process/runtime/src/context.cpp\<close>, and the C++ invoker's table of
  functions and main loop, \<^verbatim>\<open>src/process/invoker/cpp\<close>. Pointers matter here: a view that a
  function holds may point into the input of the invoker or into an array of the context, and the
  context compares pointers and frees arrays. Arrays live in a heap by address. A call that waits
  for a message that has not arrived, or a loop that does not end, has no value (None); the loop
  of \<^verbatim>\<open>mq_send\<close> calls waits for a reader when the queue is full, which is not visible here.
  Signals arrive between calls. A user function is an argument.
\<close>

section \<open>State\<close>

text \<open>A non-owning view, \<^verbatim>\<open>runtime::Buffer\<close>: it may point into the middle of an array.\<close>

datatype block = InputBlock | HeapBlock nat

record view =
  vw_ptr :: "(block \<times> nat) option"
  vw_len :: nat
  vw_size :: nat

definition view_null :: view where
  "view_null = \<lparr>vw_ptr = None, vw_len = 0, vw_size = 0\<rparr>"

text \<open>An owned array of the context, \<^verbatim>\<open>internal::Buffer<std::byte>\<close>, by its address.\<close>

record owned =
  ow_ptr :: "nat option"
  ow_size :: nat
  ow_len :: nat

record rt_invocation =
  ri_key :: string
  ri_function_name :: string
  ri_args :: "view list"

definition rt_Invocation :: rt_invocation where
  "rt_Invocation = \<lparr>ri_key = [], ri_function_name = [], ri_args = []\<rparr>"

record rt_result =
  rr_key :: string
  rr_function_name :: string
  rr_return_code :: int32
  rr_payload :: view

record runtime =
  rt_process_id :: string
  rt_input :: buffer
  rt_app_status :: application
  rt_ending :: bool
  rt_read :: "ipc_channel option"
  rt_write :: "ipc_channel option"
  rt_queue :: "bytes list"
  rt_sent :: "bytes list"
  rt_heap :: "nat \<Rightarrow> bytes option"
  rt_next :: nat
  cx_output :: owned
  cx_user_buffers :: "owned list"
  cx_output_view :: view
  cx_invoc_id :: string

definition CONTEXT_BUFFER_SIZE :: nat where "CONTEXT_BUFFER_SIZE = 1024 * 1024 * 5"

type_synonym 'a call = "'a result option"

definition then_call :: "'a call \<Rightarrow> ('a \<Rightarrow> 'b call) \<Rightarrow> 'b call" where
  "then_call r f = (case r of None \<Rightarrow> None | Some (Inl e) \<Rightarrow> Some (Inl e) | Some (Inr a) \<Rightarrow> f a)"

abbreviation returns :: "'a result \<Rightarrow> 'a call" where
  "returns r \<equiv> Some r"

section \<open>Arrays\<close>

definition new_array :: "bytes \<Rightarrow> runtime \<Rightarrow> nat \<times> runtime" where
  "new_array d st = (rt_next st, st\<lparr>rt_heap := (rt_heap st)(rt_next st \<mapsto> d), rt_next := rt_next st + 1\<rparr>)"

definition free_array :: "nat option \<Rightarrow> runtime \<Rightarrow> runtime" where
  "free_array p st = (case p of None \<Rightarrow> st | Some a \<Rightarrow> st\<lparr>rt_heap := (rt_heap st)(a := None)\<rparr>)"

definition block_content :: "block \<Rightarrow> runtime \<Rightarrow> bytes option" where
  "block_content b st = (case b of InputBlock \<Rightarrow> buf_ptr (rt_input st) | HeapBlock a \<Rightarrow> rt_heap st a)"

text \<open>The bytes a view shows: reading a freed array, or past the end of one, is undefined.\<close>

definition read_bytes :: "(block \<times> nat) option \<Rightarrow> nat \<Rightarrow> runtime \<Rightarrow> bytes result" where
  "read_bytes p len st =
     (if len = 0 then Inr []
      else case p of
             None \<Rightarrow> Inl UndefinedBehaviour
           | Some (b, off) \<Rightarrow>
               (case block_content b st of
                  None \<Rightarrow> Inl UndefinedBehaviour
                | Some m \<Rightarrow> if off + len \<le> length m then Inr (peek m off len) else Inl UndefinedBehaviour))"

definition view_data :: "view \<Rightarrow> runtime \<Rightarrow> bytes result" where
  "view_data v st = read_bytes (vw_ptr v) (vw_len v) st"

definition owned_ptr :: "owned \<Rightarrow> (block \<times> nat) option" where
  "owned_ptr ob = map_option (\<lambda>a. (HeapBlock a, 0)) (ow_ptr ob)"

definition owned_view :: "owned \<Rightarrow> view" where
  "owned_view ob = \<lparr>vw_ptr = owned_ptr ob, vw_len = ow_len ob, vw_size = ow_size ob\<rparr>"

text \<open>A buffer that was received becomes an array of the context.\<close>

definition adopt :: "buffer \<Rightarrow> runtime \<Rightarrow> owned \<times> runtime" where
  "adopt b st =
     (case buf_ptr b of
        None \<Rightarrow> (\<lparr>ow_ptr = None, ow_size = buf_size b, ow_len = buf_len b\<rparr>, st)
      | Some m \<Rightarrow> (let (a, st1) = new_array m st in (\<lparr>ow_ptr = Some a, ow_size = buf_size b, ow_len = buf_len b\<rparr>, st1)))"

section \<open>The invoker\<close>

definition Invoker :: "string \<Rightarrow> IPCMode \<Rightarrow> string \<Rightarrow> mq_table \<Rightarrow> (runtime \<times> mq_table) result" where
  "Invoker process_id mode ipc_name k =
     and_then
       (if mode = POSIX_MQ then
          and_then (POSIXMQChannel (ipc_name @ ''_write'') True False MAX_MSG_SIZE k) (\<lambda>(r, k1).
          and_then (POSIXMQChannel (ipc_name @ ''_read'') False False MAX_MSG_SIZE k1) (\<lambda>(w, k2).
          Inr (Some r, Some w, k2)))
        else Inr (None, None, k)) (\<lambda>(r, w, k2).
     Inr (\<lparr>rt_process_id = process_id, rt_input = Buffer_default,
           rt_app_status = application_empty\<lparr>active_processes := [process_id]\<rparr>, rt_ending = False,
           rt_read = r, rt_write = w, rt_queue = [], rt_sent = [], rt_heap = Map.empty, rt_next = 0,
           cx_output = \<lparr>ow_ptr = None, ow_size = 0, ow_len = 0\<rparr>, cx_user_buffers = [],
           cx_output_view = view_null, cx_invoc_id = []\<rparr>, k2))"

text \<open>
  The arguments of an invocation are views into the input, one behind the other; the loop moves
  its pointer by the declared lengths, which is undefined outside of the array.
\<close>

fun build_args :: "buffer \<Rightarrow> nat \<Rightarrow> nat list \<Rightarrow> view list result" where
  "build_args inp off [] = Inr []"
| "build_args inp off (len # lens) =
     (if off + len > buf_size inp then Inl UndefinedBehaviour
      else and_then (build_args inp (off + len) lens) (\<lambda>vs.
           Inr (\<lparr>vw_ptr = map_option (\<lambda>_. (InputBlock, off)) (buf_ptr inp), vw_len = len, vw_size = len\<rparr> # vs)))"

definition declared_lengths :: "ipc_invocation_request \<Rightarrow> nat list result" where
  "declared_lengths req =
     (let n = nat (sint (irq_buffers req)) in
      if IPC_HEADER_OFFSET + 2 * IPC_ID_LENGTH + IPC_NAME_LENGTH + 4 + 4 * n > IPC_BUF_SIZE then Inl UndefinedBehaviour
      else Inr (map (\<lambda>i. size_of_i32 (irq_buffers_lengths req i)) [0..<n]))"

definition receive_invocation :: "ipc_invocation_request \<Rightarrow> buffer \<Rightarrow> rt_invocation result" where
  "receive_invocation req inp =
     and_then (declared_lengths req) (\<lambda>lens.
     if sum_list lens mod 2 ^ 64 > buf_len inp then Inl PraaSException
     else and_then (build_args inp 0 lens) (\<lambda>args.
          Inr \<lparr>ri_key = irq_invocation_id req, ri_function_name = irq_function_name req, ri_args = args\<rparr>))"

text \<open>
  One round of the loop of \<^verbatim>\<open>poll\<close>: the invocation when one has arrived. An exception of the code
  base ends the loop without one; what it leaves of the channel is not used again.
\<close>

definition poll_round :: "runtime \<Rightarrow> (rt_invocation option \<times> runtime) call" where
  "poll_round st =
     (case rt_read st of
        None \<Rightarrow> returns (Inl UndefinedBehaviour)
      | Some ch \<Rightarrow>
          then_call (blocking_receive ch (rt_input st) (rt_queue st)) (\<lambda>(ch1, inp, q, complete).
            let st1 = st\<lparr>rt_read := Some ch1, rt_input := inp, rt_queue := q\<rparr> in
            if \<not> complete then returns (Inl PraaSException)
            else returns (and_then (parse_message (ch_msg ch1)) (\<lambda>v.
              case v of
                InvocationRequestV req \<Rightarrow> and_then (receive_invocation req inp) (\<lambda>i. Inr (Some i, st1))
              | ApplicationUpdateV u \<Rightarrow>
                  Inr (None, st1\<lparr>rt_app_status :=
                    app_apply_update (status_of_code (iau_status_change u)) (iau_process_id u) (rt_app_status st1)\<rparr>)
              | _ \<Rightarrow> Inr (None, st1)))))"

lemma recv_loop_shrinks:
  "recv_loop cap q len acc = Inr (d, q') \<Longrightarrow> length q' \<le> length q \<and> (length acc < len \<and> q \<noteq> [] \<longrightarrow> length q' < length q)"
proof (induction q arbitrary: acc)
  case (Cons m q)
  then show ?case by (fastforce split: if_splits)
qed auto

lemma blocking_receive_shrinks:
  assumes "blocking_receive ch b q = Some (Inr (ch1, b1, q', ok))"
  shows "length q' < length q"
proof -
  have recv: "length q2 \<le> length q1 \<and> (0 < n \<longrightarrow> length q2 < length q1)"
    if "blocking_recv cap q1 n = Some (Inr (d, q2))" for cap q1 n d q2
    using that recv_loop_shrinks [of cap q1 n "[]" d q2]
    by (cases q1) (auto simp: blocking_recv_def channel_recv_def split: sum.splits if_splits)
  from assms obtain h q1 n cap d where "blocking_recv (ch_msg_size ch) q IPC_BUF_SIZE = Some (Inr (h, q1))"
      "blocking_recv cap q1 n = Some (Inr (d, q'))"
    by (auto simp: blocking_receive_def Let_def split: option.splits sum.splits if_splits)
  from recv [OF this(1)] recv [OF this(2)] show ?thesis by simp
qed

lemma poll_round_shrinks:
  assumes "poll_round st = Some (Inr (i, st'))"
  shows "length (rt_queue st') < length (rt_queue st)"
proof -
  from assms obtain ch ch1 inp q ok where r: "blocking_receive ch (rt_input st) (rt_queue st) = Some (Inr (ch1, inp, q, ok))"
      "rt_read st = Some ch"
    by (auto simp: poll_round_def then_call_def split: option.splits sum.splits)
  with assms obtain v where "parse_message (ch_msg ch1) = Inr v"
    by (auto simp: poll_round_def then_call_def Let_def and_then_eq_Inr split: if_splits)
  with assms r have "rt_queue st' = q"
    by (cases v) (auto simp: poll_round_def then_call_def Let_def and_then_eq_Inr split: if_splits)
  with blocking_receive_shrinks [OF r(1)] show ?thesis by simp
qed

function invoker_poll :: "runtime \<Rightarrow> (rt_invocation option \<times> runtime) call" where
  "invoker_poll st =
     (if rt_ending st then returns (Inr (Some rt_Invocation, st))
      else case poll_round st of
             None \<Rightarrow> None
           | Some (Inl e) \<Rightarrow> if is_praas_exception e then returns (Inr (None, st)) else returns (Inl e)
           | Some (Inr (Some i, st1)) \<Rightarrow> returns (Inr (Some i, st1))
           | Some (Inr (None, st1)) \<Rightarrow> invoker_poll st1)"
  by pat_completeness auto
termination by (relation "measure (\<lambda>st. length (rt_queue st))") (auto intro: poll_round_shrinks)

declare invoker_poll.simps [simp del]

text \<open>Sending on the invoker's channel; \<^verbatim>\<open>put\<close> and both versions of \<^verbatim>\<open>finish\<close> end in it.\<close>

definition invoker_send :: "bytes \<Rightarrow> bytes \<Rightarrow> runtime \<Rightarrow> runtime call" where
  "invoker_send msg d st =
     (case rt_write st of
        None \<Rightarrow> returns (Inl UndefinedBehaviour)
      | Some ch \<Rightarrow>
          (case ipc_send_accessor (ch_msg_size ch) msg \<lparr>acc_ptr = Some d, acc_len = length d\<rparr> of
             None \<Rightarrow> None
           | Some (m, cs) \<Rightarrow> returns (Inr (st\<lparr>rt_sent := rt_sent st @ cs\<rparr>))))"

definition invoker_put :: "bytes \<Rightarrow> (block \<times> nat) option \<Rightarrow> nat \<Rightarrow> runtime \<Rightarrow> runtime call" where
  "invoker_put msg p len st = then_call (returns (read_bytes p len st)) (\<lambda>d. invoker_send msg d st)"

definition result_message :: "string \<Rightarrow> nat \<Rightarrow> int32 \<Rightarrow> ipc_invocation_result result" where
  "result_message iid len code =
     set_irs_invocation_id iid (set_irs_buffer_length (i32_of_size len) (set_irs_return_code code ipc_InvocationResult))"

definition invoker_finish :: "string \<Rightarrow> (block \<times> nat) option \<Rightarrow> nat \<Rightarrow> int32 \<Rightarrow> runtime \<Rightarrow> runtime call" where
  "invoker_finish iid p len code st =
     then_call (returns (result_message iid len code)) (\<lambda>msg. invoker_put (irs_data msg) p len st)"

definition invoker_finish_error :: "string \<Rightarrow> string \<Rightarrow> runtime \<Rightarrow> runtime call" where
  "invoker_finish_error iid error_message st =
     then_call (returns (result_message iid (length error_message) (- 1))) (\<lambda>msg.
     invoker_send (irs_data msg) error_message st)"

text \<open>
  \<^verbatim>\<open>get<MsgType>\<close>: \<^verbatim>\<open>receive\<close> on a descriptor that blocks. When the queue holds only a part of a
  message, of the header too, the call waits.
\<close>

definition invoker_get :: "(ipc_variants \<Rightarrow> 'a option) \<Rightarrow> runtime \<Rightarrow> ('a \<times> buffer \<times> runtime) call" where
  "invoker_get sel st =
     (case rt_read st of
        None \<Rightarrow> returns (Inl UndefinedBehaviour)
      | Some ch \<Rightarrow>
          (case receive ch (rt_queue st) of
             Inl NotImplementedError \<Rightarrow> None
           | Inl e \<Rightarrow> returns (Inl e)
           | Inr (ch1, q, complete, dat) \<Rightarrow>
               if \<not> complete then None
               else returns (and_then (parse_message (ch_msg ch1)) (\<lambda>v.
                 case sel v of
                   None \<Rightarrow> Inl FunctionGetFailure
                 | Some m \<Rightarrow> Inr (m, dat, st\<lparr>rt_read := Some ch1, rt_queue := q\<rparr>)))))"

fun as_get_request :: "ipc_variants \<Rightarrow> generic_request option" where
  "as_get_request (GetRequestV m) = Some m"
| "as_get_request _ = None"

fun as_invocation_result :: "ipc_variants \<Rightarrow> ipc_invocation_result option" where
  "as_invocation_result (InvocationResultV m) = Some m"
| "as_invocation_result _ = None"

fun as_state_keys_result :: "ipc_variants \<Rightarrow> state_keys option" where
  "as_state_keys_result (StateKeysResultV m) = Some m"
| "as_state_keys_result _ = None"

definition invoker_request :: "bytes \<Rightarrow> runtime \<Rightarrow> (generic_request \<times> buffer \<times> runtime) call" where
  "invoker_request msg st = then_call (invoker_put msg None 0 st) (\<lambda>st1. invoker_get as_get_request st1)"

definition invoker_shutdown :: "runtime \<Rightarrow> runtime" where
  "invoker_shutdown st = st\<lparr>rt_ending := True, rt_read := None, rt_write := None\<rparr>"

section \<open>The context\<close>

definition create_context :: "runtime \<Rightarrow> runtime" where
  "create_context st =
     (let (a, st1) = new_array (replicate CONTEXT_BUFFER_SIZE NUL) st;
          out = \<lparr>ow_ptr = Some a, ow_size = CONTEXT_BUFFER_SIZE, ow_len = 0\<rparr> in
      st1\<lparr>cx_output := out, cx_user_buffers := [], cx_output_view := owned_view out, cx_invoc_id := []\<rparr>)"

definition start_invocation :: "string \<Rightarrow> runtime \<Rightarrow> runtime" where
  "start_invocation iid st =
     st\<lparr>cx_invoc_id := iid, cx_output := (cx_output st)\<lparr>ow_len := 0\<rparr>,
        cx_output_view := (cx_output_view st)\<lparr>vw_len := 0\<rparr>\<rparr>"

definition end_invocation :: "runtime \<Rightarrow> runtime" where
  "end_invocation st = (fold (\<lambda>ob. free_array (ow_ptr ob)) (cx_user_buffers st) st)\<lparr>cx_user_buffers := []\<rparr>"

definition get_output_buffer :: "nat \<Rightarrow> runtime \<Rightarrow> view \<times> runtime" where
  "get_output_buffer sz st =
     (if sz \<noteq> 0 \<and> sz > ow_size (cx_output st) then
        (let (a, st1) = new_array (replicate sz NUL) (free_array (ow_ptr (cx_output st)) st);
             out = \<lparr>ow_ptr = Some a, ow_size = sz, ow_len = 0\<rparr> in
         (owned_view out, st1\<lparr>cx_output := out, cx_output_view := owned_view out\<rparr>))
      else (cx_output_view st, st))"

definition set_output_buffer :: "view \<Rightarrow> runtime \<Rightarrow> runtime" where
  "set_output_buffer v st = st\<lparr>cx_output_view := v\<rparr>"

definition add_user_buffer :: "owned \<Rightarrow> runtime \<Rightarrow> view \<times> runtime" where
  "add_user_buffer ob st = (owned_view ob, st\<lparr>cx_user_buffers := cx_user_buffers st @ [ob]\<rparr>)"

definition get_buffer :: "nat \<Rightarrow> runtime \<Rightarrow> view \<times> runtime" where
  "get_buffer sz st =
     (let (a, st1) = new_array (replicate sz NUL) st in
      add_user_buffer \<lparr>ow_ptr = Some a, ow_size = sz, ow_len = 0\<rparr> st1)"

definition write_output :: "bytes \<Rightarrow> nat \<Rightarrow> runtime \<Rightarrow> runtime result" where
  "write_output d pos st =
     (case Option.bind (ow_ptr (cx_output st)) (\<lambda>a. map_option (\<lambda>m. (a, m)) (rt_heap st a)) of
        None \<Rightarrow> Inl UndefinedBehaviour
      | Some (a, m) \<Rightarrow>
          if pos + length d > length m then Inl UndefinedBehaviour
          else Inr (st\<lparr>rt_heap := (rt_heap st)(a \<mapsto> poke m pos d),
                       cx_output_view := (cx_output_view st)\<lparr>vw_len := max (vw_len (cx_output_view st)) (pos + length d)\<rparr>\<rparr>))"

definition as_buffer :: "runtime \<Rightarrow> (block \<times> nat) option \<times> nat" where
  "as_buffer st =
     (if vw_ptr (cx_output_view st) \<noteq> owned_ptr (cx_output st)
      then (vw_ptr (cx_output_view st), vw_len (cx_output_view st))
      else (owned_ptr (cx_output st), vw_len (cx_output_view st)))"

text \<open>What a function does with the memory of a view.\<close>

definition write_view :: "view \<Rightarrow> nat \<Rightarrow> bytes \<Rightarrow> runtime \<Rightarrow> runtime result" where
  "write_view v pos d st =
     (case vw_ptr v of
        Some (HeapBlock a, off) \<Rightarrow>
          (case rt_heap st a of
             None \<Rightarrow> Inl UndefinedBehaviour
           | Some m \<Rightarrow>
               if off + pos + length d > length m then Inl UndefinedBehaviour
               else Inr (st\<lparr>rt_heap := (rt_heap st)(a \<mapsto> poke m (off + pos) d)\<rparr>))
      | _ \<Rightarrow> Inl UndefinedBehaviour)"

text \<open>The search for the array of a view among the user buffers; its length becomes that of the view.\<close>

fun find_user_buffer :: "view \<Rightarrow> owned list \<Rightarrow> (owned \<times> owned list) option" where
  "find_user_buffer v [] = None"
| "find_user_buffer v (ob # obs) =
     (if owned_ptr ob = vw_ptr v then (let o1 = ob\<lparr>ow_len := vw_len v\<rparr> in Some (o1, o1 # obs))
      else map_option (\<lambda>(o1, obs1). (o1, ob # obs1)) (find_user_buffer v obs))"

definition put_user_buffer :: "bytes \<Rightarrow> view \<Rightarrow> runtime \<Rightarrow> runtime call" where
  "put_user_buffer msg v st =
     (case find_user_buffer v (cx_user_buffers st) of
        None \<Rightarrow> returns (Inl PraaSException)
      | Some (ob, obs) \<Rightarrow> invoker_put msg (owned_ptr ob) (ow_len ob) (st\<lparr>cx_user_buffers := obs\<rparr>))"

definition state_keys_call :: "(bytes \<Rightarrow> 'k list) \<Rightarrow> runtime \<Rightarrow> ('k list \<times> runtime) call" where
  "state_keys_call deserialize st =
     then_call (invoker_put (sk_data StateKeysRequest) None 0 st) (\<lambda>st1.
     then_call (invoker_get as_state_keys_result st1) (\<lambda>(_, dat, st2).
     returns (Inr (deserialize (buffer_data dat), st2))))"

definition put_request :: "string option \<Rightarrow> string \<Rightarrow> nat \<Rightarrow> bool \<Rightarrow> generic_request result" where
  "put_request destination key len st =
     and_then (case destination of None \<Rightarrow> Inr PutRequest | Some d \<Rightarrow> set_gr_process_id d PutRequest) (\<lambda>m1.
     and_then (set_gr_name key m1) (\<lambda>m2.
     Inr ((if st then set_gr_state True else id) (set_gr_data_len (i32_of_size len) m2))))"

definition state_put_string :: "string \<Rightarrow> bytes \<Rightarrow> runtime \<Rightarrow> runtime call" where
  "state_put_string key d st =
     then_call (returns (put_request None key (length d) True)) (\<lambda>req. invoker_send (gr_data req) d st)"

definition state_put_buffer :: "string \<Rightarrow> view \<Rightarrow> runtime \<Rightarrow> runtime call" where
  "state_put_buffer key v st =
     then_call (returns (put_request None key (vw_len v) True)) (\<lambda>req. put_user_buffer (gr_data req) v st)"

definition context_put_bytes :: "string \<Rightarrow> string \<Rightarrow> (block \<times> nat) option \<Rightarrow> nat \<Rightarrow> runtime \<Rightarrow> runtime call" where
  "context_put_bytes destination key p sz st =
     then_call (returns (put_request (Some destination) key sz False)) (\<lambda>req. invoker_put (gr_data req) p sz st)"

definition context_put :: "string \<Rightarrow> string \<Rightarrow> view \<Rightarrow> runtime \<Rightarrow> runtime call" where
  "context_put destination key v st =
     then_call (returns (put_request (Some destination) key (vw_len v) False)) (\<lambda>req. put_user_buffer (gr_data req) v st)"

text \<open>Both kinds of get test the length field of their own request, which is never negative.\<close>

definition state_get :: "string \<Rightarrow> runtime \<Rightarrow> (view \<times> runtime) call" where
  "state_get key st =
     then_call (returns (and_then (set_gr_name key GetRequest) (\<lambda>m. Inr (set_gr_state True m)))) (\<lambda>req.
     then_call (invoker_request (gr_data req) st) (\<lambda>(reply, dat, st1).
     if sint (gr_data_len req) < 0 then returns (Inl FunctionGetFailure)
     else if gr_name req \<noteq> gr_name reply then returns (Inl FunctionGetFailure)
     else if buf_len dat \<noteq> 0
     then (let (ob, st2) = adopt dat st1 in returns (Inr (add_user_buffer ob st2)))
     else returns (Inr (view_null, st1))))"

definition SELF :: string where "SELF = ''SELF''"
definition ANY :: string where "ANY = ''ANY''"

definition context_get :: "string \<Rightarrow> string \<Rightarrow> runtime \<Rightarrow> (view \<times> runtime) call" where
  "context_get source key st =
     then_call (returns (and_then (set_gr_process_id source GetRequest) (set_gr_name key))) (\<lambda>req.
     then_call (invoker_request (gr_data req) st) (\<lambda>(reply, dat, st1).
     if sint (gr_data_len req) < 0 then returns (Inl FunctionGetFailure)
     else if gr_process_id req \<noteq> SELF \<and> gr_process_id req \<noteq> ANY \<and> gr_process_id req \<noteq> gr_process_id reply
     then returns (Inl FunctionGetFailure)
     else if gr_name req \<noteq> gr_name reply then returns (Inl FunctionGetFailure)
     else (let (ob, st2) = adopt dat st1 in returns (Inr (add_user_buffer ob st2)))))"

text \<open>The search of \<^verbatim>\<open>invoke\<close> goes on after a match: it submits every user buffer with that pointer.\<close>

fun put_matching :: "bytes \<Rightarrow> view \<Rightarrow> nat \<Rightarrow> bool \<Rightarrow> runtime \<Rightarrow> (bool \<times> runtime) call" where
  "put_matching msg v 0 found st = returns (Inr (found, st))"
| "put_matching msg v (Suc n) found st =
     (let i = length (cx_user_buffers st) - Suc n; ob = cx_user_buffers st ! i in
      if owned_ptr ob = vw_ptr v then
        then_call (invoker_put msg (owned_ptr ob) (vw_len v)
            (st\<lparr>cx_user_buffers := (cx_user_buffers st)[i := ob\<lparr>ow_len := vw_len v\<rparr>]\<rparr>)) (\<lambda>st1.
        put_matching msg v n True st1)
      else put_matching msg v n found st)"

definition invoke_request :: "string \<Rightarrow> string \<Rightarrow> string \<Rightarrow> nat \<Rightarrow> ipc_invocation_request result" where
  "invoke_request process_id function_name invocation_id len =
     and_then (set_irq_process_id process_id ipc_InvocationRequest) (\<lambda>m1.
     and_then (set_irq_function_name function_name m1) (\<lambda>m2.
     and_then (set_irq_invocation_id invocation_id m2) (\<lambda>m3.
     Inr (set_irq_buffer (i32_of_size len) m3))))"

definition context_invoke :: "string \<Rightarrow> string \<Rightarrow> string \<Rightarrow> view \<Rightarrow> runtime \<Rightarrow> (rt_result \<times> runtime) call" where
  "context_invoke process_id function_name invocation_id v st =
     then_call (returns (invoke_request process_id function_name invocation_id (vw_len v))) (\<lambda>req.
     then_call (put_matching (irq_data req) v (length (cx_user_buffers st)) False st) (\<lambda>(found, st1).
     if \<not> found then returns (Inl PraaSException)
     else then_call (invoker_get as_invocation_result st1) (\<lambda>(result, dat, st2).
          if irq_invocation_id req \<noteq> irs_invocation_id result then returns (Inl FunctionGetFailure)
          else (let (ob, st3) = adopt dat st2; (w, st4) = add_user_buffer ob st3 in
                returns (Inr (\<lparr>rr_key = invocation_id, rr_function_name = function_name,
                               rr_return_code = irs_return_code result, rr_payload = w\<rparr>, st4))))))"

definition context_active_processes :: "runtime \<Rightarrow> string list" where
  "context_active_processes st = active_processes (rt_app_status st)"

definition context_swapped_processes :: "runtime \<Rightarrow> string list" where
  "context_swapped_processes st = swapped_processes (rt_app_status st)"

section \<open>The C++ invoker\<close>

text \<open>
  The table of functions, over \<^verbatim>\<open>dlopen\<close> and \<^verbatim>\<open>dlsym\<close>; the entries of the configuration come in
  the order of a hash table.
\<close>

record 'f library =
  lb_libraries :: "string \<Rightarrow> nat option"
  lb_functions :: "string \<Rightarrow> 'f option"

definition load_function ::
    "(string \<Rightarrow> nat option) \<Rightarrow> (nat \<Rightarrow> string \<Rightarrow> 'f option) \<Rightarrow> string \<Rightarrow> string \<Rightarrow> string \<Rightarrow> 'f library \<Rightarrow> bool \<times> 'f library" where
  "load_function dlopen dlsym function_name library_name library_function l =
     (let (handle, l1) =
        (case lb_libraries l library_name of
           Some h \<Rightarrow> (Some h, l)
         | None \<Rightarrow>
             (case dlopen library_name of
                None \<Rightarrow> (None, l)
              | Some h \<Rightarrow> (Some h, l\<lparr>lb_libraries := (lb_libraries l)(library_name \<mapsto> h)\<rparr>))) in
      case handle of
        None \<Rightarrow> (False, l1)
      | Some h \<Rightarrow>
          (case dlsym h library_function of
             None \<Rightarrow> (False, l1)
           | Some f \<Rightarrow> (True, l1\<lparr>lb_functions := (lb_functions l1)(function_name \<mapsto> f)\<rparr>)))"

definition FunctionsLibrary ::
    "(string \<Rightarrow> nat option) \<Rightarrow> (nat \<Rightarrow> string \<Rightarrow> 'f option) \<Rightarrow> (string \<times> string \<times> string) list \<Rightarrow> 'f library" where
  "FunctionsLibrary dlopen dlsym db =
     fold (\<lambda>(name, m, fn) l. snd (load_function dlopen dlsym name m fn l)) db
       \<lparr>lb_libraries = Map.empty, lb_functions = Map.empty\<rparr>"

definition library_get_function :: "string \<Rightarrow> 'f library \<Rightarrow> 'f option" where
  "library_get_function name l = lb_functions l name"

text \<open>One round of the main loop; it goes on while the Boolean is true.\<close>

type_synonym user_function = "rt_invocation \<Rightarrow> runtime \<Rightarrow> (int32 \<times> runtime) call"

definition main_round :: "user_function library \<Rightarrow> runtime \<Rightarrow> (bool \<times> runtime) call" where
  "main_round l st =
     then_call (invoker_poll st) (\<lambda>(invoc, st1).
     case invoc of
       None \<Rightarrow> returns (Inr (False, st1))
     | Some i \<Rightarrow>
         if rt_ending st1 then returns (Inr (False, st1))
         else case library_get_function (ri_function_name i) l of
                None \<Rightarrow> returns (Inr (True, st1))
              | Some f \<Rightarrow>
                  then_call (f i (start_invocation (ri_key i) st1)) (\<lambda>(ret, st2).
                  let (p, len) = as_buffer st2 in
                  then_call (invoker_finish (cx_invoc_id st2) p len ret st2) (\<lambda>st3.
                  returns (Inr (True, end_invocation st3)))))"

section \<open>The library of functions\<close>

text \<open>
  A function of the table is in the library if the dynamic linker finds it, in whatever order the
  table is enumerated.
\<close>

lemma loaded_libraries:
  assumes "\<And>m h. lb_libraries l m = Some h \<Longrightarrow> dlopen m = Some h"
    and "lb_libraries (snd (load_function dlopen dlsym n m x l)) m' = Some h"
  shows "dlopen m' = Some h"
  using assms by (auto simp: load_function_def split: option.splits if_splits)

lemma library_opens: "lb_libraries (FunctionsLibrary dlopen dlsym db) m = Some h \<Longrightarrow> dlopen m = Some h"
proof (induction db arbitrary: m h rule: rev_induct)
  case (snoc x db)
  obtain n m' y where "x = (n, m', y)" by (cases x)
  with snoc loaded_libraries [of "FunctionsLibrary dlopen dlsym db" dlopen dlsym n m' y m h] show ?case
    by (simp add: FunctionsLibrary_def)
qed (simp add: FunctionsLibrary_def)

lemma library_functions:
  assumes "\<And>m' x'. (f, m', x') \<in> set db \<Longrightarrow> m' = m \<and> x' = x" and "dlopen m = Some h" and "dlsym h x = Some fn"
  shows "library_get_function f (FunctionsLibrary dlopen dlsym db) = (if (f, m, x) \<in> set db then Some fn else None)"
  using assms(1)
proof (induction db rule: rev_induct)
  case (snoc a db)
  let ?l = "FunctionsLibrary dlopen dlsym db"
  obtain n m' y where a: "a = (n, m', y)" by (cases a)
  have l: "FunctionsLibrary dlopen dlsym (db @ [a]) = snd (load_function dlopen dlsym n m' y ?l)"
    by (simp add: FunctionsLibrary_def a)
  have IH: "lb_functions ?l f = (if (f, m, x) \<in> set db then Some fn else None)"
    using snoc.IH snoc.prems unfolding library_get_function_def by (metis Un_iff set_append)
  show ?case
  proof (cases "n = f")
    case True
    with snoc.prems a have "m' = m" "y = x" by auto
    with True l a assms(2,3) library_opens [of dlopen dlsym db m] show ?thesis
      by (auto simp: library_get_function_def load_function_def split: option.splits)
  next
    case False
    with l a IH show ?thesis by (auto simp: library_get_function_def load_function_def split: option.splits)
  qed
qed (simp add: FunctionsLibrary_def library_get_function_def)

section \<open>Calls\<close>

lemma then_call_simps [simp]:
  "then_call None f = None"
  "then_call (Some (Inl e)) f = Some (Inl e)"
  "then_call (Some (Inr a)) f = f a"
  by (simp_all add: then_call_def)

lemma then_call_eq_Inr:
  "then_call r f = Some (Inr b) \<longleftrightarrow> (\<exists>a. r = Some (Inr a) \<and> f a = Some (Inr b))"
  by (auto simp: then_call_def split: option.splits sum.splits)

section \<open>Invocations arrive\<close>

lemma build_args_views:
  assumes "wf_buffer inp" and "list_all wf_buffer bs"
    and "case buf_ptr inp of None \<Rightarrow> sum_list (map buf_len bs) = 0 | Some m \<Rightarrow>
           off + sum_list (map buf_len bs) \<le> length m \<and> peek m off (sum_list (map buf_len bs)) = concat (map buffer_data bs)"
    and "buf_ptr inp = None \<longrightarrow> off = 0"
  shows "\<exists>vs. build_args inp off (map buf_len bs) = Inr vs \<and>
           list_all2 (\<lambda>v b. \<forall>st. rt_input st = inp \<longrightarrow> view_data v st = Inr (buffer_data b)) vs bs"
  using assms(2-4)
proof (induction bs arbitrary: off)
  case (Cons b bs)
  have len: "length (buffer_data b) = buf_len b" using Cons.prems(1) by (simp add: length_buffer_data)
  show ?case
  proof (cases "buf_ptr inp")
    case None
    with Cons.prems assms(1) have z: "buf_len b = 0" "sum_list (map buf_len bs) = 0" "off = 0" "buf_size inp = 0"
      by (auto simp: wf_buffer_def)
    with Cons.IH [of 0] Cons.prems None obtain vs where "build_args inp 0 (map buf_len bs) = Inr vs"
        "list_all2 (\<lambda>v b. \<forall>st. rt_input st = inp \<longrightarrow> view_data v st = Inr (buffer_data b)) vs bs" by auto
    with z len None show ?thesis by (simp add: view_data_def read_bytes_def)
  next
    case (Some m)
    let ?n = "buf_len b" and ?r = "sum_list (map buf_len bs)"
    have m: "length m = buf_size inp" using assms(1) Some by (simp add: wf_buffer_def)
    have le: "off + ?n + ?r \<le> length m" and all: "peek m off (?n + ?r) = buffer_data b @ concat (map buffer_data bs)"
      using Cons.prems(2) Some by (simp_all add: add.assoc)
    have "peek m off (?n + ?r) = peek m off ?n @ peek m (off + ?n) ?r"
      by (simp add: peek_def take_add drop_drop add.commute)
    with all have eq: "peek m off ?n = buffer_data b" "peek m (off + ?n) ?r = concat (map buffer_data bs)"
      using len le by (auto simp: peek_def append_eq_append_conv)
    with Cons.IH [of "off + ?n"] Cons.prems(1) Some le obtain vs where "build_args inp (off + ?n) (map buf_len bs) = Inr vs"
        "list_all2 (\<lambda>v b. \<forall>st. rt_input st = inp \<longrightarrow> view_data v st = Inr (buffer_data b)) vs bs" by auto
    with Some m le eq(1) len show ?thesis
      by (auto simp: view_data_def read_bytes_def block_content_def)
  qed
qed simp

lemma declared_lengths_ok:
  assumes "irq_buffers r = i32_of_size (length bs)" and "length bs \<le> 13" and "sum_list (map buf_len bs) < 2 ^ 31"
    and "\<forall>j < length bs. irq_buffers_lengths r j = i32_of_size (buf_len (bs ! j))"
  shows "declared_lengths r = Inr (map buf_len bs)"
proof -
  have "buf_len (bs ! j) < 2 ^ 31" if "j < length bs" for j
    using member_le_sum_list [of "buf_len (bs ! j)" "map buf_len bs"] that assms(3) by (simp add: le_less_trans)
  then have "map (\<lambda>i. size_of_i32 (irq_buffers_lengths r i)) [0..<length bs] = map buf_len bs"
    using assms(4) by (intro nth_equalityI) simp_all
  moreover have "nat (sint (irq_buffers r)) = length bs"
    using assms(1,2) by (simp add: sint_i32_of_size)
  ultimately show ?thesis using assms(2) by (simp add: declared_lengths_def Let_def)
qed

lemma sum_buf_len: "list_all wf_buffer bs \<Longrightarrow> sum_list (map buf_len bs) = length (concat (map buffer_data bs))"
  by (induction bs) (simp_all add: length_buffer_data)

lemma receive_invocation_ok:
  assumes inp: "wf_buffer inp" "buffer_data inp = concat (map buffer_data bs)"
    and bs: "list_all wf_buffer bs" "length bs \<le> 13" "sum_list (map buf_len bs) < 2 ^ 31"
    and r: "irq_buffers r = i32_of_size (length bs)" "\<forall>j < length bs. irq_buffers_lengths r j = i32_of_size (buf_len (bs ! j))"
  shows "\<exists>i. receive_invocation r inp = Inr i \<and> ri_key i = irq_invocation_id r \<and> ri_function_name i = irq_function_name r \<and>
           list_all2 (\<lambda>v b. \<forall>st. rt_input st = inp \<longrightarrow> view_data v st = Inr (buffer_data b)) (ri_args i) bs"
proof -
  have len: "buf_len inp = sum_list (map buf_len bs)"
    using inp bs(1) length_buffer_data [OF inp(1)] by (simp add: sum_buf_len)
  have "case buf_ptr inp of None \<Rightarrow> sum_list (map buf_len bs) = 0 | Some m \<Rightarrow>
      0 + sum_list (map buf_len bs) \<le> length m \<and> peek m 0 (sum_list (map buf_len bs)) = concat (map buffer_data bs)"
    using inp len by (auto simp: wf_buffer_def buffer_data_def buffer_accessor_def accessor_data_def peek_def split: option.splits)
  from build_args_views [OF inp(1) bs(1) this] obtain vs where "build_args inp 0 (map buf_len bs) = Inr vs"
      "list_all2 (\<lambda>v b. \<forall>st. rt_input st = inp \<longrightarrow> view_data v st = Inr (buffer_data b)) vs bs" by auto
  with declared_lengths_ok [OF r(1) bs(2,3) r(2)] len bs(3) show ?thesis by (simp add: receive_invocation_def)
qed

lemma submitted_header:
  assumes "submitted i h" and "length (irq_data (inv_req i)) = IPC_BUF_SIZE" and "length (inv_payload i) \<le> 13"
    and "length (concat (map buffer_data (inv_payload i))) < 2 ^ 31"
  shows "header_of h (concat (map buffer_data (inv_payload i)))"
proof -
  from assms(1) obtain r where r: "set_irq_buffers_iter (map buf_len (inv_payload i)) (inv_req i) = Inr r"
      "h = set_ipc_total_length (i32_of_size (length (concat (map buffer_data (inv_payload i))))) (irq_data r)"
    by (auto simp: submitted_def)
  have "length (irq_data r) = IPC_BUF_SIZE"
    using r(1) assms(2,3) irq_buffers_read_back [of "inv_req i" "map i32_of_size (map buf_len (inv_payload i))"]
    by (auto simp: set_irq_buffers_iter_def)
  with r(2) assms(4) show ?thesis by (simp add: header_of_def ipc_simps)
qed

text \<open>A message for the invoker: its header and its fragments in the queue.\<close>

definition framed :: "nat \<Rightarrow> bytes \<Rightarrow> bytes \<Rightarrow> bytes list \<Rightarrow> bool" where
  "framed ms h p cs \<longleftrightarrow> (\<exists>F. cs = h # F \<and> header_of h p \<and> fragments ms F \<and> concat F = p)"

lemma poll_round_message:
  assumes "rt_read st = Some ch" and "IPC_BUF_SIZE \<le> ch_msg_size ch" and "wf_buffer (rt_input st)"
    and "framed (ch_msg_size ch) h p cs" and "rt_queue st = cs @ R" and "parse_message h = Inr v"
  shows "\<exists>inp. wf_buffer inp \<and> buffer_data inp = p \<and>
           poll_round st = returns (let st1 = st\<lparr>rt_read := Some (ch\<lparr>ch_msg := h\<rparr>), rt_input := inp, rt_queue := R\<rparr> in
             case v of
               InvocationRequestV req \<Rightarrow> and_then (receive_invocation req inp) (\<lambda>i. Inr (Some i, st1))
             | ApplicationUpdateV u \<Rightarrow>
                 Inr (None, st1\<lparr>rt_app_status :=
                   app_apply_update (status_of_code (iau_status_change u)) (iau_process_id u) (rt_app_status st)\<rparr>)
             | _ \<Rightarrow> Inr (None, st1))"
proof -
  from assms(4) obtain F where F: "cs = h # F" "header_of h p" "fragments (ch_msg_size ch) F" "concat F = p"
    by (auto simp: framed_def)
  from blocking_receive_message [OF F(2-4) assms(2,3), of R] obtain b where
    b: "blocking_receive ch (rt_input st) (h # F @ R) = Some (Inr (ch\<lparr>ch_msg := h\<rparr>, b, R, True))"
      "buffer_data b = p" "wf_buffer b" by blast
  with assms(1,5,6) F(1) show ?thesis
    by (intro exI [of _ b]) (simp add: poll_round_def Let_def)
qed

definition is_update :: "nat \<Rightarrow> app_update \<Rightarrow> bytes list \<Rightarrow> bool" where
  "is_update ms a cs \<longleftrightarrow> (\<exists>h u. framed ms h [] cs \<and> parse_message h = Inr (ApplicationUpdateV u) \<and>
     status_of_code (iau_status_change u) = upd_status a \<and> iau_process_id u = upd_process a)"

lemma poll_updates:
  assumes "rt_read st = Some ch" and "IPC_BUF_SIZE \<le> ch_msg_size ch" and "wf_buffer (rt_input st)" and "\<not> rt_ending st"
    and "list_all2 (is_update (ch_msg_size ch)) us css" and "rt_queue st = concat css @ R"
  shows "\<exists>ch' inp. wf_buffer inp \<and> ch_msg_size ch' = ch_msg_size ch \<and>
           invoker_poll st = invoker_poll (st\<lparr>rt_read := Some ch', rt_input := inp, rt_queue := R,
             rt_app_status := apply_updates us (rt_app_status st)\<rparr>)"
  using assms
proof (induction us arbitrary: st ch css)
  case Nil
  then have "st\<lparr>rt_read := Some ch, rt_input := rt_input st, rt_queue := R, rt_app_status := apply_updates [] (rt_app_status st)\<rparr> = st"
    by (cases st) simp
  then have "invoker_poll st = invoker_poll (st\<lparr>rt_read := Some ch, rt_input := rt_input st, rt_queue := R,
      rt_app_status := apply_updates [] (rt_app_status st)\<rparr>)" by (simp only:)
  with Nil(3) show ?case by blast
next
  case (Cons a us)
  then obtain cs css' where css: "css = cs # css'" "is_update (ch_msg_size ch) a cs" "list_all2 (is_update (ch_msg_size ch)) us css'"
    by (auto simp: list_all2_Cons1)
  from css(2) obtain h u where u: "framed (ch_msg_size ch) h [] cs" "parse_message h = Inr (ApplicationUpdateV u)"
      "status_of_code (iau_status_change u) = upd_status a" "iau_process_id u = upd_process a"
    by (auto simp: is_update_def)
  have q: "rt_queue st = cs @ (concat css' @ R)" using Cons.prems(6) css(1) by simp
  from poll_round_message [OF Cons.prems(1-3) u(1) q u(2)] obtain inp where inp: "wf_buffer inp"
      "poll_round st = returns (Inr (None, st\<lparr>rt_read := Some (ch\<lparr>ch_msg := h\<rparr>), rt_input := inp, rt_queue := concat css' @ R,
         rt_app_status := app_apply_update (upd_status a) (upd_process a) (rt_app_status st)\<rparr>))"
    using u(3,4) by (auto simp: Let_def)
  let ?st = "st\<lparr>rt_read := Some (ch\<lparr>ch_msg := h\<rparr>), rt_input := inp, rt_queue := concat css' @ R,
      rt_app_status := app_apply_update (upd_status a) (upd_process a) (rt_app_status st)\<rparr>"
  have "invoker_poll st = invoker_poll ?st" using inp(2) Cons.prems(4) by (subst invoker_poll.simps) simp
  moreover from Cons.IH [of ?st "ch\<lparr>ch_msg := h\<rparr>" css'] Cons.prems(2,4) css(3) inp(1) obtain ch' inp' where
    "wf_buffer inp'" "ch_msg_size ch' = ch_msg_size ch"
    "invoker_poll ?st = invoker_poll (st\<lparr>rt_read := Some ch', rt_input := inp', rt_queue := R, rt_app_status := apply_updates (a # us) (rt_app_status st)\<rparr>)"
    by auto
  ultimately show ?case by auto
qed

text \<open>The message that the controller submits for an invocation of a function.\<close>

definition is_invocation :: "nat \<Rightarrow> string \<Rightarrow> string \<Rightarrow> buffer list \<Rightarrow> bytes list \<Rightarrow> bool" where
  "is_invocation ms f key bs cs \<longleftrightarrow> no_nul f \<and> no_nul key \<and> list_all wf_buffer bs \<and> length bs \<le> 13 \<and>
     sum_list (map buf_len bs) < 2 ^ 31 \<and>
     (\<exists>t src i0 i h. Invocation f key t src = Inr i0 \<and> inv_req i = inv_req i0 \<and> inv_payload i = bs \<and>
        submitted i h \<and> framed ms h (concat (map buffer_data bs)) cs)"

lemma poll_invocation:
  assumes st: "rt_read st = Some ch" "IPC_BUF_SIZE \<le> ch_msg_size ch" "wf_buffer (rt_input st)" "\<not> rt_ending st"
    and cs: "is_invocation (ch_msg_size ch) f key bs cs" "rt_queue st = cs @ R"
  shows "\<exists>i ch' inp. invoker_poll st = returns (Inr (Some i, st\<lparr>rt_read := Some ch', rt_input := inp, rt_queue := R\<rparr>)) \<and>
           ri_key i = key \<and> ri_function_name i = f \<and> wf_buffer inp \<and> ch_msg_size ch' = ch_msg_size ch \<and>
           list_all2 (\<lambda>v b. \<forall>st. rt_input st = inp \<longrightarrow> view_data v st = Inr (buffer_data b)) (ri_args i) bs"
proof -
  from cs(1) obtain t src i0 i h where b: "no_nul f" "no_nul key" "list_all wf_buffer bs" "length bs \<le> 13" "sum_list (map buf_len bs) < 2 ^ 31"
      and i: "Invocation f key t src = Inr i0" "inv_req i = inv_req i0" "inv_payload i = bs" "submitted i h"
      and fr: "framed (ch_msg_size ch) h (concat (map buffer_data bs)) cs"
    unfolding is_invocation_def by blast
  from submitted_request [OF i(1,4,2) _ b(1,2)] i(3) b(4) obtain r where
    r: "parse_message h = Inr (InvocationRequestV r)" "irq_function_name r = f" "irq_invocation_id r = key"
      "irq_buffers r = i32_of_size (length bs)" "\<forall>j < length bs. irq_buffers_lengths r j = i32_of_size (buf_len (bs ! j))"
    by auto
  from poll_round_message [OF st(1-3) fr cs(2) r(1)] obtain inp where inp: "wf_buffer inp"
      "buffer_data inp = concat (map buffer_data bs)"
      "poll_round st = returns (and_then (receive_invocation r inp)
         (\<lambda>i. Inr (Some i, st\<lparr>rt_read := Some (ch\<lparr>ch_msg := h\<rparr>), rt_input := inp, rt_queue := R\<rparr>)))"
    by (auto simp: Let_def)
  from receive_invocation_ok [OF inp(1,2) b(3-5) r(4,5)] obtain j where
    j: "receive_invocation r inp = Inr j" "ri_key j = key" "ri_function_name j = f"
      "list_all2 (\<lambda>v b. \<forall>st. rt_input st = inp \<longrightarrow> view_data v st = Inr (buffer_data b)) (ri_args j) bs"
    using r(2,3) by auto
  have "invoker_poll st = returns (Inr (Some j, st\<lparr>rt_read := Some (ch\<lparr>ch_msg := h\<rparr>), rt_input := inp, rt_queue := R\<rparr>))"
    using inp(3) j(1) st(4) by (subst invoker_poll.simps) simp
  with inp(1) j show ?thesis
    by (intro exI [of _ j] exI [of _ "ch\<lparr>ch_msg := h\<rparr>"] exI [of _ inp]) simp
qed

section \<open>Messages leave\<close>

lemma accessor_send_framed:
  assumes "IPC_BUF_SIZE \<le> ms" and "length msg = IPC_BUF_SIZE" and "length d < 2 ^ 31"
  shows "\<exists>cs. ipc_send_accessor ms msg \<lparr>acc_ptr = Some d, acc_len = length d\<rparr> =
             Some (set_ipc_total_length (i32_of_size (length d)) msg, cs) \<and>
           framed ms (set_ipc_total_length (i32_of_size (length d)) msg) d cs"
proof -
  let ?h = "set_ipc_total_length (i32_of_size (length d)) msg"
  have h: "header_of ?h d" using assms(2,3) by (simp add: header_of_def ipc_simps)
  have hs: "channel_send ms ?h 128 = Some [?h]"
    using assms(1) h by (intro channel_send_header) (simp_all add: header_of_def)
  obtain F where F: "channel_send ms d (length d) = Some F" "fragments ms F" "concat F = d"
    using channel_send_returns [of ms "length d" d] assms(1,3) by auto
  show ?thesis
  proof (cases "d = []")
    case True
    with hs h show ?thesis
      by (intro exI [of _ "[?h]"]) (simp add: ipc_send_accessor_def Let_def accessor_data_def framed_def)
  next
    case False
    with hs h F show ?thesis
      by (intro exI [of _ "?h # F"]) (simp add: ipc_send_accessor_def Let_def accessor_data_def framed_def)
  qed
qed

lemma invoker_send_framed:
  assumes "rt_write st = Some ch" and "IPC_BUF_SIZE \<le> ch_msg_size ch" and "length msg = IPC_BUF_SIZE" and "length d < 2 ^ 31"
  shows "\<exists>cs. invoker_send msg d st = returns (Inr (st\<lparr>rt_sent := rt_sent st @ cs\<rparr>)) \<and>
           framed (ch_msg_size ch) (set_ipc_total_length (i32_of_size (length d)) msg) d cs"
  using accessor_send_framed [OF assms(2-4)] assms(1) by (auto simp: invoker_send_def)

text \<open>The answer to an invocation, as the controller parses it.\<close>

definition is_result :: "nat \<Rightarrow> string \<Rightarrow> int32 \<Rightarrow> bytes \<Rightarrow> bytes list \<Rightarrow> bool" where
  "is_result ms iid code out cs \<longleftrightarrow> (\<exists>h m. framed ms h out cs \<and> parse_message h = Inr (InvocationResultV m) \<and>
     irs_invocation_id m = iid \<and> irs_return_code m = code \<and> irs_buffer_length m = i32_of_size (length out))"

lemma result_message_ok:
  assumes "no_nul iid" and "length iid \<le> IPC_ID_LENGTH"
  shows "\<exists>m. result_message iid len code = Inr m \<and> length (irs_data m) = IPC_BUF_SIZE \<and>
           (\<exists>m'. parse_message (set_ipc_total_length n (irs_data m)) = Inr (InvocationResultV m') \<and>
              irs_invocation_id m' = iid \<and> irs_return_code m' = code \<and> irs_buffer_length m' = i32_of_size len)"
  using assms by (simp add: result_message_def ipc_simps parse_message_def)

lemma finish_sends_result:
  assumes "rt_write st = Some ch" and "IPC_BUF_SIZE \<le> ch_msg_size ch" and "read_bytes p len st = Inr out" and "len < 2 ^ 31"
    and "no_nul iid" and "length iid \<le> IPC_ID_LENGTH"
  shows "\<exists>cs. invoker_finish iid p len code st = returns (Inr (st\<lparr>rt_sent := rt_sent st @ cs\<rparr>)) \<and>
           is_result (ch_msg_size ch) iid code out cs"
proof -
  have len: "length out = len"
    using assms(3) by (auto simp: read_bytes_def peek_def split: if_splits option.splits prod.splits)
  obtain m m' where m: "result_message iid len code = Inr m" "length (irs_data m) = IPC_BUF_SIZE"
      "parse_message (set_ipc_total_length (i32_of_size (length out)) (irs_data m)) = Inr (InvocationResultV m')"
      "irs_invocation_id m' = iid" "irs_return_code m' = code" "irs_buffer_length m' = i32_of_size len"
    using result_message_ok [OF assms(5,6)] by metis
  from invoker_send_framed [OF assms(1,2) m(2)] assms(4) len obtain cs where
    "invoker_send (irs_data m) out st = returns (Inr (st\<lparr>rt_sent := rt_sent st @ cs\<rparr>))"
    "framed (ch_msg_size ch) (set_ipc_total_length (i32_of_size (length out)) (irs_data m)) out cs" by blast
  with m len assms(3) show ?thesis
    by (intro exI [of _ cs]) (auto simp: invoker_finish_def invoker_put_def is_result_def)
qed

section \<open>Memory of the context\<close>

text \<open>
  What a user function may do with its context, and what the invoker does around it. Every
  operation is a step when it returns.
\<close>

inductive user_step :: "runtime \<Rightarrow> runtime \<Rightarrow> bool" where
  step_get_buffer: "get_buffer sz st = (v, st') \<Longrightarrow> user_step st st'"
| step_output: "get_output_buffer sz st = (v, st') \<Longrightarrow> user_step st st'"
| step_set_output: "user_step st (set_output_buffer v st)"
| step_write_output: "write_output d pos st = Inr st' \<Longrightarrow> user_step st st'"
| step_write_view: "write_view v pos d st = Inr st' \<Longrightarrow> user_step st st'"
| step_state_put: "state_put_string key d st = returns (Inr st') \<Longrightarrow> user_step st st'"
| step_state_put_buffer: "state_put_buffer key v st = returns (Inr st') \<Longrightarrow> user_step st st'"
| step_put_bytes: "context_put_bytes dst key p n st = returns (Inr st') \<Longrightarrow> user_step st st'"
| step_put: "context_put dst key v st = returns (Inr st') \<Longrightarrow> user_step st st'"
| step_state_get: "state_get key st = returns (Inr (v, st')) \<Longrightarrow> user_step st st'"
| step_get: "context_get src key st = returns (Inr (v, st')) \<Longrightarrow> user_step st st'"
| step_invoke: "context_invoke pid fname iid v st = returns (Inr (r, st')) \<Longrightarrow> user_step st st'"
| step_state_keys: "state_keys_call (des :: bytes \<Rightarrow> string list) st = returns (Inr (ks, st')) \<Longrightarrow> user_step st st'"

inductive runtime_step :: "runtime \<Rightarrow> runtime \<Rightarrow> bool" where
  step_user: "user_step st st' \<Longrightarrow> runtime_step st st'"
| step_arrive: "runtime_step st (st\<lparr>rt_queue := rt_queue st @ cs\<rparr>)"
| step_poll: "invoker_poll st = returns (Inr (i, st')) \<Longrightarrow> runtime_step st st'"
| step_start: "runtime_step st (start_invocation iid st)"
| step_finish: "invoker_finish iid p len code st = returns (Inr st') \<Longrightarrow> runtime_step st st'"
| step_finish_error: "invoker_finish_error iid msg st = returns (Inr st') \<Longrightarrow> runtime_step st st'"
| step_end: "runtime_step st (end_invocation st)"
| step_shutdown: "runtime_step st (invoker_shutdown st)"

text \<open>
  The invariant: the output array and the user buffers own different live arrays of the size they
  say, and the channel's buffers are well-formed.
\<close>

definition chan_wf :: "ipc_channel \<Rightarrow> bool" where
  "chan_wf ch \<longleftrightarrow> list_all wf_buffer (ch_buffers ch) \<and> wf_buffer (ch_msg_payload ch)"

type_synonym arrays = "(nat option \<times> nat) list"

definition arrays :: "runtime \<Rightarrow> arrays" where
  "arrays st = map (\<lambda>ob. (ow_ptr ob, ow_size ob)) (cx_output st # cx_user_buffers st)"

definition sizes :: "runtime \<Rightarrow> nat \<Rightarrow> nat option" where
  "sizes st a = map_option length (rt_heap st a)"

definition memory_ok :: "arrays \<Rightarrow> (nat \<Rightarrow> nat option) \<Rightarrow> nat \<Rightarrow> bool" where
  "memory_ok ar sz nx \<longleftrightarrow> ar \<noteq> [] \<and> fst (hd ar) \<noteq> None \<and>
     (\<forall>(p, n) \<in> set ar. case p of None \<Rightarrow> n = 0 | Some a \<Rightarrow> sz a = Some n) \<and>
     distinct (List.map_filter fst ar) \<and> (\<forall>a. nx \<le> a \<longrightarrow> sz a = None)"

definition io_ok :: "runtime \<Rightarrow> bool" where
  "io_ok st \<longleftrightarrow> wf_buffer (rt_input st) \<and> (\<forall>ch. rt_read st = Some ch \<longrightarrow> chan_wf ch)"

definition runtime_inv :: "runtime \<Rightarrow> bool" where
  "runtime_inv st \<longleftrightarrow> memory_ok (arrays st) (sizes st) (rt_next st) \<and> io_ok st"

text \<open>The arrays behind the views of a function; the first one is the output.\<close>

definition user_arrays :: "runtime \<Rightarrow> (nat option \<times> nat) set" where
  "user_arrays st = (\<lambda>ob. (ow_ptr ob, ow_size ob)) ` set (cx_user_buffers st)"

lemma recv_loop_bound: "recv_loop cap q len acc = Inr (d, q') \<Longrightarrow> length acc \<le> cap \<Longrightarrow> length d \<le> cap"
  by (induction q arbitrary: acc) (auto split: if_splits)

lemma poked_wf:
  assumes "wf_buffer b" and "length d \<le> buf_size b - buf_len b"
  shows "wf_buffer (b\<lparr>buf_ptr := map_option (\<lambda>m. poke m (buf_len b) d) (buf_ptr b), buf_len := buf_len b + length d\<rparr>)"
  using assms by (cases "buf_ptr b") (auto simp: wf_buffer_def poke_def)

lemma retrieve_buffer_wf:
  "retrieve_buffer sz bs = (b, bs') \<Longrightarrow> list_all wf_buffer bs \<Longrightarrow> wf_buffer b \<and> list_all wf_buffer bs'"
  by (cases bs) (auto simp: allocate_buffer_def split: if_splits)

lemma receive_payload_wf:
  assumes r: "receive_payload ch q = Inr (ch', q', ok, buf)" and wf: "chan_wf ch"
  shows "chan_wf ch' \<and> wf_buffer buf"
proof (cases "sint (ipc_total_length (ch_msg ch)) > 0")
  case False
  with r wf show ?thesis by (auto simp: receive_payload_def Let_def chan_wf_def)
next
  case True
  define n where "n pl = (size_of_i32 (ipc_total_length (ch_msg ch)) + 2 ^ 64 - buf_len pl) mod 2 ^ 64" for pl :: buffer
  define filled where "filled pl d = pl\<lparr>buf_ptr := map_option (\<lambda>m. poke m (buf_len pl) d) (buf_ptr pl), buf_len := buf_len pl + length d\<rparr>"
    for pl :: buffer and d
  obtain pl bufs where pl: "(if buffer_null (ch_msg_payload ch)
      then retrieve_buffer (nat (max (sint (ipc_total_length (ch_msg ch))) (int (ch_msg_size ch)))) (ch_buffers ch)
      else (ch_msg_payload ch, ch_buffers ch)) = (pl, bufs)" by fastforce
  have b: "wf_buffer pl" "list_all wf_buffer bufs"
    using pl wf retrieve_buffer_wf by (auto simp: chan_wf_def split: if_splits)
  have "and_then (channel_recv (buf_size pl - buf_len pl) q (n pl)) (\<lambda>(d, q'). if length d = n pl
      then Inr (ch\<lparr>ch_buffers := bufs, ch_msg_read := False, ch_msg_payload := Buffer_default\<rparr>, q', True, filled pl d)
      else Inr (ch\<lparr>ch_buffers := bufs, ch_msg_payload := filled pl d\<rparr>, q', False, Buffer_default)) = Inr (ch', q', ok, buf)"
    using r True pl unfolding receive_payload_def Let_def n_def filled_def by (simp only: if_True case_prod_conv)
  then obtain d where d: "channel_recv (buf_size pl - buf_len pl) q (n pl) = Inr (d, q')"
      "(ch' = ch\<lparr>ch_buffers := bufs, ch_msg_read := False, ch_msg_payload := Buffer_default\<rparr> \<and> buf = filled pl d) \<or>
       (ch' = ch\<lparr>ch_buffers := bufs, ch_msg_payload := filled pl d\<rparr> \<and> buf = Buffer_default)"
    by (auto simp: and_then_eq_Inr split: if_splits)
  have "length d \<le> buf_size pl - buf_len pl"
    using recv_loop_bound [OF d(1) [unfolded channel_recv_def]] by simp
  then have "wf_buffer (filled pl d)" using poked_wf [OF b(1)] by (simp add: filled_def)
  with d(2) b(2) show ?thesis by (auto simp: chan_wf_def)
qed

lemma receive_wf:
  assumes "receive ch q = Inr (ch', q', ok, buf)" and "chan_wf ch"
  shows "chan_wf ch' \<and> wf_buffer buf"
proof -
  from assms(1) obtain ch1 q1 h where h: "receive_header ch q = Inr (ch1, q1, h)"
      "(if h then receive_payload ch1 q1 else Inr (ch1, q1, False, Buffer_default)) = Inr (ch', q', ok, buf)"
    by (auto simp: receive_def and_then_eq_Inr)
  have "chan_wf ch1"
    using h(1) assms(2) by (auto simp: receive_header_def and_then_eq_Inr chan_wf_def split: if_splits)
  with h(2) receive_payload_wf show ?thesis by (cases h) auto
qed

lemma blocking_receive_wf:
  assumes "blocking_receive ch b q = Some (Inr (ch', b', q', ok))" and "wf_buffer b" and "chan_wf ch"
  shows "wf_buffer b' \<and> chan_wf ch'"
proof -
  from assms(1) obtain h q1 n d where ch': "ch' = ch\<lparr>ch_msg := take IPC_BUF_SIZE h\<rparr>"
      and n: "n = size_of_i32 (ipc_total_length (ch_msg ch'))"
      and d: "blocking_recv (buf_size (if buf_size b < n then buffer_resize n b else b)) q1 n = Some (Inr (d, q'))"
      and b': "b' = (if buf_size b < n then buffer_resize n b else b)
        \<lparr>buf_ptr := map_option (\<lambda>m. poke m 0 d) (buf_ptr (if buf_size b < n then buffer_resize n b else b)), buf_len := length d\<rparr>"
    by (auto simp: blocking_receive_def Let_def split: option.splits sum.splits if_splits)
  let ?b = "(if buf_size b < n then buffer_resize n b else b)\<lparr>buf_len := 0\<rparr>"
  have wf: "wf_buffer ?b" using assms(2) by (auto simp: wf_buffer_def split: option.splits)
  have "length d \<le> buf_size ?b - buf_len ?b"
    using d recv_loop_bound [of "buf_size ?b" q1 n "[]" d q'] unfolding blocking_recv_def channel_recv_def
    by (auto split: sum.splits prod.splits if_splits)
  from poked_wf [OF wf this] b' ch' assms(3) show ?thesis by (simp add: chan_wf_def)
qed

lemma same_memory:
  "arrays st' = arrays st \<Longrightarrow> sizes st' = sizes st \<Longrightarrow> rt_next st' = rt_next st \<Longrightarrow> io_ok st' \<Longrightarrow>
     runtime_inv st \<Longrightarrow> runtime_inv st'"
  by (simp add: runtime_inv_def)

lemma map_filter_set: "set (List.map_filter f xs) = {y. \<exists>x \<in> set xs. f x = Some y}"
  by (induction xs) (auto simp: List.map_filter_simps split: option.splits)

lemma map_filter_append: "List.map_filter f (xs @ ys) = List.map_filter f xs @ List.map_filter f ys"
  by (induction xs) (simp_all add: List.map_filter_simps split: option.splits)

lemma memory_ok_fresh:
  assumes "memory_ok ar sz nx"
  shows "nx \<notin> set (List.map_filter fst ar)"
  using assms by (fastforce simp: memory_ok_def map_filter_set)

lemma memory_ok_append:
  assumes "memory_ok ar sz nx"
  shows "memory_ok (ar @ [(Some nx, n)]) (sz(nx \<mapsto> n)) (nx + 1)" and "memory_ok (ar @ [(None, 0)]) sz nx"
  using assms memory_ok_fresh [OF assms]
  by (auto simp: memory_ok_def map_filter_append List.map_filter_simps map_filter_set split: option.splits)

lemma memory_ok_output:
  assumes "memory_ok ((Some a, n) # ar) sz nx"
  shows "memory_ok ((Some nx, k) # ar) (sz(a := None, nx \<mapsto> k)) (nx + 1)"
proof -
  have fresh: "nx \<noteq> a" "nx \<notin> set (List.map_filter fst ar)" "a \<notin> set (List.map_filter fst ar)"
    using memory_ok_fresh [OF assms] assms by (auto simp: memory_ok_def List.map_filter_simps)
  then have "\<forall>(p, n) \<in> set ar. p \<noteq> Some nx \<and> p \<noteq> Some a" by (auto simp: map_filter_set)
  with assms fresh show ?thesis
    by (auto simp: memory_ok_def List.map_filter_simps split: option.splits)
qed

lemma invoker_send_Inr: "invoker_send msg d st = returns (Inr st') \<Longrightarrow> \<exists>cs. st' = st\<lparr>rt_sent := rt_sent st @ cs\<rparr>"
  by (auto simp: invoker_send_def split: option.splits)

lemma invoker_put_Inr: "invoker_put msg p len st = returns (Inr st') \<Longrightarrow> \<exists>cs. st' = st\<lparr>rt_sent := rt_sent st @ cs\<rparr>"
  by (auto simp: invoker_put_def then_call_eq_Inr dest: invoker_send_Inr)

lemma invoker_get_Inr:
  assumes "invoker_get sel st = returns (Inr (m, dat, st'))" and "io_ok st"
  shows "\<exists>ch q. st' = st\<lparr>rt_read := Some ch, rt_queue := q\<rparr> \<and> chan_wf ch \<and> wf_buffer dat"
proof -
  from assms(1) obtain ch where ch: "rt_read st = Some ch" by (auto simp: invoker_get_def split: option.splits)
  with assms(1) obtain ch1 q complete buf where r: "receive ch (rt_queue st) = Inr (ch1, q, complete, buf)"
    by (cases "receive ch (rt_queue st)") (auto simp: invoker_get_def split: error.splits)
  with assms(1) ch have "st' = st\<lparr>rt_read := Some ch1, rt_queue := q\<rparr>" "dat = buf"
    by (auto simp: invoker_get_def and_then_eq_Inr split: if_splits option.splits)
  with receive_wf [OF r] assms(2) ch show ?thesis by (auto simp: io_ok_def)
qed

text \<open>The fields that sending and receiving leave alone.\<close>

lemma memory_fields [simp]:
  "arrays (st\<lparr>rt_sent := s\<rparr>) = arrays st" "sizes (st\<lparr>rt_sent := s\<rparr>) = sizes st" "io_ok (st\<lparr>rt_sent := s\<rparr>) = io_ok st"
  "arrays (st\<lparr>rt_read := r, rt_queue := q\<rparr>) = arrays st" "sizes (st\<lparr>rt_read := r, rt_queue := q\<rparr>) = sizes st"
  "user_arrays (st\<lparr>rt_sent := s\<rparr>) = user_arrays st" "user_arrays (st\<lparr>rt_read := r, rt_queue := q\<rparr>) = user_arrays st"
  "arrays (st\<lparr>cx_output_view := v\<rparr>) = arrays st" "sizes (st\<lparr>cx_output_view := v\<rparr>) = sizes st"
  "io_ok (st\<lparr>cx_output_view := v\<rparr>) = io_ok st" "user_arrays (st\<lparr>cx_output_view := v\<rparr>) = user_arrays st"
  "sizes (st\<lparr>cx_user_buffers := obs\<rparr>) = sizes st" "io_ok (st\<lparr>cx_user_buffers := obs\<rparr>) = io_ok st"
  by (simp_all add: arrays_def sizes_def io_ok_def user_arrays_def fun_eq_iff)

definition keeps :: "runtime \<Rightarrow> runtime \<Rightarrow> bool" where
  "keeps st st' \<longleftrightarrow> runtime_inv st' \<and> user_arrays st \<subseteq> user_arrays st'"

lemma keeps_trans: "keeps st st1 \<Longrightarrow> keeps st1 st' \<Longrightarrow> keeps st st'"
  by (auto simp: keeps_def)

lemma keeps_send: "runtime_inv st \<Longrightarrow> invoker_send msg d st = returns (Inr st') \<Longrightarrow> keeps st st'"
  by (auto simp: keeps_def runtime_inv_def dest!: invoker_send_Inr)

lemma keeps_put: "runtime_inv st \<Longrightarrow> invoker_put msg p len st = returns (Inr st') \<Longrightarrow> keeps st st'"
  by (auto simp: keeps_def runtime_inv_def dest!: invoker_put_Inr)

lemma keeps_get:
  "runtime_inv st \<Longrightarrow> invoker_get sel st = returns (Inr (m, dat, st')) \<Longrightarrow> keeps st st' \<and> wf_buffer dat"
  using invoker_get_Inr [of sel st m dat st'] by (auto simp: keeps_def runtime_inv_def io_ok_def)

lemma keeps_new_user:
  assumes "runtime_inv st" and "new_array d st = (a, st1)" and "add_user_buffer \<lparr>ow_ptr = Some a, ow_size = length d, ow_len = k\<rparr> st1 = (v, st')"
  shows "keeps st st'"
proof -
  have st': "arrays st' = arrays st @ [(Some (rt_next st), length d)]" "sizes st' = (sizes st)(rt_next st \<mapsto> length d)"
      "rt_next st' = rt_next st + 1" "io_ok st' = io_ok st" "user_arrays st \<subseteq> user_arrays st'"
    using assms(2,3) by (auto simp: new_array_def add_user_buffer_def arrays_def sizes_def io_ok_def user_arrays_def fun_eq_iff)
  with assms(1) memory_ok_append(1) show ?thesis by (simp add: keeps_def runtime_inv_def)
qed

lemma keeps_adopt:
  assumes "runtime_inv st" and "adopt dat st = (ob, st1)" and "wf_buffer dat" and "add_user_buffer ob st1 = (v, st')"
  shows "keeps st st'"
proof (cases "buf_ptr dat")
  case None
  have dat: "buf_size dat = 0" "buf_len dat = 0" using assms(3) None by (simp_all add: wf_buffer_def)
  have st': "st' = st\<lparr>cx_user_buffers := cx_user_buffers st @ [\<lparr>ow_ptr = None, ow_size = 0, ow_len = 0\<rparr>]\<rparr>"
    using assms(2,4) None dat by (simp add: adopt_def add_user_buffer_def)
  then have "arrays st' = arrays st @ [(None, 0)]" "user_arrays st \<subseteq> user_arrays st'"
    by (auto simp: arrays_def user_arrays_def)
  with st'  assms(1) memory_ok_append(2) show ?thesis by (simp add: keeps_def runtime_inv_def)
next
  case (Some m)
  with assms(2,3) obtain a where "new_array m st = (a, st1)" "ob = \<lparr>ow_ptr = Some a, ow_size = length m, ow_len = buf_len dat\<rparr>"
    by (auto simp: adopt_def wf_buffer_def split: prod.splits)
  with keeps_new_user assms(1,4) show ?thesis by blast
qed

lemma keeps_write_heap:
  assumes "runtime_inv st" and "rt_heap st a = Some m" and "length m' = length m"
  shows "keeps st (st\<lparr>rt_heap := (rt_heap st)(a \<mapsto> m')\<rparr>)"
proof -
  have "sizes (st\<lparr>rt_heap := (rt_heap st)(a \<mapsto> m')\<rparr>) = sizes st" using assms(2,3) by (auto simp: sizes_def fun_eq_iff)
  with assms(1) show ?thesis by (simp add: keeps_def runtime_inv_def arrays_def io_ok_def user_arrays_def)
qed

lemma find_user_buffer_shape:
  "find_user_buffer v obs = Some (ob, obs') \<Longrightarrow>
     map (\<lambda>ob. (ow_ptr ob, ow_size ob)) obs' = map (\<lambda>ob. (ow_ptr ob, ow_size ob)) obs"
  by (induction obs arbitrary: obs') (auto simp: Let_def split: if_splits)

lemma keeps_relabel:
  assumes "runtime_inv st" and "map (\<lambda>ob. (ow_ptr ob, ow_size ob)) obs = map (\<lambda>ob. (ow_ptr ob, ow_size ob)) (cx_user_buffers st)"
  shows "keeps st (st\<lparr>cx_user_buffers := obs\<rparr>)"
proof -
  have "arrays (st\<lparr>cx_user_buffers := obs\<rparr>) = arrays st" "user_arrays (st\<lparr>cx_user_buffers := obs\<rparr>) = user_arrays st"
    using assms(2) by (simp_all add: arrays_def user_arrays_def flip: set_map)
  with assms(1) show ?thesis by (simp add: keeps_def runtime_inv_def)
qed

lemma keeps_refl: "runtime_inv st \<Longrightarrow> keeps st st"
  by (simp add: keeps_def)

lemma keeps_inv: "keeps st st' \<Longrightarrow> runtime_inv st'"
  by (simp add: keeps_def)

lemma keeps_view: "runtime_inv st \<Longrightarrow> keeps st (st\<lparr>cx_output_view := v\<rparr>)"
  by (simp add: keeps_def runtime_inv_def)

lemma keeps_put_user:
  assumes "runtime_inv st" and "put_user_buffer msg v st = returns (Inr st')"
  shows "keeps st st'"
proof -
  from assms(2) obtain ob obs where f: "find_user_buffer v (cx_user_buffers st) = Some (ob, obs)"
      "invoker_put msg (owned_ptr ob) (ow_len ob) (st\<lparr>cx_user_buffers := obs\<rparr>) = returns (Inr st')"
    by (auto simp: put_user_buffer_def split: option.splits)
  from keeps_relabel [OF assms(1) find_user_buffer_shape [OF f(1)]] keeps_put [OF _ f(2)] show ?thesis
    using keeps_trans keeps_inv by blast
qed

lemma keeps_put_matching:
  assumes "runtime_inv st" and "put_matching msg v n found st = returns (Inr (found', st'))" and "n \<le> length (cx_user_buffers st)"
  shows "keeps st st'"
  using assms
proof (induction n arbitrary: found st)
  case (Suc n)
  let ?i = "length (cx_user_buffers st) - Suc n" and ?ob = "cx_user_buffers st ! (length (cx_user_buffers st) - Suc n)"
  show ?case
  proof (cases "owned_ptr ?ob = vw_ptr v")
    case False
    with Suc show ?thesis by (simp add: Let_def)
  next
    case True
    let ?st = "st\<lparr>cx_user_buffers := (cx_user_buffers st)[?i := ?ob\<lparr>ow_len := vw_len v\<rparr>]\<rparr>"
    from True Suc.prems(2) obtain st1 where st1: "invoker_put msg (owned_ptr ?ob) (vw_len v) ?st = returns (Inr st1)"
        "put_matching msg v n True st1 = returns (Inr (found', st'))"
      by (auto simp: Let_def then_call_eq_Inr)
    have "map (\<lambda>ob. (ow_ptr ob, ow_size ob)) ((cx_user_buffers st)[?i := ?ob\<lparr>ow_len := vw_len v\<rparr>]) =
        map (\<lambda>ob. (ow_ptr ob, ow_size ob)) (cx_user_buffers st)"
      by (intro nth_equalityI) (auto simp: nth_list_update)
    from keeps_relabel [OF Suc.prems(1) this] keeps_put [OF _ st1(1)] have "keeps st st1"
      using keeps_trans keeps_inv by blast
    moreover have "length (cx_user_buffers st1) = length (cx_user_buffers st)"
      using invoker_put_Inr [OF st1(1)] by auto
    ultimately have "keeps st1 st'" using Suc.IH [OF _ st1(2)] Suc.prems(3) keeps_inv by simp
    with \<open>keeps st st1\<close> show ?thesis by (rule keeps_trans)
  qed
qed (auto simp: keeps_refl)

lemma keeps_request:
  assumes "runtime_inv st" and "invoker_request msg st = returns (Inr (m, dat, st'))"
  shows "keeps st st' \<and> wf_buffer dat"
proof -
  from assms(2) obtain st1 where st1: "invoker_put msg None 0 st = returns (Inr st1)" "invoker_get as_get_request st1 = returns (Inr (m, dat, st'))"
    by (auto simp: invoker_request_def then_call_eq_Inr)
  from keeps_put [OF assms(1) st1(1)] keeps_get [OF _ st1(2)] show ?thesis using keeps_trans keeps_inv by blast
qed

lemma keeps_output:
  assumes "runtime_inv st" and "get_output_buffer sz st = (v, st')"
  shows "keeps st st'"
proof (cases "sz \<noteq> 0 \<and> sz > ow_size (cx_output st)")
  case False
  with assms show ?thesis by (auto simp: get_output_buffer_def keeps_refl)
next
  case True
  obtain a where a: "ow_ptr (cx_output st) = Some a" using assms(1) by (auto simp: runtime_inv_def memory_ok_def arrays_def)
  let ?ar = "map (\<lambda>ob. (ow_ptr ob, ow_size ob)) (cx_user_buffers st)"
  from True a assms(2) have st': "arrays st' = (Some (rt_next st), sz) # ?ar" "sizes st' = (sizes st)(a := None, rt_next st \<mapsto> sz)"
      "rt_next st' = rt_next st + 1" "io_ok st' = io_ok st" "user_arrays st' = user_arrays st"
    by (auto simp: get_output_buffer_def new_array_def free_array_def Let_def arrays_def sizes_def io_ok_def user_arrays_def fun_eq_iff)
  have "memory_ok ((Some a, ow_size (cx_output st)) # ?ar) (sizes st) (rt_next st)"
    using assms(1) a by (simp add: runtime_inv_def arrays_def)
  from memory_ok_output [OF this] st' assms(1) show ?thesis by (simp add: keeps_def runtime_inv_def)
qed

lemma keeps_write_output:
  assumes "runtime_inv st" and "write_output d pos st = Inr st'"
  shows "keeps st st'"
proof -
  from assms(2) obtain a m l where w: "rt_heap st a = Some m" "pos + length d \<le> length m"
      "st' = (st\<lparr>rt_heap := (rt_heap st)(a \<mapsto> poke m pos d)\<rparr>)\<lparr>cx_output_view := (cx_output_view st)\<lparr>vw_len := l\<rparr>\<rparr>"
    by (auto simp: write_output_def bind_eq_Some_conv split: option.splits if_splits)
  then have "keeps st (st\<lparr>rt_heap := (rt_heap st)(a \<mapsto> poke m pos d)\<rparr>)"
    using assms(1) by (intro keeps_write_heap) (auto simp: poke_def)
  with w(3) show ?thesis using keeps_view keeps_trans keeps_inv by blast
qed

lemma keeps_write_view:
  assumes "runtime_inv st" and "write_view v pos d st = Inr st'"
  shows "keeps st st'"
proof -
  from assms(2) obtain a m off where "rt_heap st a = Some m" "off + pos + length d \<le> length m"
      "st' = st\<lparr>rt_heap := (rt_heap st)(a \<mapsto> poke m (off + pos) d)\<rparr>"
    by (auto simp: write_view_def not_less split: option.splits prod.splits block.splits if_splits intro: that)
  then show ?thesis using assms(1) by (auto intro!: keeps_write_heap simp: poke_def)
qed

lemma user_step_keeps: "user_step st st' \<Longrightarrow> runtime_inv st \<Longrightarrow> keeps st st'"
proof (induction rule: user_step.induct)
  case (step_get_buffer sz st v st')
  then show ?case
    using keeps_new_user [of st "replicate sz NUL" "rt_next st" _ 0 v st'] by (simp add: get_buffer_def new_array_def)
next
  case (step_state_get key st v st')
  then obtain req :: generic_request and m dat st1 where r: "invoker_request (gr_data req) st = returns (Inr (m, dat, st1))"
      "(if buf_len dat \<noteq> 0 then (let (ob, st2) = adopt dat st1 in returns (Inr (add_user_buffer ob st2)))
        else returns (Inr (view_null, st1))) = returns (Inr (v, st'))"
    by (auto simp: state_get_def then_call_eq_Inr split: if_splits)
  have st1: "keeps st st1" "wf_buffer dat" using keeps_request [OF step_state_get(2) r(1)] by simp_all
  show ?case
  proof (cases "buf_len dat = 0")
    case False
    with r(2) obtain ob st2 where "adopt dat st1 = (ob, st2)" "add_user_buffer ob st2 = (v, st')" by (auto split: prod.splits)
    with keeps_adopt [OF keeps_inv [OF st1(1)] _ st1(2)] st1(1) show ?thesis using keeps_trans by blast
  qed (use r(2) st1 in simp)
next
  case (step_get src key st v st')
  then obtain req :: generic_request and m dat st1 ob st2 where r: "invoker_request (gr_data req) st = returns (Inr (m, dat, st1))"
      "adopt dat st1 = (ob, st2)" "add_user_buffer ob st2 = (v, st')"
    by (auto simp: context_get_def then_call_eq_Inr split: if_splits prod.splits)
  from keeps_request [OF step_get(2) r(1)] keeps_adopt [OF _ r(2) _ r(3)] show ?case
    using keeps_trans keeps_inv by blast
next
  case (step_invoke pid fname iid v st r st')
  then obtain req :: ipc_invocation_request and found st1 m dat st2 ob st3 w where
    i: "put_matching (irq_data req) v (length (cx_user_buffers st)) False st = returns (Inr (found, st1))"
      "invoker_get as_invocation_result st1 = returns (Inr (m, dat, st2))" "adopt dat st2 = (ob, st3)" "add_user_buffer ob st3 = (w, st')"
    by (auto simp: context_invoke_def then_call_eq_Inr split: if_splits prod.splits)
  from keeps_put_matching [OF step_invoke(2) i(1)] keeps_get [OF _ i(2)] keeps_adopt [OF _ i(3) _ i(4)] show ?case
    using keeps_trans keeps_inv by blast
next
  case (step_state_keys des st ks st')
  then obtain st1 m dat where k: "invoker_put (sk_data StateKeysRequest) None 0 st = returns (Inr st1)"
      "invoker_get as_state_keys_result st1 = returns (Inr (m, dat, st'))"
    by (auto simp: state_keys_call_def then_call_eq_Inr)
  from keeps_put [OF step_state_keys(2) k(1)] keeps_get [OF _ k(2)] show ?case using keeps_trans keeps_inv by blast
qed (auto simp: set_output_buffer_def state_put_string_def state_put_buffer_def context_put_bytes_def context_put_def then_call_eq_Inr
     intro: keeps_output keeps_view keeps_write_output keeps_write_view keeps_send keeps_put_user keeps_put)

lemma poll_round_inv:
  assumes "poll_round st = Some (Inr (i, st'))" and "runtime_inv st"
  shows "runtime_inv st' \<and> arrays st' = arrays st \<and> rt_heap st' = rt_heap st"
proof -
  from assms obtain ch ch1 inp q ok where r: "blocking_receive ch (rt_input st) (rt_queue st) = Some (Inr (ch1, inp, q, ok))"
      "rt_read st = Some ch"
    by (auto simp: poll_round_def then_call_def split: option.splits sum.splits)
  with assms obtain v where "parse_message (ch_msg ch1) = Inr v"
    by (auto simp: poll_round_def then_call_def Let_def and_then_eq_Inr split: if_splits)
  with assms r have st': "rt_read st' = Some ch1" "rt_input st' = inp" "rt_heap st' = rt_heap st" "rt_next st' = rt_next st"
      "cx_output st' = cx_output st" "cx_user_buffers st' = cx_user_buffers st"
    by (cases v; auto simp: poll_round_def then_call_def Let_def and_then_eq_Inr split: if_splits)+
  have "wf_buffer inp \<and> chan_wf ch1"
    using blocking_receive_wf [OF r(1)] assms(2) r(2) by (auto simp: runtime_inv_def io_ok_def)
  then have "io_ok st'" using st' by (simp add: io_ok_def)
  moreover have "arrays st' = arrays st" "sizes st' = sizes st" "rt_next st' = rt_next st" "rt_heap st' = rt_heap st"
    using st' by (simp_all add: arrays_def sizes_def fun_eq_iff)
  ultimately show ?thesis using same_memory assms(2) by blast
qed

lemma poll_inv:
  "invoker_poll st = Some (Inr (i, st')) \<Longrightarrow> runtime_inv st \<Longrightarrow> runtime_inv st' \<and> arrays st' = arrays st \<and> rt_heap st' = rt_heap st"
proof (induction st rule: invoker_poll.induct)
  case (1 st)
  show ?case
  proof (cases "rt_ending st")
    case True
    with 1 show ?thesis by (simp add: invoker_poll.simps)
  next
    case False
    with 1(2) have p: "(case poll_round st of None \<Rightarrow> None
        | Some (Inl e) \<Rightarrow> if is_praas_exception e then returns (Inr (None, st)) else returns (Inl e)
        | Some (Inr (Some j, st1)) \<Rightarrow> returns (Inr (Some j, st1)) | Some (Inr (None, st1)) \<Rightarrow> invoker_poll st1) = Some (Inr (i, st'))"
      by (subst (asm) invoker_poll.simps) simp
    show ?thesis
    proof (cases "poll_round st")
      case (Some r)
      show ?thesis
      proof (cases r)
        case (Inr x)
        obtain j st1 where x: "x = (j, st1)" by (cases x)
        from poll_round_inv [OF _ 1(3)] Some Inr x have st1: "runtime_inv st1 \<and> arrays st1 = arrays st \<and> rt_heap st1 = rt_heap st" by blast
        show ?thesis
        proof (cases j)
          case None
          with p Some Inr x have "invoker_poll st1 = Some (Inr (i, st'))" by simp
          with 1(1) [OF False Some Inr x [symmetric] None] st1 show ?thesis by simp
        qed (use p Some Inr x st1 in simp)
      qed (use p Some 1(3) in \<open>auto split: if_splits\<close>)
    qed (use p in simp)
  qed
qed

lemma fold_free:
  fixes obs :: "owned list"
  shows "fold (\<lambda>ob. free_array (ow_ptr ob)) obs st = st\<lparr>rt_heap := (\<lambda>a. if Some a \<in> ow_ptr ` set obs then None else rt_heap st a)\<rparr>"
proof (induction obs arbitrary: st)
  case (Cons ob obs)
  then show ?case by (cases "ow_ptr ob") (auto simp: free_array_def fun_eq_iff intro!: arg_cong [of _ _ "\<lambda>h. st\<lparr>rt_heap := h\<rparr>"])
qed simp

lemma end_invocation_eq:
  "end_invocation st = st\<lparr>rt_heap := (\<lambda>a. if Some a \<in> ow_ptr ` set (cx_user_buffers st) then None else rt_heap st a),
     cx_user_buffers := []\<rparr>"
  by (simp add: end_invocation_def fold_free)

lemma end_invocation_inv:
  assumes "runtime_inv st"
  shows "runtime_inv (end_invocation st) \<and> cx_user_buffers (end_invocation st) = []"
proof -
  obtain a where a: "ow_ptr (cx_output st) = Some a" using assms by (auto simp: runtime_inv_def memory_ok_def arrays_def)
  have "Some a \<notin> ow_ptr ` set (cx_user_buffers st)"
    using assms a by (fastforce simp: runtime_inv_def memory_ok_def arrays_def List.map_filter_simps map_filter_set)
  with assms a show ?thesis
    by (auto simp: end_invocation_eq runtime_inv_def memory_ok_def arrays_def sizes_def io_ok_def List.map_filter_simps)
qed

definition runtime_initial :: "runtime \<Rightarrow> bool" where
  "runtime_initial st \<longleftrightarrow> (\<exists>pid mode name k st0 k'. Invoker pid mode name k = Inr (st0, k') \<and> st = create_context st0)"

lemma POSIXMQChannel_wf: "POSIXMQChannel name send create sz k = Inr (ch, k') \<Longrightarrow> chan_wf ch"
  by (auto simp: POSIXMQChannel_def Let_def chan_wf_def BufferQueue_def list_all_iff split: if_splits option.splits)

lemma runtime_initial_inv: "runtime_initial st \<Longrightarrow> runtime_inv st"
  by (auto simp: runtime_initial_def Invoker_def and_then_eq_Inr create_context_def new_array_def Let_def runtime_inv_def
      memory_ok_def arrays_def sizes_def io_ok_def List.map_filter_simps dest: POSIXMQChannel_wf split: if_splits)

lemma untouched_memory:
  assumes "runtime_inv st" and "rt_heap st' = rt_heap st" and "rt_next st' = rt_next st" and "arrays st' = arrays st"
    and "rt_input st' = rt_input st" and "rt_read st' = rt_read st \<or> rt_read st' = None"
  shows "runtime_inv st'"
proof -
  have "sizes st' = sizes st" using assms(2) by (simp add: sizes_def fun_eq_iff)
  with assms show ?thesis by (auto simp: runtime_inv_def io_ok_def)
qed

lemma runtime_step_inv: "runtime_step st st' \<Longrightarrow> runtime_inv st \<Longrightarrow> runtime_inv st'"
proof (induction rule: runtime_step.induct)
  case (step_user st st')
  then show ?case using user_step_keeps keeps_inv by blast
next
  case (step_arrive st cs)
  from step_arrive show ?case by (rule untouched_memory) (simp_all add: arrays_def)
next
  case (step_poll st i st')
  then show ?case using poll_inv by blast
next
  case (step_start st iid)
  from step_start show ?case by (rule untouched_memory) (simp_all add: start_invocation_def arrays_def)
next
  case (step_finish iid p len code st st')
  then show ?case by (auto simp: invoker_finish_def then_call_eq_Inr intro: keeps_inv [OF keeps_put])
next
  case (step_finish_error iid msg st st')
  then show ?case by (auto simp: invoker_finish_error_def then_call_eq_Inr intro: keeps_inv [OF keeps_send])
next
  case (step_end st)
  then show ?case using end_invocation_inv by blast
next
  case (step_shutdown st)
  from step_shutdown show ?case by (rule untouched_memory) (simp_all add: invoker_shutdown_def arrays_def)
qed

interpretation invoker_run: invariant_machine runtime_initial runtime_step runtime_inv
  by unfold_locales (auto intro: runtime_initial_inv runtime_step_inv)

lemma owned_readable:
  assumes "runtime_inv st" and "ob \<in> set (cx_user_buffers st)" and "n \<le> ow_size ob"
  shows "\<exists>d. read_bytes (owned_ptr ob) n st = Inr d \<and> length d = n"
proof -
  have "case ow_ptr ob of None \<Rightarrow> ow_size ob = 0 | Some a \<Rightarrow> sizes st a = Some (ow_size ob)"
    using assms(1,2) by (fastforce simp: runtime_inv_def memory_ok_def arrays_def)
  with assms(3) show ?thesis
    by (cases "ow_ptr ob") (auto simp: read_bytes_def owned_ptr_def block_content_def sizes_def peek_def)
qed

text \<open>What a function cannot change: the identifier of its invocation and the channel it answers on.\<close>

lemma then_call_cases:
  assumes "then_call r f = returns (Inr b)"
  obtains a where "r = returns (Inr a)" "f a = returns (Inr b)"
  using assms by (auto simp: then_call_eq_Inr)

definition frame_kept :: "runtime \<Rightarrow> runtime \<Rightarrow> bool" where
  "frame_kept st st' \<longleftrightarrow> cx_invoc_id st' = cx_invoc_id st \<and> rt_write st' = rt_write st \<and> rt_ending st' = rt_ending st \<and>
     rt_app_status st' = rt_app_status st \<and> (\<exists>cs. rt_sent st' = rt_sent st @ cs)"

lemma frame_refl: "frame_kept st st"
  by (simp add: frame_kept_def)

lemma frame_trans: "frame_kept st st1 \<Longrightarrow> frame_kept st1 st' \<Longrightarrow> frame_kept st st'"
  by (auto simp: frame_kept_def)

lemma frame_put: "invoker_put msg p len st = returns (Inr st') \<Longrightarrow> frame_kept st st'"
  by (auto simp: frame_kept_def dest: invoker_put_Inr)

lemma frame_send: "invoker_send msg d st = returns (Inr st') \<Longrightarrow> frame_kept st st'"
  by (auto simp: frame_kept_def dest: invoker_send_Inr)

lemma frame_get: "invoker_get sel st = returns (Inr (m, dat, st')) \<Longrightarrow> frame_kept st st'"
  by (cases "rt_read st"; cases "receive (the (rt_read st)) (rt_queue st)")
     (auto simp: invoker_get_def frame_kept_def and_then_eq_Inr split: error.splits if_splits option.splits)

lemma frame_request: "invoker_request msg st = returns (Inr (m, dat, st')) \<Longrightarrow> frame_kept st st'"
  by (auto simp: invoker_request_def then_call_eq_Inr dest!: frame_put frame_get intro: frame_trans)

lemma frame_adopt: "adopt dat st = (ob, st1) \<Longrightarrow> add_user_buffer ob st1 = (v, st') \<Longrightarrow> frame_kept st st'"
  by (auto simp: adopt_def add_user_buffer_def new_array_def frame_kept_def Let_def split: option.splits)

lemma frame_put_user: "put_user_buffer msg v st = returns (Inr st') \<Longrightarrow> frame_kept st st'"
  by (auto simp: put_user_buffer_def frame_kept_def split: option.splits dest!: invoker_put_Inr)

lemma frame_put_matching: "put_matching msg v n found st = returns (Inr (found', st')) \<Longrightarrow> frame_kept st st'"
proof (induction n arbitrary: found st)
  case (Suc n)
  let ?ob = "cx_user_buffers st ! (length (cx_user_buffers st) - Suc n)"
  show ?case
  proof (cases "owned_ptr ?ob = vw_ptr v")
    case False
    with Suc show ?thesis by (simp add: Let_def)
  next
    case True
    let ?st = "st\<lparr>cx_user_buffers := (cx_user_buffers st)[length (cx_user_buffers st) - Suc n := ?ob\<lparr>ow_len := vw_len v\<rparr>]\<rparr>"
    from True Suc.prems obtain st1 where st1: "invoker_put msg (owned_ptr ?ob) (vw_len v) ?st = returns (Inr st1)"
        "put_matching msg v n True st1 = returns (Inr (found', st'))"
      by (auto simp: Let_def then_call_eq_Inr)
    have "frame_kept st ?st" by (simp add: frame_kept_def)
    with frame_put [OF st1(1)] Suc.IH [OF st1(2)] show ?thesis using frame_trans by blast
  qed
qed (simp add: frame_refl)

lemma user_step_frame: "user_step st st' \<Longrightarrow> frame_kept st st'"
proof (induction rule: user_step.induct)
  case (step_get_buffer sz st v st')
  then show ?case by (auto simp: get_buffer_def new_array_def add_user_buffer_def frame_kept_def)
next
  case (step_output sz st v st')
  then show ?case
    by (cases "ow_ptr (cx_output st)")
       (auto simp: get_output_buffer_def new_array_def free_array_def Let_def frame_kept_def split: if_splits)
next
  case (step_write_output d pos st st')
  then show ?case by (auto simp: write_output_def frame_kept_def split: option.splits if_splits)
next
  case (step_write_view v pos d st st')
  then show ?case by (auto simp: write_view_def frame_kept_def split: option.splits prod.splits block.splits if_splits)
next
  case (step_state_get key st v st')
  then obtain req :: generic_request and m dat st1 where r: "invoker_request (gr_data req) st = returns (Inr (m, dat, st1))"
      "(if buf_len dat \<noteq> 0 then (let (ob, st2) = adopt dat st1 in returns (Inr (add_user_buffer ob st2)))
        else returns (Inr (view_null, st1))) = returns (Inr (v, st'))"
    by (auto simp: state_get_def then_call_eq_Inr split: if_splits)
  then have "frame_kept st1 st'" by (auto simp: frame_refl split: if_splits prod.splits intro: frame_adopt)
  with frame_request [OF r(1)] show ?case by (rule frame_trans)
next
  case (step_get src key st v st')
  then obtain req :: generic_request and m dat st1 ob st2 where r: "invoker_request (gr_data req) st = returns (Inr (m, dat, st1))"
      "adopt dat st1 = (ob, st2)" "add_user_buffer ob st2 = (v, st')"
    by (auto simp: context_get_def then_call_eq_Inr split: if_splits prod.splits)
  from frame_request [OF r(1)] frame_adopt [OF r(2,3)] show ?case by (rule frame_trans)
next
  case (step_invoke pid fname iid v st r st')
  then obtain req :: ipc_invocation_request and found st1 m dat st2 ob st3 w where
    i: "put_matching (irq_data req) v (length (cx_user_buffers st)) False st = returns (Inr (found, st1))"
      "invoker_get as_invocation_result st1 = returns (Inr (m, dat, st2))" "adopt dat st2 = (ob, st3)" "add_user_buffer ob st3 = (w, st')"
    by (auto simp: context_invoke_def then_call_eq_Inr split: if_splits prod.splits)
  from frame_put_matching [OF i(1)] frame_get [OF i(2)] frame_adopt [OF i(3,4)] show ?case using frame_trans by blast
next
  case (step_state_keys des st ks st')
  then show ?case by (auto simp: state_keys_call_def then_call_eq_Inr dest!: frame_put frame_get intro: frame_trans)
qed (auto simp: set_output_buffer_def state_put_string_def state_put_buffer_def context_put_bytes_def context_put_def then_call_eq_Inr
     frame_kept_def [of _ "_\<lparr>cx_output_view := _\<rparr>"] intro: frame_send frame_put_user frame_put)

lemma user_steps_frame: "user_step\<^sup>*\<^sup>* st st' \<Longrightarrow> frame_kept st st'"
  by (induction rule: rtranclp_induct) (auto intro: frame_refl frame_trans user_step_frame)

lemma user_steps_inv: "user_step\<^sup>*\<^sup>* st st' \<Longrightarrow> runtime_inv st \<Longrightarrow> runtime_inv st'"
  by (induction rule: rtranclp_induct) (auto dest: user_step_keeps keeps_inv)

section \<open>Properties\<close>


text \<open>An invoker on queues that the controller has created.\<close>

definition example_queues :: mq_table where
  "example_queues = [''/w_write'' \<mapsto> (1024, []), ''/w_read'' \<mapsto> (1024, [])]"

definition example_invoker :: runtime where
  "example_invoker = (case Invoker ''p'' POSIX_MQ ''/w'' example_queues of Inr (st, k) \<Rightarrow> create_context st)"

lemma example_invoker_fields:
  "\<exists>st k ch1 ch2. Invoker ''p'' POSIX_MQ ''/w'' example_queues = Inr (st, k) \<and> example_invoker = create_context st \<and>
     rt_read st = Some ch1 \<and> rt_write st = Some ch2 \<and> ch_msg_size ch1 = 1024 \<and> ch_msg_size ch2 = 1024 \<and>
     rt_input st = Buffer_default \<and> \<not> rt_ending st \<and> rt_queue st = [] \<and> rt_sent st = []"
  by (simp add: example_invoker_def Invoker_def POSIXMQChannel_def Let_def example_queues_def)

lemma example_invoker_channels:
  "\<exists>ch1 ch2. rt_read example_invoker = Some ch1 \<and> rt_write example_invoker = Some ch2 \<and> ch_msg_size ch1 = 1024 \<and>
     ch_msg_size ch2 = 1024 \<and> \<not> rt_ending example_invoker \<and> rt_queue example_invoker = [] \<and> rt_sent example_invoker = [] \<and>
     ow_size (cx_output example_invoker) = CONTEXT_BUFFER_SIZE"
proof -
  obtain st ch1 ch2 where st: "example_invoker = create_context st" "rt_read st = Some ch1" "rt_write st = Some ch2"
      "ch_msg_size ch1 = 1024" "ch_msg_size ch2 = 1024" "\<not> rt_ending st" "rt_queue st = []" "rt_sent st = []"
    using example_invoker_fields by blast
  show ?thesis unfolding st(1) using st(2-) by (simp add: create_context_def new_array_def Let_def)
qed

lemma example_invoker_reachable: "reachable runtime_initial runtime_step example_invoker"
proof -
  have "runtime_initial example_invoker" unfolding runtime_initial_def using example_invoker_fields by blast
  then show ?thesis by (rule reachable_start)
qed


text \<open>
  What is asked of a user function: on the payloads \<open>ds\<close> of an invocation it returns \<open>code\<close> and has
  the output \<open>out\<close>, and what it sends meanwhile satisfies \<open>P\<close>.
\<close>

definition computes :: "bytes list \<Rightarrow> int32 \<Rightarrow> bytes \<Rightarrow> (bytes list \<Rightarrow> bool) \<Rightarrow> user_function \<Rightarrow> bool" where
  "computes ds code out P fn \<longleftrightarrow>
     (\<forall>i st1. runtime_inv st1 \<longrightarrow> cx_invoc_id st1 = ri_key i \<longrightarrow> vw_len (cx_output_view st1) = 0 \<longrightarrow>
        list_all2 (\<lambda>v d. view_data v st1 = Inr d) (ri_args i) ds \<longrightarrow>
        (\<exists>st2 own. fn i st1 = returns (Inr (code, st2)) \<and> user_step\<^sup>*\<^sup>* st1 st2 \<and> rt_sent st2 = rt_sent st1 @ own \<and> P own \<and>
          read_bytes (fst (as_buffer st2)) (snd (as_buffer st2)) st2 = Inr out \<and> snd (as_buffer st2) < 2 ^ 31))"

lemma round_polled:
  assumes st: "reachable runtime_initial runtime_step st" "\<not> rt_ending st" "rt_read st = Some ch" "IPC_BUF_SIZE \<le> ch_msg_size ch"
    and queue: "rt_queue st = concat css @ cs @ R" "list_all2 (is_update (ch_msg_size ch)) us css" "is_invocation (ch_msg_size ch) f key bs cs"
  shows "\<exists>i ch2 inp2 st2. invoker_poll st = returns (Inr (Some i, st2)) \<and> ri_key i = key \<and> ri_function_name i = f \<and>
           st2 = st\<lparr>rt_read := Some ch2, rt_input := inp2, rt_queue := R, rt_app_status := apply_updates us (rt_app_status st)\<rparr> \<and>
           ch_msg_size ch2 = ch_msg_size ch \<and> runtime_inv (start_invocation key st2) \<and>
           list_all2 (\<lambda>v d. view_data v (start_invocation key st2) = Inr d) (ri_args i) (map buffer_data bs)"
proof -
  have inv: "runtime_inv st" using st(1) by (rule invoker_run.reachable_good)
  then have wf: "wf_buffer (rt_input st)" by (simp add: runtime_inv_def io_ok_def)
  from poll_updates [OF st(3,4) wf st(2) queue(2,1)] obtain ch1 inp1 where
    u: "wf_buffer inp1" "ch_msg_size ch1 = ch_msg_size ch"
      "invoker_poll st = invoker_poll (st\<lparr>rt_read := Some ch1, rt_input := inp1, rt_queue := cs @ R, rt_app_status := apply_updates us (rt_app_status st)\<rparr>)"
    by blast
  let ?st1 = "st\<lparr>rt_read := Some ch1, rt_input := inp1, rt_queue := cs @ R, rt_app_status := apply_updates us (rt_app_status st)\<rparr>"
  from poll_invocation [of ?st1 ch1 f key bs cs R] u(1,2) st(2,4) queue(3) obtain i ch2 inp2 where
    p: "invoker_poll ?st1 = returns (Inr (Some i, ?st1\<lparr>rt_read := Some ch2, rt_input := inp2, rt_queue := R\<rparr>))"
      "ri_key i = key" "ri_function_name i = f" "ch_msg_size ch2 = ch_msg_size ch"
      "list_all2 (\<lambda>v b. \<forall>st. rt_input st = inp2 \<longrightarrow> view_data v st = Inr (buffer_data b)) (ri_args i) bs"
    by auto
  define st2 where "st2 = st\<lparr>rt_read := Some ch2, rt_input := inp2, rt_queue := R, rt_app_status := apply_updates us (rt_app_status st)\<rparr>"
  have polled: "invoker_poll st = returns (Inr (Some i, st2))" using u(3) p(1) by (simp add: st2_def)
  have "runtime_inv (start_invocation key st2)"
    using poll_inv [OF polled inv] runtime_step_inv [OF step_start] by blast
  moreover have "list_all2 (\<lambda>v d. view_data v (start_invocation key st2) = Inr d) (ri_args i) (map buffer_data bs)"
    using p(5) by (auto simp: list_all2_map2 st2_def start_invocation_def elim: list_all2_mono)
  ultimately show ?thesis using polled p(2-4) st2_def by blast
qed

lemma round_answered:
  assumes polled: "invoker_poll st = returns (Inr (Some i, st2))" "\<not> rt_ending st2" "rt_write st2 = Some chw" "IPC_BUF_SIZE \<le> ch_msg_size chw"
    and fn: "library_get_function (ri_function_name i) l = Some fn" "fn i (start_invocation (ri_key i) st2) = returns (Inr (code, st3))"
      "user_step\<^sup>*\<^sup>* (start_invocation (ri_key i) st2) st3"
    and out: "read_bytes (fst (as_buffer st3)) (snd (as_buffer st3)) st3 = Inr out" "snd (as_buffer st3) < 2 ^ 31"
    and key: "no_nul (ri_key i)" "length (ri_key i) \<le> IPC_ID_LENGTH"
  shows "\<exists>answer. main_round l st = returns (Inr (True, end_invocation (st3\<lparr>rt_sent := rt_sent st3 @ answer\<rparr>))) \<and>
           is_result (ch_msg_size chw) (ri_key i) code out answer \<and> rt_app_status st3 = rt_app_status st2 \<and>
           runtime_step st3 (st3\<lparr>rt_sent := rt_sent st3 @ answer\<rparr>)"
proof -
  have fr: "cx_invoc_id st3 = ri_key i" "rt_write st3 = Some chw" "rt_app_status st3 = rt_app_status st2"
    using user_steps_frame [OF fn(3)] polled(3) by (auto simp: frame_kept_def start_invocation_def)
  from finish_sends_result [OF fr(2) polled(4) out key, of code] obtain answer where
    a: "invoker_finish (ri_key i) (fst (as_buffer st3)) (snd (as_buffer st3)) code st3 =
          returns (Inr (st3\<lparr>rt_sent := rt_sent st3 @ answer\<rparr>))"
      "is_result (ch_msg_size chw) (ri_key i) code out answer" by blast
  have "main_round l st = returns (Inr (True, end_invocation (st3\<lparr>rt_sent := rt_sent st3 @ answer\<rparr>)))"
    using polled(1,2) fn(1,2) a(1) fr(1) by (simp add: main_round_def split_def)
  with a(2) fr(3) step_finish [OF a(1)] show ?thesis by blast
qed

lemma invoker_round:
  assumes st: "reachable runtime_initial runtime_step st" "\<not> rt_ending st" "rt_read st = Some ch" "rt_write st = Some chw"
      "IPC_BUF_SIZE \<le> ch_msg_size ch" "IPC_BUF_SIZE \<le> ch_msg_size chw"
    and queue: "rt_queue st = concat css @ cs @ R" "list_all2 (is_update (ch_msg_size ch)) us css"
      "is_invocation (ch_msg_size ch) f key bs cs" "length key \<le> IPC_ID_LENGTH"
    and lib: "library_get_function f l = Some fn" "computes (map buffer_data bs) code out P fn"
  shows "\<exists>st' own answer. main_round l st = returns (Inr (True, st')) \<and> rt_sent st' = rt_sent st @ own @ answer \<and> P own \<and>
           is_result (ch_msg_size chw) key code out answer \<and>
           cx_user_buffers st' = [] \<and> rt_app_status st' = apply_updates us (rt_app_status st)"
proof -
  obtain i ch2 inp2 st2 where p: "invoker_poll st = returns (Inr (Some i, st2))" "ri_key i = key" "ri_function_name i = f"
      "st2 = st\<lparr>rt_read := Some ch2, rt_input := inp2, rt_queue := R, rt_app_status := apply_updates us (rt_app_status st)\<rparr>"
      "runtime_inv (start_invocation key st2)"
      "list_all2 (\<lambda>v d. view_data v (start_invocation key st2) = Inr d) (ri_args i) (map buffer_data bs)"
    using round_polled [OF st(1-3,5) queue(1-3)] by blast
  have "cx_invoc_id (start_invocation key st2) = ri_key i" "vw_len (cx_output_view (start_invocation key st2)) = 0"
    using p(2) by (simp_all add: start_invocation_def)
  with p(5,6) lib(2) obtain st3 own where
    f: "fn i (start_invocation key st2) = returns (Inr (code, st3))" "user_step\<^sup>*\<^sup>* (start_invocation key st2) st3"
      "rt_sent st3 = rt_sent (start_invocation key st2) @ own" "P own"
      "read_bytes (fst (as_buffer st3)) (snd (as_buffer st3)) st3 = Inr out" "snd (as_buffer st3) < 2 ^ 31"
    unfolding computes_def by meson
  have "\<not> rt_ending st2" "rt_write st2 = Some chw" "no_nul key" using p(4) st(2,4) queue(3) by (simp_all add: is_invocation_def)
  from round_answered [OF p(1) this(1,2) st(6), of l fn code st3 out] lib(1) f(1,2,5,6) p(2,3) this(3) queue(4) obtain answer where
    "main_round l st = returns (Inr (True, end_invocation (st3\<lparr>rt_sent := rt_sent st3 @ answer\<rparr>)))"
    "is_result (ch_msg_size chw) key code out answer" "rt_app_status st3 = rt_app_status st2" by blast
  with f(3,4) p(4) show ?thesis by (auto simp: end_invocation_eq start_invocation_def)
qed

text \<open>
  C16. One round of the invoker. After any application updates, which are applied in order, an
  invocation that the controller has submitted reaches the function of that name with one view
  for each payload that shows exactly its bytes, and what the function computes from them, its
  return code and its output, is sent back in one message with the key of the invocation,
  behind whatever the function sent itself; then all user buffers are freed.
\<close>

theorem invoker_answers:
  assumes st: "reachable runtime_initial runtime_step st" "\<not> rt_ending st" "rt_read st = Some ch" "rt_write st = Some chw"
      "IPC_BUF_SIZE \<le> ch_msg_size ch" "IPC_BUF_SIZE \<le> ch_msg_size chw"
    and queue: "rt_queue st = concat css @ cs @ R" "list_all2 (is_update (ch_msg_size ch)) us css"
      "is_invocation (ch_msg_size ch) f key bs cs" "length key \<le> IPC_ID_LENGTH"
    and lib: "library_get_function f l = Some fn"
    and fn: "\<And>i st1. runtime_inv st1 \<Longrightarrow> cx_invoc_id st1 = ri_key i \<Longrightarrow> vw_len (cx_output_view st1) = 0 \<Longrightarrow>
        list_all2 (\<lambda>v d. view_data v st1 = Inr d) (ri_args i) (map buffer_data bs) \<Longrightarrow>
        \<exists>st2. fn i st1 = returns (Inr (code, st2)) \<and> user_step\<^sup>*\<^sup>* st1 st2 \<and>
          read_bytes (fst (as_buffer st2)) (snd (as_buffer st2)) st2 = Inr out \<and> snd (as_buffer st2) < 2 ^ 31"
  shows "\<exists>st' own answer. main_round l st = returns (Inr (True, st')) \<and> rt_sent st' = rt_sent st @ own @ answer \<and>
           is_result (ch_msg_size chw) key code out answer \<and>
           cx_user_buffers st' = [] \<and> rt_app_status st' = apply_updates us (rt_app_status st)"
proof -
  have "computes (map buffer_data bs) code out (\<lambda>_. True) fn"
    unfolding computes_def
  proof (intro allI impI)
    fix i :: rt_invocation and st1 :: runtime assume "runtime_inv st1" "cx_invoc_id st1 = ri_key i" "vw_len (cx_output_view st1) = 0"
      "list_all2 (\<lambda>v d. view_data v st1 = Inr d) (ri_args i) (map buffer_data bs)"
    from fn [OF this] obtain st2 where st2: "fn i st1 = returns (Inr (code, st2))" "user_step\<^sup>*\<^sup>* st1 st2"
        "read_bytes (fst (as_buffer st2)) (snd (as_buffer st2)) st2 = Inr out" "snd (as_buffer st2) < 2 ^ 31" by blast
    moreover obtain own where "rt_sent st2 = rt_sent st1 @ own" using user_steps_frame [OF st2(2)] by (auto simp: frame_kept_def)
    ultimately show "\<exists>st2 own. fn i st1 = returns (Inr (code, st2)) \<and> user_step\<^sup>*\<^sup>* st1 st2 \<and> rt_sent st2 = rt_sent st1 @ own \<and> True \<and>
          read_bytes (fst (as_buffer st2)) (snd (as_buffer st2)) st2 = Inr out \<and> snd (as_buffer st2) < 2 ^ 31" by blast
  qed
  from invoker_round [OF st queue lib this] show ?thesis by blast
qed

definition example_argument :: buffer where
  "example_argument = \<lparr>buf_ptr = Some ''xy'', buf_size = 2, buf_len = 2\<rparr>"

lemma example_call: "\<exists>cs. is_invocation 1024 ''add'' ''id-1'' [example_argument] cs"
proof -
  obtain i0 where i0: "Invocation ''add'' ''id-1'' (DirectTrigger ''add'') from_local = Inr i0" "length (irq_data (inv_req i0)) = 128"
    by (simp add: Invocation_def ipc_simps)
  define i where "i = i0\<lparr>inv_payload := [example_argument]\<rparr>"
  have "inv_req i = inv_req i0" "inv_payload i = [example_argument]" by (simp_all add: i_def)
  obtain r where r: "set_irq_buffers_iter (map buf_len (inv_payload i)) (inv_req i) = Inr r"
    using irq_buffers_read_back [of "inv_req i" "map i32_of_size (map buf_len (inv_payload i))"] i0(2)
    by (auto simp: i_def set_irq_buffers_iter_def)
  define h where "h = set_ipc_total_length (i32_of_size (length (concat (map buffer_data (inv_payload i))))) (irq_data r)"
  have s: "submitted i h" using r by (auto simp: submitted_def h_def)
  have d: "buffer_data example_argument = ''xy''" "wf_buffer example_argument" "buf_len example_argument = 2"
    by (simp_all add: example_argument_def buffer_data_def buffer_accessor_def accessor_data_def wf_buffer_def)
  have "header_of h (concat (map buffer_data (inv_payload i)))"
    using submitted_header [OF s] i0(2) d by (simp add: i_def)
  then have fr: "framed 1024 h (concat (map buffer_data [example_argument])) [h, ''xy'']" using d by (simp add: framed_def i_def)
  have "\<exists>t src i0 i h'. Invocation ''add'' ''id-1'' t src = Inr i0 \<and> inv_req i = inv_req i0 \<and> inv_payload i = [example_argument] \<and>
      submitted i h' \<and> framed 1024 h' (concat (map buffer_data [example_argument])) [h, ''xy'']"
    using i0(1) s fr \<open>inv_req i = inv_req i0\<close> \<open>inv_payload i = [example_argument]\<close> by blast
  moreover have "no_nul ''add''" "no_nul ''id-1''" "list_all wf_buffer [example_argument]" "length [example_argument] \<le> 13"
      "sum_list (map buf_len [example_argument]) < 2 ^ 31"
    using d by (simp_all add: no_nul_def)
  ultimately have "is_invocation 1024 ''add'' ''id-1'' [example_argument] [h, ''xy'']" unfolding is_invocation_def by blast
  then show ?thesis by blast
qed

text \<open>The function of the benchmarks that returns its input.\<close>

definition no_op :: user_function where
  "no_op i st =
     (case ri_args i of
        [] \<Rightarrow> returns (Inl UndefinedBehaviour)
      | v # _ \<Rightarrow> returns (Inr (0, set_output_buffer v st)))"

lemma view_data_length: "view_data v st = Inr d \<Longrightarrow> length d = vw_len v"
  by (auto simp: view_data_def read_bytes_def peek_def split: if_splits option.splits prod.splits)

lemma no_op_computes:
  assumes "length d < 2 ^ 31"
  shows "computes [d] 0 d (\<lambda>own. own = []) no_op"
  unfolding computes_def
proof (intro allI impI)
  fix i :: rt_invocation and st1 :: runtime assume "list_all2 (\<lambda>v d. view_data v st1 = Inr d) (ri_args i) [d]"
  then obtain v where v: "ri_args i = [v]" "view_data v st1 = Inr d" by (auto simp: list_all2_Cons2)
  let ?st = "set_output_buffer v st1"
  have "as_buffer ?st = (vw_ptr v, vw_len v)" by (auto simp: as_buffer_def set_output_buffer_def)
  moreover have "block_content b ?st = block_content b st1" for b
    by (cases b) (simp_all add: block_content_def set_output_buffer_def)
  moreover from this have "view_data v ?st = Inr d" using v(2)
    by (auto simp: view_data_def read_bytes_def split: if_splits option.splits)
  moreover have "vw_len v < 2 ^ 31" using view_data_length [OF v(2)] assms by simp
  ultimately show "\<exists>st2 own. no_op i st1 = returns (Inr (0, st2)) \<and> user_step\<^sup>*\<^sup>* st1 st2 \<and> rt_sent st2 = rt_sent st1 @ own \<and>
      own = [] \<and> read_bytes (fst (as_buffer st2)) (snd (as_buffer st2)) st2 = Inr d \<and> snd (as_buffer st2) < 2 ^ 31"
    using v(1) by (intro exI [of _ ?st] exI [of _ "[]"])
      (auto simp: no_op_def view_data_def set_output_buffer_def intro: step_set_output [unfolded set_output_buffer_def])
qed

definition count_arguments :: user_function where
  "count_arguments i st = returns (Inr (of_nat (length (ri_args i)), st))"

theorem invoker_answers_witness:
  "\<exists>cs st' own answer. is_invocation 1024 ''add'' ''id-1'' [example_argument] cs \<and>
     main_round \<lparr>lb_libraries = Map.empty, lb_functions = [''add'' \<mapsto> count_arguments]\<rparr> (example_invoker\<lparr>rt_queue := cs\<rparr>) =
       returns (Inr (True, st')) \<and>
     rt_sent st' = own @ answer \<and> is_result 1024 ''id-1'' 1 [] answer"
proof -
  obtain cs where cs: "is_invocation 1024 ''add'' ''id-1'' [example_argument] cs" using example_call by blast
  let ?st = "example_invoker\<lparr>rt_queue := cs\<rparr>"
  obtain ch1 ch2 where st: "rt_read ?st = Some ch1" "rt_write ?st = Some ch2" "ch_msg_size ch1 = 1024" "ch_msg_size ch2 = 1024"
      "\<not> rt_ending ?st" "rt_sent ?st = []" "rt_queue example_invoker = []"
    using example_invoker_channels by auto
  have reach: "reachable runtime_initial runtime_step ?st"
    using reachable_step [OF example_invoker_reachable step_arrive, of cs] st(7) by simp
  let ?l = "\<lparr>lb_libraries = Map.empty, lb_functions = [''add'' \<mapsto> count_arguments]\<rparr>"
  have fn: "\<exists>st2. count_arguments i st1 = returns (Inr (1, st2)) \<and> user_step\<^sup>*\<^sup>* st1 st2 \<and>
      read_bytes (fst (as_buffer st2)) (snd (as_buffer st2)) st2 = Inr [] \<and> snd (as_buffer st2) < 2 ^ 31"
    if "vw_len (cx_output_view st1) = 0" "list_all2 (\<lambda>v d. view_data v st1 = Inr d) (ri_args i) (map buffer_data [example_argument])"
    for i st1
    using that by (auto simp: count_arguments_def as_buffer_def read_bytes_def dest: list_all2_lengthD)
  have "\<exists>st' own answer. main_round ?l ?st = returns (Inr (True, st')) \<and> rt_sent st' = rt_sent ?st @ own @ answer \<and>
      is_result (ch_msg_size ch2) ''id-1'' 1 [] answer \<and>
      cx_user_buffers st' = [] \<and> rt_app_status st' = apply_updates [] (rt_app_status ?st)"
    by (rule invoker_answers [OF reach st(5,1,2), where css = "[]" and cs = cs and R = "[]" and f = "''add''"
          and fn = count_arguments and bs = "[example_argument]"])
       (use st(3,4) cs fn in \<open>simp_all add: library_get_function_def\<close>)
  with cs st(4,6) show ?thesis by auto
qed

text \<open>
  C38. A function that is not in the library is never answered: the invoker takes the invocation
  off its queue, sends nothing and waits for the next one.
\<close>

theorem missing_function_unanswered:
  assumes st: "reachable runtime_initial runtime_step st" "\<not> rt_ending st" "rt_read st = Some ch" "IPC_BUF_SIZE \<le> ch_msg_size ch"
    and queue: "rt_queue st = cs @ R" "is_invocation (ch_msg_size ch) f key bs cs" and lib: "library_get_function f l = None"
  shows "\<exists>st'. main_round l st = returns (Inr (True, st')) \<and> rt_sent st' = rt_sent st \<and> rt_queue st' = R"
proof -
  have "runtime_inv st" using st(1) by (rule invoker_run.reachable_good)
  then have "wf_buffer (rt_input st)" by (simp add: runtime_inv_def io_ok_def)
  from poll_invocation [OF st(3,4) this st(2) queue(2,1)] obtain i ch' inp where
    "invoker_poll st = returns (Inr (Some i, st\<lparr>rt_read := Some ch', rt_input := inp, rt_queue := R\<rparr>))" "ri_function_name i = f" by blast
  with st(2) lib show ?thesis by (simp add: main_round_def)
qed

theorem missing_function_unanswered_witness:
  "\<exists>cs st'. is_invocation 1024 ''add'' ''id-1'' [example_argument] cs \<and>
     main_round \<lparr>lb_libraries = Map.empty, lb_functions = Map.empty\<rparr> (example_invoker\<lparr>rt_queue := cs\<rparr>) = returns (Inr (True, st')) \<and>
     rt_sent st' = []"
proof -
  obtain cs where cs: "is_invocation 1024 ''add'' ''id-1'' [example_argument] cs" using example_call by blast
  let ?st = "example_invoker\<lparr>rt_queue := cs\<rparr>"
  obtain ch1 ch2 where st: "rt_read ?st = Some ch1" "ch_msg_size ch1 = 1024" "\<not> rt_ending ?st" "rt_sent ?st = []" "rt_queue example_invoker = []"
    using example_invoker_channels by auto
  have "reachable runtime_initial runtime_step ?st"
    using reachable_step [OF example_invoker_reachable step_arrive, of cs] st(5) by simp
  from missing_function_unanswered [OF this st(3,1), of cs "[]" "''add''" "''id-1''" "[example_argument]" "\<lparr>lb_libraries = Map.empty, lb_functions = Map.empty\<rparr>"]
  show ?thesis using cs st(2,4) by (auto simp: library_get_function_def)
qed

text \<open>
  C37. An output buffer that a function sets outlives its array. When a function makes one of its
  own buffers the output and the invocation ends, the next invocation answers with the freed
  array, although its function writes the output with the context's own operation: reading the
  output is undefined.
\<close>

theorem stale_output_view:
  assumes "runtime_inv st" and "get_buffer n st = (v, st1)" and "d \<noteq> []" and "length d \<le> ow_size (cx_output st)"
  shows "\<exists>st2. write_output d 0 (start_invocation iid (end_invocation (set_output_buffer v st1))) = Inr st2 \<and>
           (\<exists>p len. as_buffer st2 = (p, len) \<and> length d \<le> len \<and> read_bytes p len st2 = Inl UndefinedBehaviour)"
proof -
  have v: "v = \<lparr>vw_ptr = Some (HeapBlock (rt_next st), 0), vw_len = 0, vw_size = n\<rparr>"
      and st1: "st1 = st\<lparr>rt_heap := (rt_heap st)(rt_next st \<mapsto> replicate n NUL), rt_next := rt_next st + 1,
         cx_user_buffers := cx_user_buffers st @ [\<lparr>ow_ptr = Some (rt_next st), ow_size = n, ow_len = 0\<rparr>]\<rparr>"
    using assms(2) by (auto simp: get_buffer_def new_array_def add_user_buffer_def owned_view_def owned_ptr_def)
  define e where "e = start_invocation iid (end_invocation (set_output_buffer v st1))"
  have inv1: "runtime_inv (set_output_buffer v st1)"
    using user_step_keeps [OF step_get_buffer [OF assms(2)] assms(1)] keeps_inv keeps_view
    by (fastforce simp: set_output_buffer_def)
  have inv: "runtime_inv e"
    unfolding e_def using end_invocation_inv [OF inv1] runtime_step_inv [OF step_start] by blast
  have e: "cx_output_view e = v" "ow_ptr (cx_output e) = ow_ptr (cx_output st)" "ow_size (cx_output e) = ow_size (cx_output st)"
      "rt_heap e (rt_next st) = None"
    by (simp_all add: e_def end_invocation_eq set_output_buffer_def start_invocation_def st1 v)
  obtain a m where a: "ow_ptr (cx_output e) = Some a" "rt_heap e a = Some m" "length m = ow_size (cx_output e)"
    using inv by (auto simp: runtime_inv_def memory_ok_def arrays_def sizes_def)
  define st2 where "st2 = e\<lparr>rt_heap := (rt_heap e)(a \<mapsto> poke m 0 d), cx_output_view := v\<lparr>vw_len := length d\<rparr>\<rparr>"
  have "write_output d 0 e = Inr st2" using a e(1,3) assms(4) by (simp add: write_output_def st2_def v)
  moreover have "a \<noteq> rt_next st" using a(2) e(4) by auto
  then have "as_buffer st2 = (Some (HeapBlock (rt_next st), 0), length d)" "rt_heap st2 (rt_next st) = None"
    using a(1) e(4) by (simp_all add: as_buffer_def st2_def v owned_ptr_def)
  ultimately show ?thesis using assms(3) unfolding e_def
    by (intro exI [of _ st2]) (simp add: read_bytes_def block_content_def)
qed

theorem stale_output_view_witness:
  "\<exists>st2 p len. write_output ''new'' 0 (start_invocation ''id-2'' (end_invocation
       (set_output_buffer (fst (get_buffer 4 example_invoker)) (snd (get_buffer 4 example_invoker))))) = Inr st2 \<and>
     as_buffer st2 = (p, len) \<and> 3 \<le> len \<and> read_bytes p len st2 = Inl UndefinedBehaviour"
proof -
  have "runtime_inv example_invoker" using example_invoker_reachable by (rule invoker_run.reachable_good)
  moreover have "ow_size (cx_output example_invoker) = CONTEXT_BUFFER_SIZE"
    using example_invoker_channels by auto
  ultimately show ?thesis
    using stale_output_view [of example_invoker 4 "fst (get_buffer 4 example_invoker)" "snd (get_buffer 4 example_invoker)" "''new''" "''id-2''"]
    by (auto simp: CONTEXT_BUFFER_SIZE_def numeral_3_eq_3)
qed

text \<open>The put request of a function, as the controller parses it.\<close>

definition is_put :: "nat \<Rightarrow> string \<Rightarrow> string \<Rightarrow> bool \<Rightarrow> bytes \<Rightarrow> bytes list \<Rightarrow> bool" where
  "is_put ms dst key st d cs \<longleftrightarrow> (\<exists>h m. framed ms h d cs \<and> parse_message h = Inr (PutRequestV m) \<and>
     gr_process_id m = dst \<and> gr_name m = key \<and> gr_state m = st \<and> gr_data_len m = i32_of_size (length d))"

lemma unset_text [simp]: "takeWhile (\<lambda>c. c \<noteq> NUL) (peek (replicate n NUL) i k) = []"
  by (simp add: peek_def takeWhile_eq_Nil_iff)

lemma peek_zero: "peek b i 0 = []"
  by (simp add: peek_def)

lemma put_request_ok:
  assumes "no_nul key" and "length key \<le> IPC_NAME_LENGTH" and "case dst of None \<Rightarrow> True | Some p \<Rightarrow> no_nul p \<and> length p \<le> IPC_NAME_LENGTH"
  shows "\<exists>m. put_request dst key n s = Inr m \<and> length (gr_data m) = IPC_BUF_SIZE \<and>
           (\<exists>m'. parse_message (set_ipc_total_length k (gr_data m)) = Inr (PutRequestV m') \<and>
              gr_process_id m' = (case dst of None \<Rightarrow> [] | Some p \<Rightarrow> p) \<and> gr_name m' = key \<and> gr_state m' = s \<and>
              gr_data_len m' = i32_of_size n)"
  using assms by (cases dst; cases s) (simp_all add: put_request_def ipc_simps parse_message_def peek_zero)

lemma find_user_buffer_hit:
  "ob \<in> set obs \<Longrightarrow> owned_ptr ob = vw_ptr v \<Longrightarrow>
     \<exists>ob' obs'. find_user_buffer v obs = Some (ob', obs') \<and> owned_ptr ob' = vw_ptr v \<and> ow_len ob' = vw_len v"
proof (induction obs)
  case (Cons o1 obs)
  show ?case
  proof (cases "owned_ptr o1 = vw_ptr v")
    case True
    then show ?thesis by (simp add: Let_def owned_ptr_def)
  next
    case False
    with Cons show ?thesis by auto
  qed
qed simp

lemma put_user_buffer_framed:
  assumes "runtime_inv st" and "ob \<in> set (cx_user_buffers st)" and "owned_ptr ob = vw_ptr v" and "vw_len v \<le> ow_size ob"
    and "vw_len v < 2 ^ 31" and "rt_write st = Some ch" and "IPC_BUF_SIZE \<le> ch_msg_size ch" and "length msg = IPC_BUF_SIZE"
  shows "\<exists>d cs st'. view_data v st = Inr d \<and> length d = vw_len v \<and> put_user_buffer msg v st = returns (Inr st') \<and>
           rt_sent st' = rt_sent st @ cs \<and> framed (ch_msg_size ch) (set_ipc_total_length (i32_of_size (vw_len v)) msg) d cs"
proof -
  obtain d where d: "read_bytes (vw_ptr v) (vw_len v) st = Inr d" "length d = vw_len v"
    using owned_readable [OF assms(1,2,4)] assms(3) by auto
  obtain ob' obs where f: "find_user_buffer v (cx_user_buffers st) = Some (ob', obs)" "owned_ptr ob' = vw_ptr v" "ow_len ob' = vw_len v"
    using find_user_buffer_hit [OF assms(2,3)] by blast
  let ?st = "st\<lparr>cx_user_buffers := obs\<rparr>"
  have "block_content b ?st = block_content b st" for b
    by (cases b) (simp_all add: block_content_def)
  then have "read_bytes (vw_ptr v) (vw_len v) ?st = Inr d"
    using d(1) by (auto simp: read_bytes_def split: option.splits if_splits)
  moreover obtain cs where "invoker_send msg d ?st = returns (Inr (?st\<lparr>rt_sent := rt_sent st @ cs\<rparr>))"
      "framed (ch_msg_size ch) (set_ipc_total_length (i32_of_size (length d)) msg) d cs"
    using invoker_send_framed [of ?st ch msg d] assms(5-8) d(2) by auto
  ultimately show ?thesis using d f
    by (intro exI [of _ d] exI [of _ cs] exI [of _ "?st\<lparr>rt_sent := rt_sent st @ cs\<rparr>"])
       (simp add: put_user_buffer_def invoker_put_def view_data_def)
qed

lemma user_put_framed:
  assumes st: "runtime_inv st" "rt_write st = Some ch" "IPC_BUF_SIZE \<le> ch_msg_size ch"
    and names: "no_nul key" "length key \<le> IPC_NAME_LENGTH" "case p of None \<Rightarrow> True | Some q \<Rightarrow> no_nul q \<and> length q \<le> IPC_NAME_LENGTH"
    and held: "ob \<in> set (cx_user_buffers st)" "vw_ptr v = owned_ptr ob" "vw_len v \<le> ow_size ob" "vw_len v < 2 ^ 31"
  shows "\<exists>d cs st'. view_data v st = Inr d \<and> length d = vw_len v \<and>
           then_call (returns (put_request p key (vw_len v) s)) (\<lambda>req. put_user_buffer (gr_data req) v st) = returns (Inr st') \<and>
           rt_sent st' = rt_sent st @ cs \<and> is_put (ch_msg_size ch) (case p of None \<Rightarrow> [] | Some q \<Rightarrow> q) key s d cs"
proof -
  obtain m m' where m: "put_request p key (vw_len v) s = Inr m" "length (gr_data m) = IPC_BUF_SIZE"
      "parse_message (set_ipc_total_length (i32_of_size (vw_len v)) (gr_data m)) = Inr (PutRequestV m')"
      "gr_process_id m' = (case p of None \<Rightarrow> [] | Some q \<Rightarrow> q)" "gr_name m' = key" "gr_state m' = s" "gr_data_len m' = i32_of_size (vw_len v)"
    using put_request_ok [OF names] by metis
  from put_user_buffer_framed [OF st(1) held(1) held(2) [symmetric] held(3,4) st(2,3) m(2)] obtain d cs st' where
    d: "view_data v st = Inr d" "length d = vw_len v" "put_user_buffer (gr_data m) v st = returns (Inr st')" "rt_sent st' = rt_sent st @ cs"
      "framed (ch_msg_size ch) (set_ipc_total_length (i32_of_size (vw_len v)) (gr_data m)) d cs" by blast
  with m show ?thesis unfolding is_put_def by (intro exI [of _ d] exI [of _ cs] exI [of _ st']) auto
qed



end
