(* ===== verification/Sdk.thy ===== *)
theory Sdk
  imports Remote Control_Server
begin

text \<open>
  The client library: \<^verbatim>\<open>src/sdk/src/process.cpp\<close>, a direct connection to a process, and
  \<^verbatim>\<open>src/sdk/src/praas.cpp\<close>, requests to the control plane over HTTP. The socket is what has been
  written on it and the bytes of the peer that have not been read yet, up to the end of the
  stream; a read of fewer bytes than asked for means that the stream has ended. An HTTP request
  is a value that the library hands over, and the reply, when there is one, is an argument of
  the callback. A document of the control plane has the members of \<open>reply_document\<close>; a member that
  is missing reads as the empty string and as zero. The routes of the control plane's HTTP server,
  \<^verbatim>\<open>src/control-plane/include/praas/control-plane/http.hpp\<close>, are here too.
\<close>

section \<open>A connection to a process\<close>

record sdk_process =
  sp_addr :: "string \<times> int32"
  sp_disable_nagle :: bool
  sp_open :: bool
  sp_in :: bytes
  sp_out :: "bytes list"

record sdk_result =
  sr_return_code :: int32
  sr_payload :: "bytes option"
  sr_payload_len :: nat
  sr_error_message :: string

definition sdk_Process :: "string \<Rightarrow> int32 \<Rightarrow> bool \<Rightarrow> sdk_process" where
  "sdk_Process addr pt nagle =
     \<lparr>sp_addr = (addr, pt), sp_disable_nagle = nagle, sp_open = False, sp_in = [], sp_out = []\<rparr>"

definition sdk_disconnect :: "sdk_process \<Rightarrow> sdk_process" where
  "sdk_disconnect p = p\<lparr>sp_open := False\<rparr>"

text \<open>\<^verbatim>\<open>write_n\<close> and \<^verbatim>\<open>read_n\<close> of the socket library; the latter may return fewer bytes.\<close>

definition write_n :: "bytes \<Rightarrow> sdk_process \<Rightarrow> sdk_process" where
  "write_n d p = p\<lparr>sp_out := sp_out p @ [d]\<rparr>"

definition read_n :: "nat \<Rightarrow> sdk_process \<Rightarrow> bytes \<times> sdk_process" where
  "read_n n p = (take n (sp_in p), p\<lparr>sp_in := drop n (sp_in p)\<rparr>)"

text \<open>
  The operating system either refuses the connection or opens it; what the peer will send until
  it closes the connection is the first argument. The option that \<^verbatim>\<open>disable_nagle\<close> sets on the
  socket does not change which bytes are sent.
\<close>

definition sdk_connect :: "bytes option \<Rightarrow> sdk_process \<Rightarrow> (bool \<times> sdk_process) result" where
  "sdk_connect peer p =
     (case peer of
        None \<Rightarrow> Inr (False, p\<lparr>sp_open := False\<rparr>)
      | Some incoming_bytes \<Rightarrow>
          and_then (set_process_name ''DATAPLANE'' (ProcessConnection MessageData_default)) (\<lambda>req.
          let p1 = write_n (msg_data req) (p\<lparr>sp_open := True, sp_in := incoming_bytes, sp_out := []\<rparr>);
              (response, p2) = read_n BUF_SIZE p1 in
          if length response \<noteq> BUF_SIZE then Inr (False, p2)
          else and_then (parse response) (\<lambda>v.
               case v of
                 ProcessConnectionPtr m \<Rightarrow> Inr (process_name m = ''CORRECT'', p2)
               | _ \<Rightarrow> Inr (False, p2))))"

text \<open>
  The result of an invocation, once its header has been parsed. An array of more bytes than an
  address can span cannot be allocated, and the negation of the smallest integer overflows. What
  the read does not fill of the array is indeterminate in C++ and zero here.
\<close>

definition read_result :: "invocation_result \<Rightarrow> sdk_process \<Rightarrow> (sdk_result \<times> sdk_process) result" where
  "read_result m p =
     (let payload_bytes = size_of_i32 (total_length m) in
      if payload_bytes \<ge> 2 ^ 63 then Inl BadAlloc
      else
        let (d, p1) = (if payload_bytes > 0 then read_n payload_bytes p else ([], p));
            payload = d @ replicate (payload_bytes - length d) NUL in
        if sint (return_code m) < 0 then
          (if sint (return_code m) = - (2 ^ 31) then Inl UndefinedBehaviour
           else Inr (\<lparr>sr_return_code = return_code m * - 1, sr_payload = None, sr_payload_len = 0,
                      sr_error_message = payload\<rparr>, p1))
        else Inr (\<lparr>sr_return_code = return_code m, sr_payload = (if payload_bytes > 0 then Some payload else None),
                   sr_payload_len = payload_bytes, sr_error_message = []\<rparr>, p1))"

definition sdk_request :: "string \<Rightarrow> string \<Rightarrow> nat \<Rightarrow> bytes result" where
  "sdk_request fname iid len =
     and_then (set_function_name fname (InvocationRequest MessageData_default)) (\<lambda>m1.
     and_then (set_invocation_id iid m1) (\<lambda>m2.
     and_then (set_payload_size (i32_of_size len) m2) (\<lambda>m3. Inr (msg_data m3))))"

definition sdk_invoke :: "string \<Rightarrow> string \<Rightarrow> bytes \<Rightarrow> sdk_process \<Rightarrow> (sdk_result \<times> sdk_process) result" where
  "sdk_invoke fname iid d p =
     (if \<not> sp_open p then Inl InvalidProcessState
      else and_then (sdk_request fname iid (length d)) (\<lambda>msg.
           let p1 = write_n msg p;
               p2 = (if length d > 0 then write_n d p1 else p1);
               (response, p3) = read_n BUF_SIZE p2 in
           and_then (parse (poke (replicate BUF_SIZE NUL) 0 response)) (\<lambda>v.
           case v of
             InvocationResultPtr m \<Rightarrow> read_result m p3
           | _ \<Rightarrow> Inr (\<lparr>sr_return_code = 1, sr_payload = None, sr_payload_len = 0, sr_error_message = []\<rparr>, p3))))"

section \<open>Requests to the control plane\<close>

datatype http_method = Get | Put | Post

record http_request =
  hq_method :: http_method
  hq_path :: string
  hq_parameters :: "string \<Rightarrow> string"
  hq_body :: bytes

record reply_document =
  rd_reason :: "string option"
  rd_invocation_id :: "string option"
  rd_return_code :: "int32 option"
  rd_result :: "bytes option"
  rd_connection :: "(string \<times> int32) option"

record http_reply =
  hp_status :: nat
  hp_document :: "reply_document option"

record cp_result =
  cr_invocation_id :: string
  cr_return_code :: int32
  cr_response :: string
  cr_error_message :: string

definition no_parameters :: "string \<Rightarrow> string" where
  "no_parameters n = []"

definition create_application_request :: "string \<Rightarrow> string \<Rightarrow> http_request" where
  "create_application_request application cloud_resource_name =
     \<lparr>hq_method = Put, hq_path = ''/apps/'' @ application,
      hq_parameters = no_parameters(''cloud_resource_name'' := cloud_resource_name), hq_body = []\<rparr>"

definition create_application_reply :: "http_reply option \<Rightarrow> bool" where
  "create_application_reply r = (case r of None \<Rightarrow> False | Some response \<Rightarrow> hp_status response = 200)"

definition create_process_request :: "string \<Rightarrow> string \<Rightarrow> int32 \<Rightarrow> int32 \<Rightarrow> http_request" where
  "create_process_request application pname vcpus memory =
     \<lparr>hq_method = Put, hq_path = ''/apps/'' @ application @ ''/processes/'' @ pname,
      hq_parameters = no_parameters(''vcpus'' := decimal_int vcpus, ''memory'' := decimal_int memory), hq_body = []\<rparr>"

definition create_process_reply :: "http_reply option \<Rightarrow> sdk_process option result" where
  "create_process_reply r =
     (case r of
        None \<Rightarrow> Inr None
      | Some response \<Rightarrow>
          (case hp_document response of
             None \<Rightarrow> Inl UndefinedBehaviour
           | Some json_obj \<Rightarrow>
               let ip_addr = (case rd_connection json_obj of None \<Rightarrow> [] | Some c \<Rightarrow> fst c);
                   pt = (case rd_connection json_obj of None \<Rightarrow> 0 | Some c \<Rightarrow> snd c) in
               Inr (Some (sdk_Process ip_addr pt False))))"

definition invoke_request_http :: "string \<Rightarrow> string \<Rightarrow> bytes \<Rightarrow> http_request" where
  "invoke_request_http app_name fname d =
     \<lparr>hq_method = Post, hq_path = ''/apps/'' @ app_name @ ''/invoke/'' @ fname, hq_parameters = no_parameters, hq_body = d\<rparr>"

definition text_of :: "string option \<Rightarrow> string" where
  "text_of t = (case t of None \<Rightarrow> [] | Some s \<Rightarrow> s)"

definition invoke_reply :: "http_reply option \<Rightarrow> cp_result result" where
  "invoke_reply r =
     (case r of
        None \<Rightarrow> Inl UndefinedBehaviour
      | Some response \<Rightarrow>
          (case hp_document response of
             None \<Rightarrow> Inl UndefinedBehaviour
           | Some json \<Rightarrow>
               if hp_status response \<noteq> 200
               then Inr \<lparr>cr_invocation_id = [], cr_return_code = 1, cr_response = [], cr_error_message = text_of (rd_reason json)\<rparr>
               else
                 let code = (case rd_return_code json of None \<Rightarrow> 0 | Some c \<Rightarrow> c) in
                 Inr \<lparr>cr_invocation_id = text_of (rd_invocation_id json), cr_return_code = code,
                      cr_response = (if sint code < 0 then [] else text_of (rd_result json)),
                      cr_error_message = (if sint code < 0 then text_of (rd_result json) else [])\<rparr>))"

section \<open>The control plane's replies and routes\<close>

definition empty_document :: reply_document where
  "empty_document = \<lparr>rd_reason = None, rd_invocation_id = None, rd_return_code = None, rd_result = None, rd_connection = None\<rparr>"

fun reply_of :: "response \<Rightarrow> http_reply" where
  "reply_of (InvocationResponse fname iid code out) =
     \<lparr>hp_status = 200, hp_document = Some (empty_document\<lparr>rd_invocation_id := Some iid, rd_return_code := Some code, rd_result := Some out\<rparr>)\<rparr>"
| "reply_of (ProcessResponse name ip pt) =
     \<lparr>hp_status = 200, hp_document = Some (empty_document\<lparr>rd_connection := Some (ip, pt)\<rparr>)\<rparr>"
| "reply_of (FailedResponse reason status) =
     \<lparr>hp_status = status, hp_document = Some (empty_document\<lparr>rd_reason := Some reason\<rparr>)\<rparr>"
| "reply_of (MessageResponse reason) = \<lparr>hp_status = 200, hp_document = Some empty_document\<rparr>"
| "reply_of (ListResponse app act swp) = \<lparr>hp_status = 200, hp_document = Some empty_document\<rparr>"

text \<open>The parts of a path between the slashes.\<close>

fun segments :: "string \<Rightarrow> string list" where
  "segments [] = [[]]"
| "segments (c # cs) = (if c = CHR ''/'' then [] # segments cs
                        else case segments cs of [] \<Rightarrow> [[c]] | s # ss \<Rightarrow> (c # s) # ss)"

datatype route =
    RouteCreateApp string
  | RouteCreateProcess string string
  | RouteDeleteProcess string string
  | RouteSwapProcess string string
  | RouteInvoke string string
  | RouteListProcesses string

definition route_of :: "http_request \<Rightarrow> route option" where
  "route_of r =
     (case (hq_method r, segments (hq_path r)) of
        (Put, [e, a, app]) \<Rightarrow> if e = [] \<and> a = ''apps'' then Some (RouteCreateApp app) else None
      | (Put, [e, a, app, b, proc]) \<Rightarrow>
          if e = [] \<and> a = ''apps'' \<and> b = ''processes'' then Some (RouteCreateProcess app proc) else None
      | (Post, [e, a, app, b, proc, c]) \<Rightarrow>
          if e = [] \<and> a = ''apps'' \<and> b = ''processes'' \<and> c = ''delete'' then Some (RouteDeleteProcess app proc)
          else if e = [] \<and> a = ''apps'' \<and> b = ''processes'' \<and> c = ''swap'' then Some (RouteSwapProcess app proc) else None
      | (Post, [e, a, app, b, fname]) \<Rightarrow> if e = [] \<and> a = ''apps'' \<and> b = ''invoke'' then Some (RouteInvoke app fname) else None
      | (Get, [e, a, app, b]) \<Rightarrow> if e = [] \<and> a = ''apps'' \<and> b = ''processes'' then Some (RouteListProcesses app) else None
      | _ \<Rightarrow> None)"

text \<open>
  The handler of a request, none when no route matches; the clock and the identifier of an
  invocation, the backend's limits, the reader of numbers and the location for swapped processes
  are arguments.
\<close>

definition http_serve ::
    "(string \<Rightarrow> real result) \<Rightarrow> real \<Rightarrow> real \<Rightarrow> string \<Rightarrow> int \<Rightarrow> string \<Rightarrow> client \<Rightarrow> http_request \<Rightarrow> cloud \<Rightarrow> cloud result option" where
  "http_serve stod mem cpus loc start uuid cl r s =
     map_option (\<lambda>rt.
       case rt of
         RouteCreateApp app \<Rightarrow> http_create_app cl app (hq_parameters r ''cloud_resource_name'') s
       | RouteCreateProcess app proc \<Rightarrow>
           http_create_process stod mem cpus cl app proc (hq_parameters r ''vcpus'') (hq_parameters r ''memory'') s
       | RouteDeleteProcess app proc \<Rightarrow> http_delete_process cl app proc s
       | RouteSwapProcess app proc \<Rightarrow> http_swap_process loc cl app proc s
       | RouteInvoke app fname \<Rightarrow> cloud_handle_invocation (hq_body r) cl app fname start uuid s
       | RouteListProcesses app \<Rightarrow> Inr (http_list_processes cl app s)) (route_of r)"

section \<open>Client and process\<close>

lemma sdk_request_ok:
  assumes "name_ok fname" and "no_nul iid" and "length iid \<le> ID_LENGTH" and "n < 2 ^ 31"
  shows "\<exists>h r. sdk_request fname iid n = Inr h \<and> length h = BUF_SIZE \<and> parse h = Inr (InvocationRequestPtr r) \<and>
           function_name r = fname \<and> invocation_id r = iid \<and> size_of_i32 (payload_size r) = n"
  using assms sint_i32_of_size [of n] by (simp add: name_ok_def sdk_request_def message_simps parse_def)

lemma named_message_ok:
  assumes "name_ok name"
  shows "\<exists>req m. set_process_name name (ProcessConnection MessageData_default) = Inr req \<and> length (msg_data req) = BUF_SIZE \<and>
           parse (msg_data req) = Inr (ProcessConnectionPtr m) \<and> process_name m = name"
  using assms by (simp add: name_ok_def message_simps parse_def)

text \<open>The server's side of a registration, with the confirmation it sends.\<close>

lemma server_registers:
  assumes "sv_context s sk = None" and "sv_connections s a = None" and "a \<noteq> DATAPLANE_ID" "a \<noteq> CONTROLPLANE_ID"
    and h: "length h = BUF_SIZE" "parse h = Inr (ProcessConnectionPtr m)" "process_name m = a"
  shows "\<exists>q m'. handle_message sk h s =
             Inr ([], sock_send sk q ((set_connection a (Connection CONNECTED PROCESS (Some a) (Some sk) [] 0) s)
                       \<lparr>sv_context := (sv_context s)(sk \<mapsto> a)\<rparr>)) \<and>
           length q = BUF_SIZE \<and> parse q = Inr (ProcessConnectionPtr m') \<and> process_name m' = ''CORRECT''"
proof -
  obtain req m' where q: "set_process_name ''CORRECT'' (ProcessConnection MessageData_default) = Inr req"
      "length (msg_data req) = BUF_SIZE" "parse (msg_data req) = Inr (ProcessConnectionPtr m')" "process_name m' = ''CORRECT''"
    using named_message_ok [of "''CORRECT''"] by (auto simp: name_ok_def no_nul_def)
  then have "handle_connection sk m s = Inr (sock_send sk (msg_data req)
      ((set_connection a (Connection CONNECTED PROCESS (Some a) (Some sk) [] 0) s)\<lparr>sv_context := (sv_context s)(sk \<mapsto> a)\<rparr>))"
    using assms by (simp add: handle_connection_def set_plane_def)
  then show ?thesis using q assms by (subst handle_message.simps) auto
qed

lemma sdk_connect_ok:
  assumes "length q = BUF_SIZE" and "parse q = Inr (ProcessConnectionPtr m)" and "process_name m = ''CORRECT''"
    and "set_process_name ''DATAPLANE'' (ProcessConnection MessageData_default) = Inr req"
  shows "sdk_connect (Some (q @ rest)) p = Inr (True, p\<lparr>sp_open := True, sp_in := rest, sp_out := [msg_data req]\<rparr>)"
  using assms by (simp add: sdk_connect_def write_n_def read_n_def Let_def)

text \<open>What the caller of the library is told.\<close>

definition outcome :: "int32 \<Rightarrow> bytes \<Rightarrow> sdk_result" where
  "outcome code out =
     (if sint code < 0
      then \<lparr>sr_return_code = - code, sr_payload = None, sr_payload_len = 0, sr_error_message = out\<rparr>
      else \<lparr>sr_return_code = code, sr_payload = (if out = [] then None else Some out), sr_payload_len = length out,
            sr_error_message = []\<rparr>)"

lemma sdk_invoke_ok:
  assumes "sp_open p" and "sp_in p = g @ out" and "length g = BUF_SIZE" and "parse g = Inr (InvocationResultPtr m)"
    and "return_code m = code" and "total_length m = i32_of_size (length out)" and "length out < 2 ^ 31"
    and "sint code \<noteq> - (2 ^ 31)" and "sdk_request fname iid (length d) = Inr h"
  shows "\<exists>p'. sdk_invoke fname iid d p = Inr (outcome code out, p') \<and> concat (sp_out p') = concat (sp_out p) @ h @ d \<and> sp_in p' = []"
proof -
  have len: "size_of_i32 (total_length m) = length out" unfolding assms(6) by (rule size_of_i32_of_size [OF assms(7)])
  have "length out < 2 ^ 63" using assms(7) by (rule order_less_trans) simp
  then have "read_result m p3 = Inr (outcome code out, p3\<lparr>sp_in := []\<rparr>)" if "sp_in p3 = out" for p3
    using that assms(5,8) len by (simp add: read_result_def outcome_def read_n_def Let_def)
  then show ?thesis using assms by (simp add: sdk_invoke_def write_n_def read_n_def Let_def poke_def)
qed


text \<open>The server's side: a registration on a fresh socket and one invocation.\<close>

lemma server_takes_call:
  assumes s: "sv_context s sk = None" "sv_connections s a = None" "sv_buffers s = []" "sv_sent s sk = []"
    and a: "a \<noteq> DATAPLANE_ID" "a \<noteq> CONTROLPLANE_ID"
    and w: "length w = BUF_SIZE" "parse w = Inr (ProcessConnectionPtr m)" "process_name m = a"
    and h: "length h = BUF_SIZE" "parse h = Inr (InvocationRequestPtr r)" "size_of_i32 (payload_size r) = length d"
  shows "\<exists>q m' s1 s2 cn. length q = BUF_SIZE \<and> parse q = Inr (ProcessConnectionPtr m') \<and> process_name m' = ''CORRECT'' \<and>
           handle_message sk w s = Inr ([], s1) \<and> handle_message sk (h @ d) s1 = Inr ([], s2) \<and>
           sv_controller s2 = deliver
             [\<lparr>em_source_type = PROCESS, em_source = Some a, em_msg = h, em_payload = payload_buffer_of d\<rparr>] (sv_controller s) \<and>
           sv_connections s2 a = Some cn \<and> cn_conn cn = Some sk \<and> sv_sent s2 sk = [q]"
proof -
  let ?cn = "Connection CONNECTED PROCESS (Some a) (Some sk) [] 0"
  obtain q m' where q: "length q = BUF_SIZE" "parse q = Inr (ProcessConnectionPtr m')" "process_name m' = ''CORRECT''"
      "handle_message sk w s = Inr ([], sock_send sk q ((set_connection a ?cn s)\<lparr>sv_context := (sv_context s)(sk \<mapsto> a)\<rparr>))"
    using server_registers [OF s(1,2) a w] by blast
  define s1 where "s1 = sock_send sk q ((set_connection a ?cn s)\<lparr>sv_context := (sv_context s)(sk \<mapsto> a)\<rparr>)"
  have s1: "sv_context s1 sk = Some a" "sv_connections s1 a = Some ?cn" "sv_buffers s1 = []" "cn_bytes_to_read ?cn = 0"
      "sv_sent s1 sk = [q]" "sv_controller s1 = sv_controller s"
    using s by (simp_all add: s1_def Connection_def sock_send_def)
  have fs: "list_all (is_frame ?cn) [(h, d)]" "(h @ d) @ [] = byte_stream [(h, d)]"
    using h by (simp_all add: is_frame_def payload_length_def accepts_def Connection_def)
  obtain cn' where rc: "handle_message sk (h @ d) s1 = Inr ([], delivered a ?cn cn' [(h, d)] s1)" "same_peer ?cn cn'"
    using handle_message_boundary [OF s1(1-4) fs] by auto
  let ?s2 = "delivered a ?cn cn' [(h, d)] s1"
  have s2: "sv_connections ?s2 a = Some cn'" "cn_conn cn' = Some sk" "sv_sent ?s2 sk = [q]"
    using rc(2) s1(5) by (auto simp: same_peer_def reading_def delivered_def set_connection_def Connection_def)
  have "sv_controller ?s2 = deliver
      [\<lparr>em_source_type = PROCESS, em_source = Some a, em_msg = h, em_payload = payload_buffer_of d\<rparr>] (sv_controller s)"
    using s1(6) by (simp add: incoming_def Connection_def delivered_def)
  with q rc(1) s2 show ?thesis unfolding s1_def [symmetric] by blast
qed

text \<open>A client's session, with whatever the controller does between the request and the result.\<close>

lemma sdk_session:
  assumes s: "sv_context s sk = None" "sv_connections s ''DATAPLANE'' = None" "sv_buffers s = []" "sv_sent s sk = []"
    and names: "name_ok fname" "no_nul iid" "length iid \<le> ID_LENGTH" and len: "length d < 2 ^ 31"
  shows "\<exists>w s1 h s2 r.
           handle_message sk w s = Inr ([], s1) \<and> handle_message sk (h @ d) s1 = Inr ([], s2) \<and>
           sv_controller s2 = deliver
             [\<lparr>em_source_type = PROCESS, em_source = Some ''DATAPLANE'', em_msg = h, em_payload = payload_buffer_of d\<rparr>] (sv_controller s) \<and>
           parse h = Inr (InvocationRequestPtr r) \<and> function_name r = fname \<and> invocation_id r = iid \<and>
           (\<forall>c code out. length out < 2 ^ 31 \<longrightarrow> sint code \<noteq> - (2 ^ 31) \<longrightarrow>
             (\<exists>s3 p1 p2. perform_call (ServerInvocationResult PROCESS (Some ''DATAPLANE'') iid code out) (s2\<lparr>sv_controller := c\<rparr>) = Inr s3 \<and>
                sdk_connect (Some (concat (sv_sent s3 sk))) p = Inr (True, p1) \<and> sp_out p1 = [w] \<and>
                sdk_invoke fname iid d p1 = Inr (outcome code out, p2) \<and> concat (sp_out p2) = w @ h @ d \<and> sp_in p2 = []))"
proof -
  let ?a = "''DATAPLANE''"
  obtain req m where req: "set_process_name ?a (ProcessConnection MessageData_default) = Inr req"
      "length (msg_data req) = BUF_SIZE" "parse (msg_data req) = Inr (ProcessConnectionPtr m)" "process_name m = ?a"
    using named_message_ok [of ?a] by (auto simp: name_ok_def no_nul_def)
  have a: "?a \<noteq> DATAPLANE_ID" "?a \<noteq> CONTROLPLANE_ID" by (simp_all add: DATAPLANE_ID_def CONTROLPLANE_ID_def)
  obtain h r where h: "sdk_request fname iid (length d) = Inr h" "length h = BUF_SIZE" "parse h = Inr (InvocationRequestPtr r)"
      "size_of_i32 (payload_size r) = length d" "function_name r = fname" "invocation_id r = iid"
    using sdk_request_ok [OF names len] by blast
  from server_takes_call [OF s a req(2-4) h(2-4)] obtain q m' s1 s2 cn where
    q: "length q = BUF_SIZE" "parse q = Inr (ProcessConnectionPtr m')" "process_name m' = ''CORRECT''" and
    sv: "handle_message sk (msg_data req) s = Inr ([], s1)" "handle_message sk (h @ d) s1 = Inr ([], s2)"
      "sv_controller s2 = deliver
        [\<lparr>em_source_type = PROCESS, em_source = Some ?a, em_msg = h, em_payload = payload_buffer_of d\<rparr>] (sv_controller s)" and
    s2: "sv_connections s2 ?a = Some cn" "cn_conn cn = Some sk" "sv_sent s2 sk = [q]"
    by blast
  have answer: "\<exists>s3 p1 p2. perform_call (ServerInvocationResult PROCESS (Some ?a) iid code out) (s2\<lparr>sv_controller := c\<rparr>) = Inr s3 \<and>
      sdk_connect (Some (concat (sv_sent s3 sk))) p = Inr (True, p1) \<and> sp_out p1 = [msg_data req] \<and>
      sdk_invoke fname iid d p1 = Inr (outcome code out, p2) \<and> concat (sp_out p2) = msg_data req @ h @ d \<and> sp_in p2 = []"
    if out: "length out < 2 ^ 31" "sint code \<noteq> - (2 ^ 31)" for c code out
  proof -
    obtain s3 g mr where s3: "perform_call (ServerInvocationResult PROCESS (Some ?a) iid code out) (s2\<lparr>sv_controller := c\<rparr>) = Inr s3"
        "concat (sv_sent s3 sk) = q @ g @ out" "length g = BUF_SIZE" "parse g = Inr (InvocationResultPtr mr)"
        "return_code mr = code" "total_length mr = i32_of_size (length out)"
      using perform_result [of "s2\<lparr>sv_controller := c\<rparr>" ?a cn sk iid PROCESS "Some ?a" code out] s2 names(2,3) by auto
    let ?p1 = "p\<lparr>sp_open := True, sp_in := g @ out, sp_out := [msg_data req]\<rparr>"
    have "sdk_connect (Some (concat (sv_sent s3 sk))) p = Inr (True, ?p1)"
      unfolding s3(2) by (rule sdk_connect_ok [OF q(1-3) req(1)])
    moreover obtain p2 where "sdk_invoke fname iid d ?p1 = Inr (outcome code out, p2)" "concat (sp_out p2) = msg_data req @ h @ d" "sp_in p2 = []"
      using sdk_invoke_ok [OF _ _ s3(3-6) out h(1), of ?p1] by auto
    ultimately show ?thesis using s3(1)
      by (intro exI [of _ s3] exI [of _ ?p1] exI [of _ p2]) simp
  qed
  show ?thesis
    by (rule exI [of _ "msg_data req"], rule exI [of _ s1], rule exI [of _ h], rule exI [of _ s2], rule exI [of _ r])
       (intro conjI sv h(3,5,6) allI impI answer)
qed

section \<open>Client and control plane\<close>

definition slash_free :: "string \<Rightarrow> bool" where
  "slash_free n \<longleftrightarrow> CHR ''/'' \<notin> set n"

lemma segments_plain: "slash_free n \<Longrightarrow> segments n = [n]"
  by (induction n) (auto simp: slash_free_def)

lemma segments_slash: "slash_free n \<Longrightarrow> segments (n @ CHR ''/'' # rest) = n # segments rest"
  by (induction n) (auto simp: slash_free_def)

lemma routes:
  assumes "slash_free app" and "slash_free name"
  shows "route_of (create_application_request app res) = Some (RouteCreateApp app)"
    and "route_of (create_process_request app name vcpus memory) = Some (RouteCreateProcess app name)"
    and "route_of (invoke_request_http app name d) = Some (RouteInvoke app name)"
  using assms
  by (simp_all add: route_of_def create_application_request_def create_process_request_def invoke_request_http_def
      segments_plain segments_slash)



text \<open>
  A process that could not be allocated is reported to the caller as a process without an address:
  the library looks at the transport and not at the status of the reply.
\<close>

lemma sdk_accepts_failed_process:
  "run_creation_callback (DescribeProcess cl) (Some msg) uuid p = Inr p' \<Longrightarrow>
     \<exists>r. pr_responses p' = pr_responses p @ [(cl, r)] \<and> hp_status (reply_of r) = 500 \<and>
       create_process_reply (Some (reply_of r)) = Inr (Some (sdk_Process [] 0 False))"
  by (auto simp: respond_def create_process_reply_def empty_document_def Let_def)

end
