(* ===== verification/Serving.thy ===== *)
theory Serving
  imports Control_Application
begin

text \<open>
  Where processes run: the Docker backend of the control plane
  (\<^verbatim>\<open>src/control-plane/src/backend.cpp\<close>) and the serving daemon it talks to
  (\<^verbatim>\<open>src/serving/src/server.cpp\<close>, \<^verbatim>\<open>containers.cpp\<close>). The daemon turns a request of the control plane
  into requests to a Docker engine; each request is recorded with the callback that was registered
  for its reply, and a reply is a step of its own. The engine is not part of the program: its
  replies are arguments. No reply, when the engine cannot be reached, is None. A member that is missing in a
  document reads as the empty string.
\<close>

section \<open>State\<close>

record serving_options =
  so_max_processes :: int32
  so_http_port :: int32
  so_server_ip :: string
  so_docker_port :: int32
  so_process_port :: int32
  so_threads :: int32
  so_verbose :: bool

record sg_process =
  sg_process_id :: string
  sg_container_id :: string

datatype docker_request =
    ContainerCreate string string "string list" string
  | ContainerStart string
  | ContainerInspect string
  | ContainerStop string string
  | ImageCreate string

text \<open>The callback registered for a reply, with the client whose request it serves.\<close>

datatype continuation =
    AfterCreate nat string
  | AfterStart nat string string
  | AfterInspect nat string string
  | AfterStop nat string string
  | AfterPull nat string
  | CountDown

text \<open>The replies of the engine: status, the members Id and HostPort of the document, and the body.\<close>

record docker_reply =
  dr_status :: nat
  dr_document :: "(string \<times> string) option"
  dr_body :: string

datatype serving_reply =
    ServingFailed string nat
  | ServingCreated string string string string int32
  | ServingStatus string
  | ServingImage string string nat

record serving =
  sg_opts :: serving_options
  sg_processes :: "string \<Rightarrow> sg_process option"
  sg_requests :: "(docker_request \<times> continuation) list"
  sg_replies :: "(nat \<times> serving_reply) list"
  sg_latch :: nat

definition serving_start :: "serving_options \<Rightarrow> serving" where
  "serving_start opts = \<lparr>sg_opts = opts, sg_processes = Map.empty, sg_requests = [], sg_replies = [], sg_latch = 0\<rparr>"

definition sg_answer :: "nat \<Rightarrow> serving_reply \<Rightarrow> serving \<Rightarrow> serving" where
  "sg_answer cl r s = s\<lparr>sg_replies := sg_replies s @ [(cl, r)]\<rparr>"

definition sg_post :: "docker_request \<Rightarrow> continuation \<Rightarrow> serving \<Rightarrow> serving" where
  "sg_post q k s = s\<lparr>sg_requests := sg_requests s @ [(q, k)]\<rparr>"

section \<open>The table of processes\<close>

definition processes_add :: "string \<Rightarrow> sg_process \<Rightarrow> serving \<Rightarrow> serving result" where
  "processes_add pid p s =
     (if sg_processes s pid = None then Inr (s\<lparr>sg_processes := (sg_processes s)(pid \<mapsto> p)\<rparr>)
      else Inl (ObjectExists pid))"

definition processes_erase :: "string \<Rightarrow> serving \<Rightarrow> serving" where
  "processes_erase pid s = s\<lparr>sg_processes := (sg_processes s)(pid := None)\<rparr>"

section \<open>Requests to the daemon\<close>

definition failed_response :: "string \<Rightarrow> serving_reply" where
  "failed_response reason = ServingFailed reason 500"

definition configure_ports :: "serving \<Rightarrow> string" where
  "configure_ports s = decimal_int (so_process_port (sg_opts s)) @ ''/tcp''"

definition serving_create :: "nat \<Rightarrow> string \<Rightarrow> (string option \<times> string option) option \<Rightarrow> serving \<Rightarrow> serving" where
  "serving_create cl proc req_body s =
     (if proc = [] then sg_answer cl (failed_response ''Missing arguments!'') s
      else case req_body of
             None \<Rightarrow> sg_answer cl (failed_response ''Missing body!'') s
           | Some (Some container_name, Some controlplane_addr) \<Rightarrow>
               sg_post (ContainerCreate proc container_name
                   [''CONTROLPLANE_ADDR='' @ controlplane_addr, ''PROCESS_ID='' @ proc] (configure_ports s)) (AfterCreate cl proc) s
           | Some _ \<Rightarrow> sg_answer cl (failed_response ''Missing arguments in request body!'') s)"

text \<open>A process that is not in the table is answered, and then the empty accessor is read.\<close>

definition serving_kill :: "nat \<Rightarrow> string \<Rightarrow> serving \<Rightarrow> serving result" where
  "serving_kill cl proc s =
     (case sg_processes s proc of
        None \<Rightarrow> Inl UndefinedBehaviour
      | Some p \<Rightarrow> Inr (sg_post (ContainerStop (sg_container_id p) ''SIGINT'') (AfterStop cl proc (sg_container_id p)) s))"

definition cache_image :: "nat \<Rightarrow> string \<Rightarrow> serving \<Rightarrow> serving" where
  "cache_image cl img s = sg_post (ImageCreate img) (AfterPull cl img) s"

section \<open>Replies of the engine\<close>

definition unknown_error :: "docker_reply \<Rightarrow> serving_reply" where
  "unknown_error r = failed_response (''Unknown error! Response: '' @ dr_body r)"

definition after_create :: "nat \<Rightarrow> string \<Rightarrow> docker_reply \<Rightarrow> serving \<Rightarrow> serving result" where
  "after_create cl proc r s =
     (if dr_status r = 409 then Inr (sg_answer cl (failed_response (''Container for process '' @ proc @ '' already exists'')) s)
      else if dr_status r = 201 then
        (case dr_document r of
           None \<Rightarrow> Inl UndefinedBehaviour
         | Some (container_id, _) \<Rightarrow> Inr (sg_post (ContainerStart container_id) (AfterStart cl proc container_id) s))
      else Inr (sg_answer cl (unknown_error r) s))"

definition after_start :: "nat \<Rightarrow> string \<Rightarrow> string \<Rightarrow> docker_reply \<Rightarrow> serving \<Rightarrow> serving result" where
  "after_start cl proc cid r s =
     (if dr_status r = 404
      then Inr (sg_answer cl (failed_response (''Failure - container '' @ cid @ '' for process '' @ proc @ '' no longer exists'')) s)
      else if dr_status r = 204 then
        and_then (processes_add proc \<lparr>sg_process_id = proc, sg_container_id = cid\<rparr> s) (\<lambda>s1.
        Inr (sg_post (ContainerInspect cid) (AfterInspect cl proc cid) s1))
      else Inr (sg_answer cl (unknown_error r) s))"

definition after_inspect :: "nat \<Rightarrow> string \<Rightarrow> string \<Rightarrow> docker_reply \<Rightarrow> serving \<Rightarrow> serving result" where
  "after_inspect cl proc cid r s =
     (if dr_status r = 200 then
        (case dr_document r of
           None \<Rightarrow> Inl UndefinedBehaviour
         | Some (_, host_port) \<Rightarrow>
             and_then (stoi host_port) (\<lambda>pt.
             Inr (sg_answer cl (ServingCreated (''Container for process '' @ proc @ '' created.'') cid proc
                    (so_server_ip (sg_opts s)) pt) s)))
      else Inr (sg_answer cl (unknown_error r) s))"

definition after_stop :: "nat \<Rightarrow> string \<Rightarrow> string \<Rightarrow> docker_reply \<Rightarrow> serving \<Rightarrow> serving result" where
  "after_stop cl proc cid r s =
     (if dr_status r = 404
      then Inr (sg_answer cl (failed_response (''Failure - container '' @ cid @ '' for process '' @ proc @ '' does not exist'')) s)
      else if dr_status r = 204
      then Inr (sg_answer cl (ServingStatus (''Container for process '' @ proc @ '' removed.'')) (processes_erase proc s))
      else Inr (sg_answer cl (unknown_error r) s))"

text \<open>\<^verbatim>\<open>split\<close>, for a delimiter of one character as in its only call: a last empty piece is left out.\<close>

fun split :: "string \<Rightarrow> char \<Rightarrow> string \<Rightarrow> string list" where
  "split cur delimiter [] = (if cur = [] then [] else [cur])"
| "split cur delimiter (c # cs) =
     (if c = delimiter then cur # split [] delimiter cs else split (cur @ [c]) delimiter cs)"

definition contains :: "string \<Rightarrow> string \<Rightarrow> bool" where
  "contains n s = list_ex (\<lambda>i. take (length n) (drop i s) = n) [0 ..< Suc (length s)]"

text \<open>The JSON reader of the library gives the members status and message, or fails.\<close>

definition after_pull :: "(string \<Rightarrow> (string \<times> string) option) \<Rightarrow> nat \<Rightarrow> string \<Rightarrow> docker_reply \<Rightarrow> serving \<Rightarrow> serving result" where
  "after_pull read_json cl img r s =
     (let strings = split [] (CHR 0x0A) (dr_body r) in
      if strings = [] then Inl UndefinedBehaviour
      else Inr (sg_answer cl
        (case read_json (last strings) of
           Some (status, message) \<Rightarrow>
             if contains ''Image is up to date'' status then ServingImage img status 200
             else if contains ''manifest unknown'' message then ServingImage img message 404
             else ServingImage img message 500
         | None \<Rightarrow> ServingImage img (''Couldn't parse the output JSON! JSON: '' @ last strings) 500) s))"

text \<open>
  The callback of a request. All but the one of \<^verbatim>\<open>_kill_all\<close> read the response without looking at the
  result of the transport, also when there is none.
\<close>

definition with_response :: "docker_reply option \<Rightarrow> (docker_reply \<Rightarrow> 'a result) \<Rightarrow> 'a result" where
  "with_response reply f = (case reply of None \<Rightarrow> Inl UndefinedBehaviour | Some r \<Rightarrow> f r)"

fun run_continuation ::
    "(string \<Rightarrow> (string \<times> string) option) \<Rightarrow> continuation \<Rightarrow> docker_reply option \<Rightarrow> serving \<Rightarrow> serving result" where
  "run_continuation rj (AfterCreate cl proc) reply s = with_response reply (\<lambda>r. after_create cl proc r s)"
| "run_continuation rj (AfterStart cl proc cid) reply s = with_response reply (\<lambda>r. after_start cl proc cid r s)"
| "run_continuation rj (AfterInspect cl proc cid) reply s = with_response reply (\<lambda>r. after_inspect cl proc cid r s)"
| "run_continuation rj (AfterStop cl proc cid) reply s = with_response reply (\<lambda>r. after_stop cl proc cid r s)"
| "run_continuation rj (AfterPull cl img) reply s = with_response reply (\<lambda>r. after_pull rj cl img r s)"
| "run_continuation rj CountDown reply s = Inr (s\<lparr>sg_latch := sg_latch s - 1\<rparr>)"

text \<open>The reply to the request at a position of the list.\<close>

definition docker_replies ::
    "(string \<Rightarrow> (string \<times> string) option) \<Rightarrow> nat \<Rightarrow> docker_reply option \<Rightarrow> serving \<Rightarrow> serving result" where
  "docker_replies rj i reply s =
     (if length (sg_requests s) \<le> i then Inr s
      else run_continuation rj (snd (sg_requests s ! i)) reply
             (s\<lparr>sg_requests := take i (sg_requests s) @ drop (Suc i) (sg_requests s)\<rparr>))"

text \<open>
  Shutting down stops the containers of all processes; the first argument lists the table in the
  order in which it is enumerated. The entries are moved out of the table, which keeps their keys.
\<close>

definition kill_all :: "string list \<Rightarrow> serving \<Rightarrow> serving" where
  "kill_all ids s =
     (let procs = List.map_filter (sg_processes s) ids in
      fold (\<lambda>p. sg_post (ContainerStop (sg_container_id p) ''SIGINT'') CountDown) procs
        (s\<lparr>sg_processes := map_option (\<lambda>_. \<lparr>sg_process_id = [], sg_container_id = []\<rparr>) \<circ> sg_processes s,
           sg_latch := length procs\<rparr>))"

section \<open>The Docker backend\<close>

record docker_backend =
  db_tcp_ip :: string
  db_tcp_port :: int32

definition configure_tcpserver :: "string \<Rightarrow> int32 \<Rightarrow> docker_backend \<Rightarrow> docker_backend" where
  "configure_tcpserver ip pt b = b\<lparr>db_tcp_ip := ip, db_tcp_port := pt\<rparr>"

definition docker_max_memory :: real where "docker_max_memory = 1024"
definition docker_max_vcpus :: real where "docker_max_vcpus = 1"

definition allocate_request :: "docker_backend \<Rightarrow> cp_application \<Rightarrow> (string option \<times> string option) option" where
  "allocate_request b app = Some (Some (ap_code_resource app), Some (db_tcp_ip b @ '':'' @ decimal_int (db_tcp_port b)))"

fun serving_status :: "serving_reply \<Rightarrow> nat" where
  "serving_status (ServingFailed reason st) = st"
| "serving_status (ServingCreated st cid pid ip pt) = 200"
| "serving_status (ServingStatus st) = 200"
| "serving_status (ServingImage img st code) = code"

text \<open>
  The callback of \<^verbatim>\<open>allocate_process\<close>: an instance, or the reason it failed. The text of a reply is
  printed by a library.
\<close>

definition allocate_reply :: "(serving_reply \<Rightarrow> string) \<Rightarrow> string \<Rightarrow> serving_reply option \<Rightarrow> process_instance + string" where
  "allocate_reply print_reply name reply =
     (case reply of
        None \<Rightarrow> Inr ''Unknown error!''
      | Some response \<Rightarrow>
          if serving_status response = 500
          then Inr (''Process '' @ name @ '' could not be created, reason: '' @ print_reply response)
          else if serving_status response = 200
          then Inl (case response of
                      ServingCreated st cid pid ip pt \<Rightarrow> \<lparr>pi_ip_address = ip, pi_port = pt, pi_container_id = cid\<rparr>
                    | _ \<Rightarrow> \<lparr>pi_ip_address = [], pi_port = 0, pi_container_id = []\<rparr>)
          else Inr (''Unknown error! Response: '' @ print_reply response))"

definition backend_finishes ::
    "(serving_reply \<Rightarrow> string) \<Rightarrow> nat \<Rightarrow> serving_reply option \<Rightarrow> string \<Rightarrow> app_world \<Rightarrow> app_world result" where
  "backend_finishes print_reply pid reply uuid w =
     (case aw_store w pid of
        None \<Rightarrow> Inl UndefinedBehaviour
      | Some p \<Rightarrow>
          (case allocate_reply print_reply (pr_name p) reply of
             Inl inst \<Rightarrow> app_allocated pid inst uuid w
           | Inr msg \<Rightarrow> app_allocation_failed pid msg uuid w))"

section \<open>The Fargate backend\<close>

text \<open>
  The clients of the AWS library are not part of the program; what they answer is an argument. An
  outcome is a result or the message of an error.
\<close>

datatype 'a aws_outcome = AwsSuccess 'a | AwsError string

record fargate_instance =
  fi_ip_address :: string
  fi_port :: int32
  fi_container_id :: string
  fi_cluster_name :: string
  fi_eni_interface :: string

record run_task_request =
  tk_cluster :: string
  tk_task_definition :: string
  tk_subnet :: string
  tk_cpu :: string
  tk_memory :: string
  tk_environment :: "(string \<times> string) list"

definition fargate_max_memory :: real where "fargate_max_memory = 120"
definition fargate_max_vcpus :: real where "fargate_max_vcpus = 16384"

definition fargate_task ::
    "docker_backend \<Rightarrow> string \<Rightarrow> string \<Rightarrow> cp_application \<Rightarrow> cp_process \<Rightarrow> proc_resources \<Rightarrow> run_task_request" where
  "fargate_task b cluster subnet app p res =
     \<lparr>tk_cluster = cluster, tk_task_definition = ap_code_resource app, tk_subnet = subnet,
      tk_cpu = rs_vcpus res, tk_memory = rs_memory res,
      tk_environment = [(''CONTROLPLANE_ADDR'', db_tcp_ip b @ '':'' @ decimal_int (db_tcp_port b)), (''PROCESS_ID'', pr_name p)]\<rparr>"

text \<open>The callback of the task: the library's list of tasks is read at its front.\<close>

definition fargate_reply :: "string \<Rightarrow> string list aws_outcome \<Rightarrow> (fargate_instance + string) result" where
  "fargate_reply cluster outcome =
     (case outcome of
        AwsSuccess tasks \<Rightarrow>
          (case tasks of
             [] \<Rightarrow> Inl UndefinedBehaviour
           | arn # _ \<Rightarrow> Inr (Inl \<lparr>fi_ip_address = [], fi_port = 8000, fi_container_id = arn, fi_cluster_name = cluster,
                                 fi_eni_interface = []\<rparr>))
      | AwsError msg \<Rightarrow> Inr (Inr (''Fargate error: '' @ msg)))"

text \<open>The details of the first attachment of the first task; the last interface that is named counts.\<close>

fun find_eni :: "string \<Rightarrow> (string \<times> string) list \<Rightarrow> string" where
  "find_eni eni [] = eni"
| "find_eni eni ((name, v) # details) = find_eni (if name = ''networkInterfaceId'' then v else eni) details"

definition no_eni :: "fargate_instance \<Rightarrow> string" where
  "no_eni inst = ''Couldn't query the ENI interface of task '' @ fi_container_id inst"

definition callback_task_describe ::
    "(string \<times> string) list list list aws_outcome \<Rightarrow> fargate_instance \<Rightarrow> string option \<times> fargate_instance" where
  "callback_task_describe outcome inst =
     (case outcome of
        AwsError msg \<Rightarrow> (Some (no_eni inst @ '', error '' @ msg), inst)
      | AwsSuccess tasks \<Rightarrow>
          (case tasks of
             [] \<Rightarrow> (Some (no_eni inst), inst)
           | attachments # _ \<Rightarrow>
               (case attachments of
                  [] \<Rightarrow> (Some (no_eni inst), inst)
                | details # _ \<Rightarrow>
                    let inst1 = inst\<lparr>fi_eni_interface := find_eni (fi_eni_interface inst) details\<rparr> in
                    if fi_eni_interface inst1 = [] then (Some (no_eni inst1), inst1) else (None, inst1))))"

definition callback_describe_eni :: "string list aws_outcome \<Rightarrow> fargate_instance \<Rightarrow> string option \<times> fargate_instance" where
  "callback_describe_eni outcome inst =
     (case outcome of
        AwsSuccess interfaces \<Rightarrow>
          (case interfaces of
             [] \<Rightarrow> (Some (''Couldn't query the IP address of ENI interface '' @ fi_eni_interface inst), inst)
           | ip # _ \<Rightarrow> (None, inst\<lparr>fi_ip_address := ip\<rparr>))
      | AwsError msg \<Rightarrow> (Some (''Fargate initialization failed, reason: '' @ msg), inst))"

text \<open>
  The whole of \<^verbatim>\<open>connect\<close>, with the two queries to AWS as functions of the cluster and the task, and of
  the interface: the error the callback is given, and the instance afterwards.
\<close>

definition fargate_connect ::
    "(string \<Rightarrow> string \<Rightarrow> (string \<times> string) list list list aws_outcome) \<Rightarrow> (string \<Rightarrow> string list aws_outcome) \<Rightarrow>
     fargate_instance \<Rightarrow> string option \<times> fargate_instance" where
  "fargate_connect describe_tasks describe_interfaces inst =
     (case callback_task_describe (describe_tasks (fi_cluster_name inst) (fi_container_id inst)) inst of
        (Some msg, inst1) \<Rightarrow> (Some msg, inst1)
      | (None, inst1) \<Rightarrow> callback_describe_eni (describe_interfaces (fi_eni_interface inst1)) inst1)"

section \<open>Choosing a backend and a place for swapped processes\<close>

datatype backend_type = NO_BACKEND | DOCKER | AWS_FARGATE | AWS_LAMBDA

definition backend_deserialize :: "string \<Rightarrow> backend_type" where
  "backend_deserialize mode =
     (if mode = ''docker'' then DOCKER
      else if mode = ''aws_fargate'' then AWS_FARGATE
      else if mode = ''aws_lambda'' then AWS_LAMBDA
      else NO_BACKEND)"

text \<open>\<^verbatim>\<open>Backend::construct\<close>: whether the Fargate backend is compiled in is the first argument.\<close>

definition backend_construct :: "bool \<Rightarrow> backend_type \<Rightarrow> backend_type option" where
  "backend_construct with_fargate t =
     (if t = DOCKER then Some DOCKER
      else if with_fargate \<and> t = AWS_FARGATE then Some AWS_FARGATE
      else None)"

text \<open>\<^verbatim>\<open>operator/\<close> of paths: an absolute part replaces what is on its left.\<close>

definition path_append :: "string \<Rightarrow> string \<Rightarrow> string" where
  "path_append p q =
     (if q \<noteq> [] \<and> hd q = CHR ''/'' then q
      else if p = [] \<or> last p = CHR ''/'' then p @ q else p @ ''/'' @ q)"

definition disk_path :: "string \<Rightarrow> string \<Rightarrow> string" where
  "disk_path fs_path pname = path_append (path_append fs_path ''swaps'') pname"

section \<open>Requests are answered once\<close>

fun client_of :: "continuation \<Rightarrow> nat option" where
  "client_of (AfterCreate cl proc) = Some cl"
| "client_of (AfterStart cl proc cid) = Some cl"
| "client_of (AfterInspect cl proc cid) = Some cl"
| "client_of (AfterStop cl proc cid) = Some cl"
| "client_of (AfterPull cl img) = Some cl"
| "client_of CountDown = None"

definition waiting :: "serving \<Rightarrow> nat list" where
  "waiting s = List.map_filter (client_of \<circ> snd) (sg_requests s)"

definition answered :: "serving \<Rightarrow> nat list" where
  "answered s = map fst (sg_replies s)"

text \<open>The request that belongs to a callback, with the names it uses.\<close>

fun belongs :: "docker_request \<times> continuation \<Rightarrow> bool" where
  "belongs (ContainerCreate name img env ports, AfterCreate cl proc) \<longleftrightarrow> name = proc \<and> proc \<noteq> []"
| "belongs (ContainerStart c, AfterStart cl proc cid) \<longleftrightarrow> c = cid \<and> proc \<noteq> []"
| "belongs (ContainerInspect c, AfterInspect cl proc cid) \<longleftrightarrow> c = cid \<and> proc \<noteq> []"
| "belongs (ContainerStop c sig, AfterStop cl proc cid) \<longleftrightarrow> c = cid"
| "belongs (ContainerStop c sig, CountDown) \<longleftrightarrow> True"
| "belongs (ImageCreate img, AfterPull cl img') \<longleftrightarrow> img = img'"
| "belongs _ \<longleftrightarrow> False"

definition serving_inv :: "serving \<Rightarrow> bool" where
  "serving_inv s \<longleftrightarrow>
     distinct (answered s @ waiting s) \<and> list_all belongs (sg_requests s) \<and>
     (\<forall>pid p. sg_processes s pid = Some p \<longrightarrow> sg_process_id p = pid \<and> pid \<noteq> [])"

text \<open>Requests of new clients, and replies of the engine in any order.\<close>

inductive serving_step :: "serving \<Rightarrow> serving \<Rightarrow> bool" where
  serve_create: "cl \<notin> set (answered s @ waiting s) \<Longrightarrow> serving_step s (serving_create cl proc body s)"
| serve_kill: "cl \<notin> set (answered s @ waiting s) \<Longrightarrow> serving_kill cl proc s = Inr s' \<Longrightarrow> serving_step s s'"
| serve_cache: "cl \<notin> set (answered s @ waiting s) \<Longrightarrow> serving_step s (cache_image cl img s)"
| serve_reply: "docker_replies rj i reply s = Inr s' \<Longrightarrow> serving_step s s'"

lemma serving_fields [simp]:
  "waiting (sg_answer cl r s) = waiting s" "answered (sg_answer cl r s) = answered s @ [cl]"
  "sg_requests (sg_answer cl r s) = sg_requests s" "sg_processes (sg_answer cl r s) = sg_processes s"
  "answered (sg_post q k s) = answered s" "sg_processes (sg_post q k s) = sg_processes s"
  "sg_requests (sg_post q k s) = sg_requests s @ [(q, k)]"
  "waiting (sg_post q k s) = waiting s @ (case client_of k of None \<Rightarrow> [] | Some cl \<Rightarrow> [cl])"
  "waiting (s\<lparr>sg_processes := t\<rparr>) = waiting s" "answered (s\<lparr>sg_processes := t\<rparr>) = answered s"
  "answered (s\<lparr>sg_requests := qs\<rparr>) = answered s"
  by (simp_all add: waiting_def answered_def sg_answer_def sg_post_def List.map_filter_def split: option.split)

lemma serving_new_inv:
  assumes "serving_inv s" and "cl \<notin> set (answered s @ waiting s)"
  shows "serving_inv (sg_answer cl r s)" and "belongs (q, k) \<Longrightarrow> client_of k = Some cl \<Longrightarrow> serving_inv (sg_post q k s)"
  using assms by (auto simp: serving_inv_def)

text \<open>Taking a request off the list leaves its client neither waiting nor answered.\<close>

lemma request_taken:
  assumes "serving_inv s" and "i < length (sg_requests s)" and "sg_requests s ! i = (q, k)"
  defines "s1 \<equiv> s\<lparr>sg_requests := take i (sg_requests s) @ drop (Suc i) (sg_requests s)\<rparr>"
  shows "serving_inv s1" and "belongs (q, k)" and "client_of k = Some cl \<Longrightarrow> cl \<notin> set (answered s1 @ waiting s1)"
    and "set (waiting s) = set (waiting s1) \<union> set_option (client_of k)"
proof -
  have split: "sg_requests s = take i (sg_requests s) @ (q, k) # drop (Suc i) (sg_requests s)"
    using assms(2,3) by (metis id_take_nth_drop)
  have w: "waiting s = List.map_filter (client_of \<circ> snd) (take i (sg_requests s)) @
      (case client_of k of None \<Rightarrow> [] | Some cl \<Rightarrow> [cl]) @ List.map_filter (client_of \<circ> snd) (drop (Suc i) (sg_requests s))"
    unfolding waiting_def by (subst split) (simp add: List.map_filter_def split: option.split)
  have w1: "waiting s1 = List.map_filter (client_of \<circ> snd) (take i (sg_requests s)) @
      List.map_filter (client_of \<circ> snd) (drop (Suc i) (sg_requests s))"
    by (simp add: waiting_def s1_def List.map_filter_def)
  show "set (waiting s) = set (waiting s1) \<union> set_option (client_of k)"
    unfolding w w1 by (auto split: option.split)
  have all: "list_all belongs (take i (sg_requests s) @ (q, k) # drop (Suc i) (sg_requests s))"
    using assms(1) split by (metis serving_inv_def)
  then show "belongs (q, k)" by simp
  have d: "distinct (answered s @ waiting s)" using assms(1) by (simp add: serving_inv_def)
  then show "serving_inv s1" using assms(1) all unfolding serving_inv_def w w1
    by (auto simp: s1_def split: option.splits)
  show "cl \<notin> set (answered s1 @ waiting s1)" if "client_of k = Some cl"
    using d that unfolding w w1 by (auto simp: s1_def)
qed


lemma continuation_step:
  assumes "run_continuation rj k reply s = Inr s'"
  obtains (answer) cl r t where "client_of k = Some cl"
      "s' = sg_answer cl r (s\<lparr>sg_processes := t\<rparr>)" "\<And>pid p. t pid = Some p \<Longrightarrow> sg_processes s pid = Some p"
  | (start) cl proc cid where "k = AfterCreate cl proc" "s' = sg_post (ContainerStart cid) (AfterStart cl proc cid) s"
  | (inspect) cl proc cid where "k = AfterStart cl proc cid" "sg_processes s proc = None"
      "s' = sg_post (ContainerInspect cid) (AfterInspect cl proc cid)
              (s\<lparr>sg_processes := (sg_processes s)(proc \<mapsto> \<lparr>sg_process_id = proc, sg_container_id = cid\<rparr>)\<rparr>)"
  | (count) "k = CountDown" "s' = s\<lparr>sg_latch := sg_latch s - 1\<rparr>"
proof -
  have plain: thesis if "client_of k = Some cl" "s' = sg_answer cl r s" for cl r
    using answer [of cl r "sg_processes s"] that by simp
  note post = with_response_def and_then_eq_Inr processes_add_def
  show thesis
  proof (cases k)
    case (AfterCreate cl proc)
    with assms show thesis
      by (auto simp: post after_create_def split: option.splits if_splits intro: plain start)
  next
    case (AfterStart cl proc cid)
    with assms show thesis
      by (auto simp: post after_start_def split: option.splits if_splits intro: plain inspect)
  next
    case (AfterInspect cl proc cid)
    with assms obtain r where "s' = sg_answer cl r s"
      by (auto simp: post after_inspect_def split: option.splits if_splits)
    with AfterInspect show thesis by (auto intro: plain)
  next
    case (AfterStop cl proc cid)
    with assms show thesis
      by (auto simp: post after_stop_def processes_erase_def split: option.splits if_splits
          intro: answer [of cl _ "(sg_processes s)(proc := None)"] plain)
  next
    case (AfterPull cl img)
    with assms show thesis
      by (auto simp: post after_pull_def Let_def split: option.splits if_splits intro: plain)
  next
    case CountDown
    with assms show thesis by (auto intro: count)
  qed
qed


lemma serving_step_inv:
  assumes "serving_inv s" and "serving_step s s'"
  shows "serving_inv s'"
  using assms(2)
proof cases
  case (serve_create cl proc body)
  then show ?thesis using serving_new_inv [OF assms(1), of cl]
    by (cases body) (auto simp: serving_create_def split: option.split)
next
  case (serve_kill cl proc)
  then show ?thesis using serving_new_inv(2) [OF assms(1), of cl]
    by (auto simp: serving_kill_def split: option.splits)
next
  case (serve_cache cl img)
  then show ?thesis using serving_new_inv(2) [OF assms(1), of cl] by (simp add: cache_image_def)
next
  case (serve_reply rj i reply)
  show ?thesis
  proof (cases "i < length (sg_requests s)")
    case True
    obtain q k where qk: "sg_requests s ! i = (q, k)" by fastforce
    let ?s1 = "s\<lparr>sg_requests := take i (sg_requests s) @ drop (Suc i) (sg_requests s)\<rparr>"
    note t = request_taken [OF assms(1) True qk]
    have "run_continuation rj k reply ?s1 = Inr s'" using serve_reply True qk by (simp add: docker_replies_def)
    then show ?thesis
    proof (cases rule: continuation_step)
      case (answer cl r tab)
      with t(1) have "serving_inv (?s1\<lparr>sg_processes := tab\<rparr>)" by (auto simp: serving_inv_def)
      with answer t(3) show ?thesis by (auto intro: serving_new_inv(1))
    next
      case (start cl proc cid)
      with t(2) have "proc \<noteq> []" by (cases q) auto
      with start t show ?thesis by (auto intro!: serving_new_inv(2))
    next
      case (inspect cl proc cid)
      with t(2) have "proc \<noteq> []" by (cases q) auto
      with inspect t(1) have "serving_inv (?s1\<lparr>sg_processes := (sg_processes ?s1)(proc \<mapsto> \<lparr>sg_process_id = proc, sg_container_id = cid\<rparr>)\<rparr>)"
        by (auto simp: serving_inv_def)
      with inspect t(3) \<open>proc \<noteq> []\<close> show ?thesis by (auto intro!: serving_new_inv(2))
    next
      case count
      with t(1) show ?thesis by (simp add: serving_inv_def waiting_def answered_def)
    qed
  qed (use serve_reply assms(1) in \<open>simp add: docker_replies_def\<close>)
qed

interpretation serving_run: invariant_machine "\<lambda>s. \<exists>opts. s = serving_start opts" serving_step serving_inv
proof
  show "serving_inv s" if "\<exists>opts. s = serving_start opts" for s
    using that by (auto simp: serving_inv_def serving_start_def waiting_def answered_def)
qed (rule serving_step_inv)

section \<open>Requests are answered after a bounded number of replies\<close>

fun stage :: "continuation \<Rightarrow> nat" where
  "stage (AfterCreate cl proc) = 3"
| "stage (AfterStart cl proc cid) = 2"
| "stage _ = 1"

definition pending_replies :: "serving \<Rightarrow> nat" where
  "pending_replies s = sum_list (map (stage \<circ> snd) (sg_requests s))"

lemma pending_fields [simp]:
  "pending_replies (sg_answer cl r s) = pending_replies s"
  "pending_replies (sg_post q k s) = pending_replies s + stage k"
  "pending_replies (s\<lparr>sg_processes := t\<rparr>) = pending_replies s"
  "pending_replies (s\<lparr>sg_latch := n\<rparr>) = pending_replies s"
  "sg_replies (sg_answer cl r s) = sg_replies s @ [(cl, r)]" "sg_replies (sg_post q k s) = sg_replies s"
  by (simp_all add: pending_replies_def sg_answer_def sg_post_def)

lemma reply_progress:
  assumes "docker_replies rj i reply s = Inr s'" and "i < length (sg_requests s)" and "serving_inv s"
  shows "pending_replies s' < pending_replies s" and "set (answered s @ waiting s) = set (answered s' @ waiting s')"
    and "\<exists>rs. sg_replies s' = sg_replies s @ rs"
proof -
  obtain q k where qk: "sg_requests s ! i = (q, k)" by fastforce
  let ?s1 = "s\<lparr>sg_requests := take i (sg_requests s) @ drop (Suc i) (sg_requests s)\<rparr>"
  note t = request_taken(4) [OF assms(3,2) qk]
  have "sg_requests s = take i (sg_requests s) @ (q, k) # drop (Suc i) (sg_requests s)"
    using assms(2) qk by (metis id_take_nth_drop)
  from arg_cong [OF this, of "\<lambda>qs. sum_list (map (stage \<circ> snd) qs)"]
  have p: "pending_replies s = pending_replies ?s1 + stage k" by (simp add: pending_replies_def)
  have "run_continuation rj k reply ?s1 = Inr s'" using assms(1,2) qk by (simp add: docker_replies_def)
  then have "pending_replies s' < pending_replies s \<and> set (answered s @ waiting s) = set (answered s' @ waiting s') \<and>
      (\<exists>rs. sg_replies s' = sg_replies s @ rs)"
  proof (cases rule: continuation_step)
    case (answer cl r tab)
    then show ?thesis using p t by (cases k) auto
  next
    case (start cl proc cid)
    then show ?thesis using p t by auto
  next
    case (inspect cl proc cid)
    then show ?thesis using p t by auto
  next
    case count
    then show ?thesis using p t by (auto simp: waiting_def answered_def)
  qed
  then show "pending_replies s' < pending_replies s" "set (answered s @ waiting s) = set (answered s' @ waiting s')"
    "\<exists>rs. sg_replies s' = sg_replies s @ rs" by blast+
qed


inductive engine_run :: "(string \<Rightarrow> (string \<times> string) option) \<Rightarrow> nat \<Rightarrow> serving \<Rightarrow> serving \<Rightarrow> bool"
  for rj where
  engine_done: "engine_run rj 0 s s"
| engine_more: "i < length (sg_requests s) \<Longrightarrow> docker_replies rj i reply s = Inr s1 \<Longrightarrow> engine_run rj n s1 s' \<Longrightarrow>
     engine_run rj (Suc n) s s'"

lemma engine_run_bounded:
  "engine_run rj n s s' \<Longrightarrow> serving_inv s \<Longrightarrow>
     n + pending_replies s' \<le> pending_replies s \<and> serving_inv s' \<and> set (answered s @ waiting s) = set (answered s' @ waiting s')"
proof (induction rule: engine_run.induct)
  case (engine_more i s reply s1 n s')
  note p = reply_progress [OF engine_more(2,1,5)]
  have "serving_inv s1" using serving_step_inv [OF engine_more(5) serve_reply [OF engine_more(2)]] .
  with engine_more.IH p(1,2) show ?case by auto
qed simp

section \<open>Properties\<close>


definition example_options :: serving_options where
  "example_options = \<lparr>so_max_processes = 5, so_http_port = 8080, so_server_ip = ''10.0.0.1'', so_docker_port = 2375,
     so_process_port = 8000, so_threads = 1, so_verbose = False\<rparr>"

definition example_serving :: serving where
  "example_serving = serving_create 1 ''p'' (Some (Some ''img'', Some ''10.0.0.2:7000'')) (serving_start example_options)"

lemma example_serving_fields:
  "waiting example_serving = [1]" "length (sg_requests example_serving) = 1" "pending_replies example_serving = 3"
  by (simp_all add: example_serving_def serving_create_def serving_start_def sg_post_def waiting_def List.map_filter_def pending_replies_def)

lemma example_serving_reachable: "reachable (\<lambda>s. \<exists>opts. s = serving_start opts) serving_step example_serving"
  unfolding example_serving_def
  by (rule reachable_step [OF reachable_start]) (auto intro!: serve_create simp: serving_start_def waiting_def answered_def)



definition example_reply :: "nat \<Rightarrow> docker_reply" where
  "example_reply st = \<lparr>dr_status = st, dr_document = Some (''c1'', decimal_int 32768), dr_body = []\<rparr>"


lemmas daemon_simps = serving_create_def docker_replies_def with_response_def after_create_def after_start_def
  after_inspect_def processes_add_def sg_post_def sg_answer_def unknown_error_def failed_response_def

text \<open>
  C19. The Docker backend and the daemon. A process with a new name is allocated by exactly three
  requests to the engine: a container with the image of the application, which is told the address of
  the control plane and the name of the process, its start, and the inspection of its ports. When
  the engine accepts them, the daemon's table holds the container and the application is given
  an instance with the address of the daemon's machine, the port and the container. When the
  engine refuses the container, the table is unchanged and the application is told of a failure.
\<close>

theorem docker_allocation:
  assumes s: "sg_requests s = []" "sg_processes s name = None" and p: "aw_store w pid = Some p" "pr_name p = name" "name \<noteq> []"
    and r: "dr_status r1 = 201" "dr_document r1 = Some (cid, x)" "dr_status r2 = 204" "dr_status r3 = 200"
      "dr_document r3 = Some (y, host_port)" "stoi host_port = Inr port"
    and refused: "dr_status r4 \<noteq> 201" and s1: "s1 = serving_create cl name (allocate_request b app) s"
  shows "map fst (sg_requests s1) =
           [ContainerCreate name (ap_code_resource app)
              [''CONTROLPLANE_ADDR='' @ db_tcp_ip b @ '':'' @ decimal_int (db_tcp_port b), ''PROCESS_ID='' @ name] (configure_ports s)] \<and>
         (\<exists>s2 s3 s4 reply.
            docker_replies rj 0 (Some r1) s1 = Inr s2 \<and> map fst (sg_requests s2) = [ContainerStart cid] \<and>
            docker_replies rj 0 (Some r2) s2 = Inr s3 \<and> map fst (sg_requests s3) = [ContainerInspect cid] \<and>
            docker_replies rj 0 (Some r3) s3 = Inr s4 \<and> sg_requests s4 = [] \<and> sg_replies s4 = sg_replies s @ [(cl, reply)] \<and>
            sg_processes s4 = (sg_processes s)(name \<mapsto> \<lparr>sg_process_id = name, sg_container_id = cid\<rparr>) \<and>
            backend_finishes print_reply pid (Some reply) uuid w =
              app_allocated pid \<lparr>pi_ip_address = so_server_ip (sg_opts s), pi_port = port, pi_container_id = cid\<rparr> uuid w) \<and>
         (\<exists>s5 reply msg.
            docker_replies rj 0 (Some r4) s1 = Inr s5 \<and> sg_requests s5 = [] \<and> sg_replies s5 = sg_replies s @ [(cl, reply)] \<and>
            sg_processes s5 = sg_processes s \<and>
            backend_finishes print_reply pid (Some reply) uuid w = app_allocation_failed pid msg uuid w)"
proof -
  have s1': "s1 = s\<lparr>sg_requests := [(ContainerCreate name (ap_code_resource app)
      [''CONTROLPLANE_ADDR='' @ db_tcp_ip b @ '':'' @ decimal_int (db_tcp_port b), ''PROCESS_ID='' @ name] (configure_ports s),
      AfterCreate cl name)]\<rparr>"
    using s p by (simp add: s1 daemon_simps allocate_request_def)
  show ?thesis unfolding s1' using s p r refused
    by (simp add: daemon_simps backend_finishes_def allocate_reply_def) blast
qed

theorem docker_allocation_witness:
  "\<exists>s2 s3 s4 reply. docker_replies (\<lambda>_. None) 0 (Some (example_reply 201))
       (serving_create 1 ''p'' (allocate_request \<lparr>db_tcp_ip = ''10.0.0.2'', db_tcp_port = 7000\<rparr> (Application ''app'' ''img''))
          (serving_start example_options)) = Inr s2 \<and>
     docker_replies (\<lambda>_. None) 0 (Some (example_reply 204)) s2 = Inr s3 \<and>
     docker_replies (\<lambda>_. None) 0 (Some (example_reply 200)) s3 = Inr s4 \<and> sg_replies s4 = [(1, reply)]"
proof -
  let ?s = "serving_start example_options"
  let ?w = "(app_start ''app'' ''img'')\<lparr>aw_store := [0 \<mapsto> Process ''p'' example_resources]\<rparr>"
  have s: "sg_requests ?s = []" "sg_processes ?s ''p'' = None" "sg_replies ?s = []" by (simp_all add: serving_start_def)
  have p: "aw_store ?w 0 = Some (Process ''p'' example_resources)" "pr_name (Process ''p'' example_resources) = ''p''" "''p'' \<noteq> []"
    by (simp_all add: Process_def)
  have r: "dr_status (example_reply n) = n" "dr_document (example_reply n) = Some (''c1'', decimal_int 32768)" for n
    by (simp_all add: example_reply_def)
  have refused: "dr_status (example_reply 409) \<noteq> 201" by (simp add: r)
  from docker_allocation [where rj = "\<lambda>_. None" and cl = 1 and b = "\<lparr>db_tcp_ip = ''10.0.0.2'', db_tcp_port = 7000\<rparr>"
      and app = "Application ''app'' ''img''", OF s(1,2) p r(1) r(2) r(1) r(1) r(2) stoi_decimal_int refused refl] s(3)
  show ?thesis by (metis append_Nil)
qed

text \<open>
  A container that ends on its own is removed by the engine and stays in the table. When its process
  is created again the engine starts a new container, but the daemon fails with an exception
  before the client is answered.
\<close>

lemma serving_restart_fails:
  assumes "sg_requests s = []" and "sg_processes s name = Some old" and "name \<noteq> []"
    and "dr_status r1 = 201" and "dr_document r1 = Some (cid, x)" and "dr_status r2 = 204"
  shows "\<exists>s2. docker_replies rj 0 (Some r1) (serving_create cl name (Some (Some img, Some addr)) s) = Inr s2 \<and>
           sg_replies s2 = sg_replies s \<and> docker_replies rj 0 (Some r2) s2 = Inl (ObjectExists name)"
  using assms by (simp add: daemon_simps)

text \<open>A Fargate task has an address exactly when both queries succeed and name one.\<close>

lemma fargate_connect_outcome:
  assumes "fi_eni_interface inst = []" and "fargate_connect tasks interfaces inst = (err, inst')"
  shows "err = None \<longleftrightarrow> (\<exists>ts as ds rest eni ip ips. tasks (fi_cluster_name inst) (fi_container_id inst) = AwsSuccess (ts # rest) \<and>
           ts = ds # as \<and> find_eni [] ds = eni \<and> eni \<noteq> [] \<and> interfaces eni = AwsSuccess (ip # ips) \<and> fi_ip_address inst' = ip)"
    and "err \<noteq> None \<Longrightarrow> fi_ip_address inst' = fi_ip_address inst"
  using assms
  by (auto simp: fargate_connect_def callback_task_describe_def callback_describe_eni_def Let_def
      split: aws_outcome.splits list.splits if_splits)

end
