(* ===== verification/Control_Config.thy ===== *)
theory Control_Config
  imports Serving Process_Config
begin

text \<open>
  The configuration of the control plane (\<^verbatim>\<open>src/control-plane/src/config.cpp\<close>, \<^verbatim>\<open>config.hpp\<close>,
  \<^verbatim>\<open>cereal_load_optional\<close> of \<^verbatim>\<open>src/common/include/praas/common/util.hpp\<close>) and the server that is built from
  it (\<^verbatim>\<open>src/control-plane/src/server.cpp\<close>), with the options of the serving daemon
  (\<^verbatim>\<open>src/serving/src/opts.cpp\<close>). The reader of JSON archives is that of \<^verbatim>\<open>Process_Config\<close>.
\<close>

section \<open>Optional sections\<close>

text \<open>
  A section that may be missing. The exception of the library tells a missing section by its text
  only; every other exception, also of a member of the section, is reported as an invalid configuration.
\<close>

definition cereal_load_optional :: "cereal \<Rightarrow> string \<Rightarrow> (json \<Rightarrow> 'a result) \<Rightarrow> 'a \<Rightarrow> json \<Rightarrow> 'a result" where
  "cereal_load_optional ce name load dflt archive =
     (case and_then (nvp ce as_node name archive) load of
        Inr obj \<Rightarrow> Inr obj
      | Inl (CerealException w) \<Rightarrow>
          if contains (''('' @ name @ '') not found'') w then Inr dflt else Inl InvalidConfigurationError
      | Inl e \<Rightarrow> Inl e)"

section \<open>The sections of the configuration\<close>

record http_config =
  hs_port :: int32
  hs_threads :: int32
  hs_max_payload_size :: int32
  hs_enable_ssl :: bool
  hs_ssl_server_cert :: "string option"
  hs_ssl_server_key :: "string option"

definition http_set_defaults :: "http_config \<Rightarrow> http_config" where
  "http_set_defaults h = h\<lparr>hs_threads := 1, hs_enable_ssl := False, hs_port := 8080, hs_max_payload_size := 1024 * 1024\<rparr>"

definition http_load :: "cereal \<Rightarrow> http_config \<Rightarrow> json \<Rightarrow> http_config result" where
  "http_load ce h archive =
     and_then (nvp ce as_int ''threads'' archive) (\<lambda>threads.
     and_then (nvp ce as_int ''port'' archive) (\<lambda>pt.
     and_then (nvp ce as_bool ''enable_ssl'' archive) (\<lambda>enable_ssl.
     let h1 = h\<lparr>hs_threads := threads, hs_port := pt, hs_enable_ssl := enable_ssl\<rparr> in
     if enable_ssl then
       and_then (nvp ce as_text ''ssl_server_key'' archive) (\<lambda>key.
       and_then (nvp ce as_text ''ssl_server_cert'' archive) (\<lambda>cert.
       Inr (h1\<lparr>hs_ssl_server_key := Some key, hs_ssl_server_cert := Some cert\<rparr>)))
     else Inr h1)))"

text \<open>The constructor sets the defaults; the optional members start empty.\<close>

definition http_config_new :: http_config where
  "http_config_new = http_set_defaults \<lparr>hs_port = 0, hs_threads = 0, hs_max_payload_size = 0, hs_enable_ssl = False,
     hs_ssl_server_cert = None, hs_ssl_server_key = None\<rparr>"

record workers_config =
  wk_threads :: int32

definition workers_set_defaults :: workers_config where
  "workers_set_defaults = \<lparr>wk_threads = 1\<rparr>"

definition workers_load :: "cereal \<Rightarrow> json \<Rightarrow> workers_config result" where
  "workers_load ce archive = and_then (nvp ce as_int ''threads'' archive) (\<lambda>threads. Inr \<lparr>wk_threads = threads\<rparr>)"

record downscaler_config =
  ds_polling_interval :: int32
  ds_swapping_threshold :: int32

definition downscaler_set_defaults :: downscaler_config where
  "downscaler_set_defaults = \<lparr>ds_polling_interval = 60, ds_swapping_threshold = 360\<rparr>"

definition downscaler_load :: "cereal \<Rightarrow> json \<Rightarrow> downscaler_config result" where
  "downscaler_load ce archive =
     and_then (nvp ce as_int ''polling_interval'' archive) (\<lambda>pi.
     and_then (nvp ce as_int ''swapping_threshold'' archive) (\<lambda>st.
     Inr \<lparr>ds_polling_interval = pi, ds_swapping_threshold = st\<rparr>))"

record tcpserver_config =
  ts_port :: int32
  ts_io_threads :: int32

definition tcpserver_set_defaults :: tcpserver_config where
  "tcpserver_set_defaults = \<lparr>ts_port = 0, ts_io_threads = 1\<rparr>"

definition tcpserver_load :: "cereal \<Rightarrow> json \<Rightarrow> tcpserver_config result" where
  "tcpserver_load ce archive =
     and_then (nvp ce as_int ''port'' archive) (\<lambda>pt.
     and_then (nvp ce as_int ''io_threads'' archive) (\<lambda>n.
     Inr \<lparr>ts_port = pt, ts_io_threads = n\<rparr>))"

datatype backend_config = BackendDocker string int32 | BackendFargate string

definition docker_set_defaults :: backend_config where
  "docker_set_defaults = BackendDocker ''127.0.0.1'' 8080"

definition docker_load :: "cereal \<Rightarrow> json \<Rightarrow> backend_config result" where
  "docker_load ce archive =
     and_then (nvp ce as_text ''address'' archive) (\<lambda>a.
     and_then (nvp ce as_int ''port'' archive) (\<lambda>pt. Inr (BackendDocker a pt)))"

definition fargate_set_defaults :: backend_config where
  "fargate_set_defaults = BackendFargate []"

definition fargate_load :: "cereal \<Rightarrow> json \<Rightarrow> backend_config result" where
  "fargate_load ce archive = and_then (nvp ce as_text ''fargate_config'' archive) (\<lambda>f. Inr (BackendFargate f))"

section \<open>The configuration\<close>

text \<open>\<^verbatim>\<open>deployment_type\<close> is written by no function of the program.\<close>

record cp_config =
  cf_http :: http_config
  cf_workers :: workers_config
  cf_down_scaler :: downscaler_config
  cf_tcpserver :: tcpserver_config
  cf_backend_type :: backend_type
  cf_backend :: "backend_config option"
  cf_public_ip_address :: string
  cf_http_client_io_threads :: int32
  cf_verbose :: bool

text \<open>The backend is a new object whose members are zero and empty: its defaults are not set.\<close>

definition config_set_defaults :: "cp_config \<Rightarrow> cp_config" where
  "config_set_defaults cfg = cfg\<lparr>cf_backend_type := DOCKER, cf_backend := Some (BackendDocker [] 0),
     cf_public_ip_address := ''127.0.0.1'', cf_http_client_io_threads := 1, cf_http := http_set_defaults (cf_http cfg),
     cf_workers := workers_set_defaults, cf_down_scaler := downscaler_set_defaults, cf_tcpserver := tcpserver_set_defaults\<rparr>"

definition backend_load :: "cereal \<Rightarrow> backend_type \<Rightarrow> backend_config option \<Rightarrow> json \<Rightarrow> backend_config option result" where
  "backend_load ce t old archive =
     (if t = DOCKER then map_sum id Some (cereal_load_optional ce ''backend'' (docker_load ce) docker_set_defaults archive)
      else if t = AWS_FARGATE then map_sum id Some (cereal_load_optional ce ''backend'' (fargate_load ce) fargate_set_defaults archive)
      else Inr old)"

definition config_load :: "cereal \<Rightarrow> cp_config \<Rightarrow> json \<Rightarrow> cp_config result" where
  "config_load ce cfg archive =
     and_then (nvp ce as_bool ''verbose'' archive) (\<lambda>verbose.
     and_then (nvp ce as_text ''backend-type'' archive) (\<lambda>mode.
     and_then (backend_load ce (backend_deserialize mode) (cf_backend cfg) archive) (\<lambda>be.
     and_then (nvp ce as_text ''ip-address'' archive) (\<lambda>ip.
     and_then (nvp ce as_int ''http-client-io-threads'' archive) (\<lambda>n.
     and_then (cereal_load_optional ce ''http'' (http_load ce (cf_http cfg)) (http_set_defaults (cf_http cfg)) archive) (\<lambda>h.
     and_then (cereal_load_optional ce ''workers'' (workers_load ce) workers_set_defaults archive) (\<lambda>w.
     and_then (cereal_load_optional ce ''downscaler'' (downscaler_load ce) downscaler_set_defaults archive) (\<lambda>d.
     and_then (cereal_load_optional ce ''tcpserver'' (tcpserver_load ce) tcpserver_set_defaults archive) (\<lambda>t.
     Inr (cfg\<lparr>cf_verbose := verbose, cf_backend_type := backend_deserialize mode, cf_backend := be, cf_public_ip_address := ip,
          cf_http_client_io_threads := n, cf_http := h, cf_workers := w, cf_down_scaler := d, cf_tcpserver := t\<rparr>))))))))))"

text \<open>The configuration of the command line; the files that can be opened are an argument.\<close>

definition config_deserialize :: "cereal \<Rightarrow> (string \<Rightarrow> json option) \<Rightarrow> cp_config \<Rightarrow> string \<Rightarrow> cp_config result" where
  "config_deserialize ce files cfg config_file =
     (if length config_file > 0 then
        (case files config_file of
           None \<Rightarrow> Inl ProcessExit
         | Some archive \<Rightarrow> config_load ce cfg archive)
      else Inr (config_set_defaults cfg))"

section \<open>The server of the control plane\<close>

text \<open>\<^verbatim>\<open>create_client\<close>: the address a client of the HTTP library is opened for.\<close>

definition create_client :: "string \<Rightarrow> int32 \<Rightarrow> string" where
  "create_client address pt = (if pt \<noteq> - 1 then address @ '':'' @ decimal_int pt else address)"

record cp_server =
  ss_backend :: backend_type
  ss_serving :: "string option"
  ss_tcp :: docker_backend

text \<open>
  The constructor, after the HTTP client has been initialised: the port on which the operating
  system lets the TCP server listen is a function of the port that is asked for. Without a backend
  a null pointer is passed on as a reference.
\<close>

definition server_construct :: "bool \<Rightarrow> (int32 \<Rightarrow> int32) \<Rightarrow> cp_config \<Rightarrow> cp_server result" where
  "server_construct with_fargate listen cfg =
     (case backend_construct with_fargate (cf_backend_type cfg) of
        None \<Rightarrow> Inl UndefinedBehaviour
      | Some t \<Rightarrow>
          and_then
            (case (t, cf_backend cfg) of
               (DOCKER, Some (BackendDocker a pt)) \<Rightarrow> Inr (Some (create_client (''http://'' @ a) pt))
             | (AWS_FARGATE, Some (BackendFargate f)) \<Rightarrow> Inr None
             | _ \<Rightarrow> Inl UndefinedBehaviour) (\<lambda>serving_at.
          Inr \<lparr>ss_backend = t, ss_serving = serving_at,
               ss_tcp = configure_tcpserver (cf_public_ip_address cfg) (listen (ts_port (cf_tcpserver cfg))) \<lparr>db_tcp_ip = [], db_tcp_port = 0\<rparr>\<rparr>))"

section \<open>The options of the serving daemon\<close>

definition serving_options_load :: "cereal \<Rightarrow> serving_options \<Rightarrow> json \<Rightarrow> serving_options result" where
  "serving_options_load ce opts archive =
     and_then (nvp ce as_text ''server-address'' archive) (\<lambda>ip.
     and_then (nvp ce as_int ''http-port'' archive) (\<lambda>hp.
     and_then (nvp ce as_int ''docker-port'' archive) (\<lambda>dp.
     and_then (nvp ce as_int ''process-port'' archive) (\<lambda>pp.
     and_then (nvp ce as_int ''threads'' archive) (\<lambda>th.
     and_then (nvp ce as_int ''max-processes'' archive) (\<lambda>mp.
     Inr (opts\<lparr>so_server_ip := ip, so_http_port := hp, so_docker_port := dp, so_process_port := pp, so_threads := th,
          so_max_processes := mp\<rparr>)))))))"

text \<open>The flag for verbose output is parsed and not stored.\<close>

definition serving_opts :: "cereal \<Rightarrow> (string \<Rightarrow> json option) \<Rightarrow> string \<Rightarrow> bool \<Rightarrow> serving_options option result" where
  "serving_opts ce files config_file verbose =
     (case files config_file of
        None \<Rightarrow> Inr None
      | Some archive \<Rightarrow>
          map_sum id Some (serving_options_load ce
            \<lparr>so_max_processes = 0, so_http_port = 0, so_server_ip = [], so_docker_port = 0, so_process_port = 0,
             so_threads = 0, so_verbose = False\<rparr> archive))"

section \<open>Sections are complete or absent\<close>

text \<open>
  What is relied on of the library: the text about a missing member names it in parentheses and
  names no other member, and the text about a type names none.
\<close>

definition plain :: "string \<Rightarrow> bool" where
  "plain n \<longleftrightarrow> CHR ''('' \<notin> set n \<and> CHR '')'' \<notin> set n"

definition cereal_names :: "cereal \<Rightarrow> bool" where
  "cereal_names ce \<longleftrightarrow>
     (\<forall>n n'. plain n \<longrightarrow> plain n' \<longrightarrow> contains (''('' @ n' @ '') not found'') (what_missing ce n) = (n = n')) \<and>
     (\<forall>n. plain n \<longrightarrow> \<not> contains (''('' @ n @ '') not found'') (what_type ce))"

datatype member_type = TInt | TBool | TText

fun typed :: "member_type \<Rightarrow> json \<Rightarrow> bool" where
  "typed TInt j = (as_int j \<noteq> None)"
| "typed TBool j = (as_bool j \<noteq> None)"
| "typed TText j = (as_text j \<noteq> None)"

type_synonym schema = "(string \<times> member_type) list"

fun complete_section :: "schema \<Rightarrow> json \<Rightarrow> bool" where
  "complete_section sch (JObject ss) \<longleftrightarrow> list_all (\<lambda>(n, t). case map_of ss n of None \<Rightarrow> False | Some v \<Rightarrow> typed t v) sch"
| "complete_section sch _ \<longleftrightarrow> False"

definition section_ok :: "(json \<Rightarrow> schema) \<Rightarrow> string \<Rightarrow> (string \<times> json) list \<Rightarrow> bool" where
  "section_ok sch name ms \<longleftrightarrow> (case map_of ms name of None \<Rightarrow> True | Some j \<Rightarrow> complete_section (sch j) j)"

text \<open>The members of each section; certificates are needed only when they are used.\<close>

fun http_schema :: "json \<Rightarrow> schema" where
  "http_schema (JObject ss) = [(''threads'', TInt), (''port'', TInt), (''enable_ssl'', TBool)] @
     (if map_of ss ''enable_ssl'' = Some (JBool True) then [(''ssl_server_key'', TText), (''ssl_server_cert'', TText)] else [])"
| "http_schema _ = []"

definition backend_schema :: "backend_type \<Rightarrow> schema" where
  "backend_schema t = (if t = DOCKER then [(''address'', TText), (''port'', TInt)] else [(''fargate_config'', TText)])"

text \<open>
  Members are read one after the other; the first that fails is reported. A loader that reads
  exactly the members of a schema, each of which has another name than the section.
\<close>

definition fails_at :: "cereal \<Rightarrow> string \<Rightarrow> 'a result \<Rightarrow> bool" where
  "fails_at ce name r \<longleftrightarrow> r = Inl (CerealException (what_type ce)) \<or>
     (\<exists>n. plain n \<and> n \<noteq> name \<and> r = Inl (CerealException (what_missing ce n)))"

definition outcome_of :: "cereal \<Rightarrow> string \<Rightarrow> bool \<Rightarrow> 'a result \<Rightarrow> bool" where
  "outcome_of ce name ok r \<longleftrightarrow> (if ok then \<exists>x. r = Inr x else fails_at ce name r)"

definition reads :: "cereal \<Rightarrow> (json \<Rightarrow> schema) \<Rightarrow> string \<Rightarrow> (json \<Rightarrow> 'a result) \<Rightarrow> bool" where
  "reads ce sch name load \<longleftrightarrow> (\<forall>ss. outcome_of ce name (complete_section (sch (JObject ss)) (JObject ss)) (load (JObject ss)))"

definition reads_member :: "cereal \<Rightarrow> (string \<times> member_type) \<Rightarrow> (string \<times> json) list \<Rightarrow> 'a result \<Rightarrow> bool" where
  "reads_member ce m ss r \<longleftrightarrow>
     (if complete_section [m] (JObject ss) then \<exists>x. r = Inr x
      else r = Inl (CerealException (what_type ce)) \<or> r = Inl (CerealException (what_missing ce (fst m))))"

lemma nvp_reads:
  "reads_member ce (n, TInt) ss (nvp ce as_int n (JObject ss))"
  "reads_member ce (n, TBool) ss (nvp ce as_bool n (JObject ss))"
  "reads_member ce (n, TText) ss (nvp ce as_text n (JObject ss))"
  by (auto simp: reads_member_def split: option.splits)

lemma outcome_member:
  assumes "reads_member ce m ss r" and "plain (fst m)" and "fst m \<noteq> name"
    and "\<And>x. r = Inr x \<Longrightarrow> outcome_of ce name (complete_section sch (JObject ss)) (f x)"
  shows "outcome_of ce name (complete_section (m # sch) (JObject ss)) (and_then r f)"
  using assms by (auto simp: outcome_of_def fails_at_def reads_member_def and_then_def split: sum.splits if_splits)

lemma outcome_done: "outcome_of ce name (complete_section [] (JObject ss)) (Inr x)"
  by (simp add: outcome_of_def)

lemma readsI: "(\<And>ss. outcome_of ce name (complete_section (sch (JObject ss)) (JObject ss)) (load (JObject ss))) \<Longrightarrow> reads ce sch name load"
  by (simp add: reads_def)

lemma section_loaders:
  "reads ce (\<lambda>_. [(''threads'', TInt)]) ''workers'' (workers_load ce)"
  "reads ce (\<lambda>_. [(''polling_interval'', TInt), (''swapping_threshold'', TInt)]) ''downscaler'' (downscaler_load ce)"
  "reads ce (\<lambda>_. [(''port'', TInt), (''io_threads'', TInt)]) ''tcpserver'' (tcpserver_load ce)"
  "reads ce (\<lambda>_. backend_schema DOCKER) ''backend'' (docker_load ce)"
  "reads ce (\<lambda>_. backend_schema AWS_FARGATE) ''backend'' (fargate_load ce)"
  unfolding workers_load_def downscaler_load_def tcpserver_load_def docker_load_def fargate_load_def backend_schema_def
  by (auto intro!: readsI outcome_member nvp_reads outcome_done simp: plain_def simp del: complete_section.simps nvp.simps)

lemma as_bool_eq: "as_bool j = Some b \<longleftrightarrow> j = JBool b"
  by (cases j) auto

lemma http_loader: "reads ce http_schema ''http'' (http_load ce h)"
proof (rule readsI)
  fix ss
  have ssl: "map_of ss ''enable_ssl'' = Some (JBool b)" if "nvp ce as_bool ''enable_ssl'' (JObject ss) = Inr b" for b
    using that by (auto simp: as_bool_eq split: option.splits)
  show "outcome_of ce ''http'' (complete_section (http_schema (JObject ss)) (JObject ss)) (http_load ce h (JObject ss))"
    unfolding http_load_def http_schema.simps append.simps Let_def
    by (auto intro!: outcome_member nvp_reads outcome_done simp: plain_def simp del: complete_section.simps nvp.simps dest!: ssl)
qed

lemma load_optional_cases:
  assumes ce: "cereal_names ce" and name: "plain name" and load: "reads ce sch name load"
  shows "cereal_load_optional ce name load dflt (JObject ms) =
     (if section_ok sch name ms then (case map_of ms name of None \<Rightarrow> Inr dflt | Some j \<Rightarrow> load j)
      else Inl InvalidConfigurationError)"
proof (cases "map_of ms name")
  case None
  with ce name show ?thesis by (simp add: cereal_load_optional_def section_ok_def cereal_names_def)
next
  case (Some j)
  show ?thesis
  proof (cases j)
    case (JObject ss)
    then have read: "outcome_of ce name (complete_section (sch j) j) (load j)" using load by (simp add: reads_def)
    show ?thesis
    proof (cases "complete_section (sch j) j")
      case True
      then obtain x where "load j = Inr x" using read by (auto simp: outcome_of_def)
      with True Some JObject show ?thesis by (simp add: cereal_load_optional_def section_ok_def as_node_def)
    next
      case False
      then consider "load j = Inl (CerealException (what_type ce))"
        | n where "plain n" "n \<noteq> name" "load j = Inl (CerealException (what_missing ce n))"
        using read by (auto simp: outcome_of_def fails_at_def)
      then show ?thesis
        using False Some JObject ce name by cases (auto simp: cereal_load_optional_def section_ok_def as_node_def cereal_names_def)
    qed
  qed (use Some ce name in \<open>auto simp: cereal_load_optional_def section_ok_def as_node_def cereal_names_def\<close>)
qed

text \<open>What a section, when there is one, says of the object that is loaded; without one there are defaults.\<close>

definition http_says :: "json option \<Rightarrow> http_config \<Rightarrow> bool" where
  "http_says s h \<longleftrightarrow>
     (case s of
        Some (JObject ss) \<Rightarrow>
          map_of ss ''port'' = Some (JInt (hs_port h)) \<and> map_of ss ''threads'' = Some (JInt (hs_threads h)) \<and>
          map_of ss ''enable_ssl'' = Some (JBool (hs_enable_ssl h)) \<and>
          (hs_enable_ssl h \<longrightarrow> map_of ss ''ssl_server_key'' = map_option JString (hs_ssl_server_key h) \<and>
             map_of ss ''ssl_server_cert'' = map_option JString (hs_ssl_server_cert h))
      | _ \<Rightarrow> hs_port h = 8080 \<and> hs_threads h = 1 \<and> \<not> hs_enable_ssl h)"

definition workers_says :: "json option \<Rightarrow> workers_config \<Rightarrow> bool" where
  "workers_says s w \<longleftrightarrow>
     (case s of Some (JObject ss) \<Rightarrow> map_of ss ''threads'' = Some (JInt (wk_threads w)) | _ \<Rightarrow> wk_threads w = 1)"

definition downscaler_says :: "json option \<Rightarrow> downscaler_config \<Rightarrow> bool" where
  "downscaler_says s d \<longleftrightarrow>
     (case s of
        Some (JObject ss) \<Rightarrow> map_of ss ''polling_interval'' = Some (JInt (ds_polling_interval d)) \<and>
          map_of ss ''swapping_threshold'' = Some (JInt (ds_swapping_threshold d))
      | _ \<Rightarrow> ds_polling_interval d = 60 \<and> ds_swapping_threshold d = 360)"

definition tcpserver_says :: "json option \<Rightarrow> tcpserver_config \<Rightarrow> bool" where
  "tcpserver_says s t \<longleftrightarrow>
     (case s of
        Some (JObject ss) \<Rightarrow> map_of ss ''port'' = Some (JInt (ts_port t)) \<and> map_of ss ''io_threads'' = Some (JInt (ts_io_threads t))
      | _ \<Rightarrow> ts_port t = 0 \<and> ts_io_threads t = 1)"

fun backend_says :: "json option \<Rightarrow> backend_config \<Rightarrow> bool" where
  "backend_says (Some (JObject ss)) (BackendDocker a pt) \<longleftrightarrow> map_of ss ''address'' = Some (JString a) \<and> map_of ss ''port'' = Some (JInt pt)"
| "backend_says (Some (JObject ss)) (BackendFargate f) \<longleftrightarrow> map_of ss ''fargate_config'' = Some (JString f)"
| "backend_says _ b \<longleftrightarrow> b = BackendDocker ''127.0.0.1'' 8080 \<or> b = BackendFargate []"

lemma as_text_eq: "as_text j = Some t \<longleftrightarrow> j = JString t"
  by (cases j) auto

lemma as_int_eq: "as_int j = Some i \<longleftrightarrow> j = JInt i"
  by (cases j) auto

lemma nvp_Inr:
  "nvp ce conv n (JObject ss) = Inr x \<longleftrightarrow> (\<exists>v. map_of ss n = Some v \<and> conv v = Some x)"
  by (auto split: option.splits)

lemmas loader_simps = and_then_eq_Inr nvp_Inr as_int_eq as_bool_eq as_text_eq

lemma load_optional_says:
  assumes "cereal_names ce" and "plain name" and "reads ce sch name load" and "section_ok sch name ms"
    and dflt: "says None dflt" and load: "\<And>ss x. load (JObject ss) = Inr x \<Longrightarrow> says (Some (JObject ss)) x"
  shows "\<exists>x. cereal_load_optional ce name load dflt (JObject ms) = Inr x \<and> says (map_of ms name) x"
proof (cases "map_of ms name")
  case None
  with load_optional_cases [OF assms(1-3)] assms(4) dflt show ?thesis by simp
next
  case (Some j)
  with assms(4) have ok: "complete_section (sch j) j" by (simp add: section_ok_def)
  then obtain ss where ss: "j = JObject ss" by (cases j) auto
  with ok assms(3) obtain x where "load j = Inr x" unfolding reads_def outcome_of_def by metis
  with load_optional_cases [OF assms(1-3)] assms(4) Some ss load show ?thesis by simp
qed

text \<open>The contract of a section: it loads when it is complete or absent and is refused otherwise.\<close>

definition section_contract ::
    "cereal \<Rightarrow> (json \<Rightarrow> schema) \<Rightarrow> string \<Rightarrow> (json \<Rightarrow> 'a result) \<Rightarrow> 'a \<Rightarrow> (json option \<Rightarrow> 'a \<Rightarrow> bool) \<Rightarrow> (string \<times> json) list \<Rightarrow> bool" where
  "section_contract ce sch name load dflt says ms \<longleftrightarrow>
     (if section_ok sch name ms then \<exists>x. cereal_load_optional ce name load dflt (JObject ms) = Inr x \<and> says (map_of ms name) x
      else cereal_load_optional ce name load dflt (JObject ms) = Inl InvalidConfigurationError)"

lemma section_contractI:
  assumes "cereal_names ce" and "plain name" and "reads ce sch name load"
    and "says None dflt" and "\<And>ss x. load (JObject ss) = Inr x \<Longrightarrow> says (Some (JObject ss)) x"
  shows "section_contract ce sch name load dflt says ms"
  using load_optional_says [of ce name sch load ms says dflt] load_optional_cases [of ce name sch load dflt ms] assms
  by (auto simp: section_contract_def)

lemma http_said:
  assumes "http_load ce h (JObject ss) = Inr x"
  shows "http_says (Some (JObject ss)) x"
proof -
  let ?a = "JObject ss"
  from assms obtain a pt b where m: "nvp ce as_int ''threads'' ?a = Inr a" "nvp ce as_int ''port'' ?a = Inr pt" "nvp ce as_bool ''enable_ssl'' ?a = Inr b"
    by (auto simp: http_load_def and_then_eq_Inr simp del: nvp.simps)
  show ?thesis
  proof (cases b)
    case True
    with assms m obtain key cert where "nvp ce as_text ''ssl_server_key'' ?a = Inr key" "nvp ce as_text ''ssl_server_cert'' ?a = Inr cert"
      by (auto simp: http_load_def and_then_eq_Inr simp del: nvp.simps)
    with True assms m show ?thesis by (auto simp: http_load_def http_says_def loader_simps simp del: nvp.simps)
  next
    case False
    with assms m show ?thesis by (auto simp: http_load_def http_says_def loader_simps simp del: nvp.simps)
  qed
qed

lemma http_section:
  "cereal_names ce \<Longrightarrow> section_contract ce http_schema ''http'' (http_load ce h) (http_set_defaults h) http_says ms"
  by (rule section_contractI [OF _ _ http_loader])
     (simp, simp add: plain_def, simp add: http_says_def http_set_defaults_def, rule http_said)

lemma workers_section:
  "cereal_names ce \<Longrightarrow> section_contract ce (\<lambda>_. [(''threads'', TInt)]) ''workers'' (workers_load ce) workers_set_defaults workers_says ms"
  by (rule section_contractI [OF _ _ section_loaders(1)])
     (auto simp: plain_def workers_says_def workers_set_defaults_def workers_load_def loader_simps simp del: nvp.simps)

lemma downscaler_section:
  "cereal_names ce \<Longrightarrow> section_contract ce (\<lambda>_. [(''polling_interval'', TInt), (''swapping_threshold'', TInt)]) ''downscaler''
     (downscaler_load ce) downscaler_set_defaults downscaler_says ms"
  by (rule section_contractI [OF _ _ section_loaders(2)])
     (auto simp: plain_def downscaler_says_def downscaler_set_defaults_def downscaler_load_def loader_simps simp del: nvp.simps)

lemma tcpserver_section:
  "cereal_names ce \<Longrightarrow> section_contract ce (\<lambda>_. [(''port'', TInt), (''io_threads'', TInt)]) ''tcpserver''
     (tcpserver_load ce) tcpserver_set_defaults tcpserver_says ms"
  by (rule section_contractI [OF _ _ section_loaders(3)])
     (auto simp: plain_def tcpserver_says_def tcpserver_set_defaults_def tcpserver_load_def loader_simps simp del: nvp.simps)

text \<open>The section of the backend depends on its type; other types have none.\<close>

definition backend_ok :: "backend_type \<Rightarrow> (string \<times> json) list \<Rightarrow> bool" where
  "backend_ok t ms \<longleftrightarrow> (t \<in> {DOCKER, AWS_FARGATE} \<longrightarrow> section_ok (\<lambda>_. backend_schema t) ''backend'' ms)"

lemma backend_section:
  assumes "cereal_names ce"
  shows "if backend_ok t ms
         then \<exists>b. backend_load ce t old (JObject ms) = Inr b \<and>
           (t \<in> {DOCKER, AWS_FARGATE} \<longrightarrow> (\<exists>x. b = Some x \<and> backend_says (map_of ms ''backend'') x \<and> (t = DOCKER \<longleftrightarrow> (\<exists>a pt. x = BackendDocker a pt))))
         else backend_load ce t old (JObject ms) = Inl InvalidConfigurationError"
proof -
  have "section_contract ce (\<lambda>_. backend_schema DOCKER) ''backend'' (docker_load ce) docker_set_defaults
      (\<lambda>s x. backend_says s x \<and> (\<exists>a pt. x = BackendDocker a pt)) ms"
    by (rule section_contractI [OF assms _ section_loaders(4)])
       (auto simp: plain_def docker_set_defaults_def docker_load_def loader_simps simp del: nvp.simps)
  moreover have "section_contract ce (\<lambda>_. backend_schema AWS_FARGATE) ''backend'' (fargate_load ce) fargate_set_defaults
      (\<lambda>s x. backend_says s x \<and> (\<forall>a pt. x \<noteq> BackendDocker a pt)) ms"
    by (rule section_contractI [OF assms _ section_loaders(5)])
       (auto simp: plain_def fargate_set_defaults_def fargate_load_def loader_simps simp del: nvp.simps)
  ultimately show ?thesis
    by (cases t) (auto simp: backend_ok_def backend_load_def section_contract_def split: if_splits)
qed

section \<open>Properties\<close>


definition example_cereal :: cereal where
  "example_cereal = \<lparr>what_missing = (\<lambda>n. ''JSON Parsing failed - provided NVP ('' @ n @ '') not found''),
     what_type = ''rapidjson internal assertion failure''\<rparr>"

lemma contains_iff: "contains p s \<longleftrightarrow> (\<exists>i \<le> length s. take (length p) (drop i s) = p)"
  unfolding contains_def list_ex_iff set_upt by (auto simp: less_Suc_eq_le simp del: upt_Suc)

lemma bracket_in_prefix: "take k xs = c # ys \<Longrightarrow> c \<in> set xs \<and> hd xs = c \<and> xs \<noteq> []"
  by (cases xs; cases k) auto

lemma parenthesis_not_found:
  assumes "c \<notin> set s"
  shows "\<not> contains (c # p) s"
proof
  assume "contains (c # p) s"
  then obtain i where "take (length (c # p)) (drop i s) = c # p" by (auto simp: contains_iff)
  then have "c \<in> set (drop i s)" using bracket_in_prefix by metis
  with assms show False by (meson in_set_dropD)
qed

lemma named_in_parentheses:
  assumes pre: "CHR ''('' \<notin> set pre" and n: "plain n" "plain n'" and t: "CHR ''('' \<notin> set t"
  shows "contains (CHR ''('' # n' @ CHR '')'' # t) (pre @ CHR ''('' # n @ CHR '')'' # t) \<longleftrightarrow> n = n'"
proof
  let ?p = "CHR ''('' # n' @ CHR '')'' # t" and ?s = "pre @ CHR ''('' # n @ CHR '')'' # t"
  assume "contains ?p ?s"
  then obtain i where i: "take (length ?p) (drop i ?s) = ?p" by (auto simp: contains_iff)
  note here = bracket_in_prefix [OF i]
  have "i = length pre"
  proof (rule ccontr)
    assume "i \<noteq> length pre"
    then consider "i < length pre" | j where "i = length pre + Suc j" by (metis less_imp_Suc_add nat_neq_iff add_Suc_right)
    then show False
    proof cases
      case 1
      then have "hd (drop i ?s) = pre ! i" by (simp add: hd_drop_conv_nth nth_append)
      with here pre 1 show False by (metis nth_mem)
    next
      case 2
      then have "drop i ?s = drop j (n @ CHR '')'' # t)" by simp
      with here have "CHR ''('' \<in> set (n @ CHR '')'' # t)" by (metis in_set_dropD)
      with n(1) t show False by (simp add: plain_def)
    qed
  qed
  with i have "take (length (n' @ CHR '')'' # t)) (n @ CHR '')'' # t) = n' @ CHR '')'' # t" by simp
  then obtain rest where "n @ CHR '')'' # t = n' @ CHR '')'' # t @ rest" by (metis append.assoc append_Cons append_take_drop_id)
  moreover have "takeWhile (\<lambda>c. c \<noteq> CHR '')'') (m @ CHR '')'' # r) = m" if "plain m" for m r
    using that by (subst takeWhile_append2) (auto simp: plain_def)
  ultimately show "n = n'" using n by metis
next
  assume "n = n'"
  then show "contains (CHR ''('' # n' @ CHR '')'' # t) (pre @ CHR ''('' # n @ CHR '')'' # t)"
    unfolding contains_iff by (intro exI [of _ "length pre"]) simp
qed

lemma example_cereal_names: "cereal_names example_cereal"
  unfolding cereal_names_def
proof (intro conjI allI impI)
  fix n n' assume "plain n" "plain n'"
  then show "contains (''('' @ n' @ '') not found'') (what_missing example_cereal n) = (n = n')"
    using named_in_parentheses [of "''JSON Parsing failed - provided NVP ''" n n' "'' not found''"]
    by (simp add: example_cereal_def)
next
  fix n assume "plain n"
  show "\<not> contains (''('' @ n @ '') not found'') (what_type example_cereal)"
    using parenthesis_not_found [of "CHR ''(''" "what_type example_cereal" "n @ '') not found''"] by (simp add: example_cereal_def)
qed

text \<open>The configuration of the unit tests: the required members only.\<close>

definition example_config :: "(string \<times> json) list" where
  "example_config = [(''verbose'', JBool True), (''backend-type'', JString ''docker''), (''ip-address'', JString ''127.0.0.1''),
     (''http-client-io-threads'', JInt 1)]"

definition example_start :: cp_config where
  "example_start = \<lparr>cf_http = http_config_new, cf_workers = workers_set_defaults, cf_down_scaler = downscaler_set_defaults,
     cf_tcpserver = tcpserver_set_defaults, cf_backend_type = NO_BACKEND, cf_backend = None, cf_public_ip_address = [],
     cf_http_client_io_threads = 0, cf_verbose = False\<rparr>"


text \<open>
  What the configuration means for processes: the backend asks the serving daemon of its section, or
  of the default address, for containers, and they are told to connect to the public address and
  to the port the TCP server listens on.
\<close>

lemma configured_server:
  assumes "server_construct fg listen cfg = Inr srv" and "cf_backend_type cfg = DOCKER"
  shows "\<exists>a pt. cf_backend cfg = Some (BackendDocker a pt) \<and> ss_serving srv = Some (create_client (''http://'' @ a) pt) \<and>
           db_tcp_ip (ss_tcp srv) = cf_public_ip_address cfg \<and> db_tcp_port (ss_tcp srv) = listen (ts_port (cf_tcpserver cfg))"
  using assms
  by (auto simp: server_construct_def backend_construct_def and_then_eq_Inr configure_tcpserver_def
      split: option.splits backend_config.splits)

text \<open>
  Without a configuration file the backend has no address: the server is built and asks nobody. A
  document that names an unknown backend is accepted, and the server then uses a null pointer.
\<close>

lemma default_backend_nowhere:
  "map_sum id ss_serving (server_construct fg listen (config_set_defaults cfg)) = Inr (Some ''http://:0'')"
  by (simp add: server_construct_def config_set_defaults_def backend_construct_def create_client_def decimal_int_def
      decimal.simps [of 0] char_of_def bit_0)

lemma unknown_backend_undefined:
  "mode \<notin> {''docker'', ''aws_fargate''} \<Longrightarrow>
     server_construct fg listen (cfg\<lparr>cf_backend_type := backend_deserialize mode\<rparr>) = Inl UndefinedBehaviour"
  by (simp add: server_construct_def backend_construct_def backend_deserialize_def)

lemma serving_never_verbose: "serving_opts ce files f v = Inr (Some opts) \<Longrightarrow> \<not> so_verbose opts"
  by (auto simp: serving_opts_def serving_options_load_def and_then_def split: option.splits sum.splits)

end
