(* ===== verification/Engine_Http.thy ===== *)
theory Engine_Http
  imports Serving Sdk Control_Config
begin

text \<open>
  The HTTP requests and JSON documents between the Docker backend, the serving daemon and the engine:
  the HTTP client \<^verbatim>\<open>src/common/src/http.cpp\<close>, the requests of \<^verbatim>\<open>backend.cpp\<close> and
  \<^verbatim>\<open>src/serving/src/server.cpp\<close>, the routes of \<^verbatim>\<open>src/serving/include/praas/serving/docker/server.hpp\<close> and the main functions
  that set the client up. Theory \<^verbatim>\<open>Serving\<close> has the handlers and callbacks over the contents of these
  messages; here is how the contents are written and read. The JSON library's \<^verbatim>\<open>operator[]\<close>,
  \<^verbatim>\<open>asString\<close> and \<^verbatim>\<open>asInt\<close> are as documented: null for a member that is missing, an exception for a
  value of another kind. How it prints the numbers that the model does not have is an argument.
\<close>

section \<open>The client\<close>

record http_factory =
  hf_pool :: "int option"
  hf_default_loop :: bool

definition factory_start :: http_factory where
  "factory_start = \<lparr>hf_pool = None, hf_default_loop = False\<rparr>"

definition factory_initialize :: "int \<Rightarrow> http_factory \<Rightarrow> http_factory" where
  "factory_initialize thread_num f = f\<lparr>hf_pool := Some thread_num, hf_default_loop := True\<rparr>"

definition factory_shutdown :: "http_factory \<Rightarrow> http_factory" where
  "factory_shutdown f = f\<lparr>hf_pool := None\<rparr>"

definition factory_client :: "string \<Rightarrow> int32 \<Rightarrow> http_factory \<Rightarrow> string result" where
  "factory_client address pt f =
     (if hf_pool f = None then Inl PraaSException else Inr (create_client address pt))"

text \<open>The default loop is one of the pool's; its pointer is not reset when the pool is.\<close>

definition factory_client_shared :: "string \<Rightarrow> int32 \<Rightarrow> http_factory \<Rightarrow> string result" where
  "factory_client_shared address pt f =
     (if \<not> hf_default_loop f then Inl PraaSException
      else if hf_pool f = None then Inl UndefinedBehaviour
      else Inr (create_client address pt))"

record json_request = http_request +
  jq_json :: "json option"

definition new_request :: "http_method \<Rightarrow> string \<Rightarrow> json_request" where
  "new_request m path = \<lparr>hq_method = m, hq_path = path, hq_parameters = no_parameters, hq_body = [], jq_json = None\<rparr>"

definition set_parameters :: "(string \<times> string) list \<Rightarrow> json_request \<Rightarrow> json_request" where
  "set_parameters params req = req\<lparr>hq_parameters := fold (\<lambda>(k, v) f. f(k := v)) params (hq_parameters req)\<rparr>"

definition client_put :: "string \<Rightarrow> (string \<times> string) list \<Rightarrow> json_request" where
  "client_put path params = set_parameters params (new_request Put path)"

definition client_post :: "string \<Rightarrow> (string \<times> string) list \<Rightarrow> json_request" where
  "client_post path params = set_parameters params (new_request Post path)"

definition client_post_json :: "string \<Rightarrow> (string \<times> string) list \<Rightarrow> json \<Rightarrow> json_request" where
  "client_post_json path params body = set_parameters params ((new_request Post path)\<lparr>jq_json := Some body\<rparr>)"

definition client_get :: "string \<Rightarrow> (string \<times> string) list \<Rightarrow> json_request" where
  "client_get path params = set_parameters params (new_request Get path)"

section \<open>Documents\<close>

fun subscript :: "string \<Rightarrow> json \<Rightarrow> json result" where
  "subscript n (JObject ms) = Inr (case map_of ms n of None \<Rightarrow> JNull | Some v \<Rightarrow> v)"
| "subscript n JNull = Inr JNull"
| "subscript n _ = Inl JsonException"

fun first_element :: "json \<Rightarrow> json result" where
  "first_element (JArray js) = Inr (case js of [] \<Rightarrow> JNull | j # _ \<Rightarrow> j)"
| "first_element JNull = Inr JNull"
| "first_element _ = Inl JsonException"

record json_printer =
  other_text :: "string result"
  other_int :: "int32 result"

fun as_string :: "json_printer \<Rightarrow> json \<Rightarrow> string result" where
  "as_string pr (JString s) = Inr s"
| "as_string pr JNull = Inr []"
| "as_string pr (JBool b) = Inr (if b then ''true'' else ''false'')"
| "as_string pr (JInt i) = Inr (decimal_int i)"
| "as_string pr (JArray js) = Inl JsonException"
| "as_string pr (JObject ms) = Inl JsonException"
| "as_string pr JOther = other_text pr"

fun as_number :: "json_printer \<Rightarrow> json \<Rightarrow> int32 result" where
  "as_number pr (JInt i) = Inr i"
| "as_number pr JNull = Inr 0"
| "as_number pr (JBool b) = Inr (if b then 1 else 0)"
| "as_number pr JOther = other_int pr"
| "as_number pr _ = Inl JsonException"

record json_response =
  js_status :: nat
  js_json :: json

definition correct_response :: "string \<Rightarrow> json_response" where
  "correct_response reason = \<lparr>js_status = 200, js_json = JObject [(''status'', JString reason)]\<rparr>"

definition correct_response_json :: "json \<Rightarrow> json_response" where
  "correct_response_json response = \<lparr>js_status = 200, js_json = response\<rparr>"

definition failed_response_json :: "string \<Rightarrow> json_response" where
  "failed_response_json reason = \<lparr>js_status = 500, js_json = JObject [(''reason'', JString reason)]\<rparr>"

text \<open>The daemon's answers as the responses its handlers and callbacks make.\<close>

fun response_of :: "serving_reply \<Rightarrow> json_response" where
  "response_of (ServingFailed reason st) = (failed_response_json reason)\<lparr>js_status := st\<rparr>"
| "response_of (ServingCreated st cid pid ip pt) =
     correct_response_json (JObject [(''status'', JString st), (''container-id'', JString cid), (''process-id'', JString pid),
       (''ip-address'', JString ip), (''port'', JInt pt)])"
| "response_of (ServingStatus st) = correct_response st"
| "response_of (ServingImage img st code) = \<lparr>js_status = code, js_json = JObject [(''image'', JString img), (''status'', JString st)]\<rparr>"

section \<open>Requests to the engine\<close>

definition ports_body :: "string \<Rightarrow> (string \<times> json) list" where
  "ports_body pt =
     [(''HostConfig'', JObject [(''PortBindings'', JObject [(pt, JArray [JObject [(''HostIp'', JString ''0.0.0.0'')]])]),
        (''AutoRemove'', JBool True)]),
      (''ExposedPorts'', JObject [(pt, JNull)])]"

definition create_container :: "string \<Rightarrow> string \<Rightarrow> string list \<Rightarrow> string \<Rightarrow> json_request" where
  "create_container process container_name env pt =
     client_post_json ''/containers/create'' [(''name'', process)]
       (JObject ([(''Image'', JString container_name), (''Env'', JArray (map JString env))] @ ports_body pt))"

definition start_container :: "string \<Rightarrow> json_request" where
  "start_container container_id = client_post (''/containers/'' @ container_id @ ''/start'') []"

definition inspect_container :: "string \<Rightarrow> json_request" where
  "inspect_container container_id = client_get (''/containers/'' @ container_id @ ''/json'') []"

definition stop_container :: "string \<Rightarrow> string \<Rightarrow> json_request" where
  "stop_container container_id signal = client_post (''/containers/'' @ container_id @ ''/stop'') [(''signal'', signal)]"

definition create_image :: "string \<Rightarrow> json_request" where
  "create_image img = client_post ''/images/create'' [(''fromImage'', img)]"

fun engine_request :: "docker_request \<Rightarrow> json_request" where
  "engine_request (ContainerCreate proc img env pt) = create_container proc img env pt"
| "engine_request (ContainerStart cid) = start_container cid"
| "engine_request (ContainerInspect cid) = inspect_container cid"
| "engine_request (ContainerStop cid sig) = stop_container cid sig"
| "engine_request (ImageCreate img) = create_image img"

definition engine_requests :: "serving \<Rightarrow> json_request list" where
  "engine_requests s = map (engine_request \<circ> fst) (sg_requests s)"

text \<open>
  What the callbacks read of a response of the engine: the identifier of a created container, and the
  port of the host that an inspection names. Other responses are told by their status only.
\<close>

record engine_response =
  er_status :: nat
  er_json :: "json option"
  er_body :: string

definition read_container_id :: "json_printer \<Rightarrow> json \<Rightarrow> string result" where
  "read_container_id pr doc = and_then (subscript ''Id'' doc) (as_string pr)"

definition read_host_port :: "json_printer \<Rightarrow> string \<Rightarrow> json \<Rightarrow> string result" where
  "read_host_port pr pt doc =
     and_then (subscript ''NetworkSettings'' doc) (\<lambda>net.
     and_then (subscript ''Ports'' net) (\<lambda>ports.
     and_then (subscript pt ports) (\<lambda>bindings.
     and_then (first_element bindings) (\<lambda>binding.
     and_then (subscript ''HostPort'' binding) (as_string pr)))))"

fun read_response :: "json_printer \<Rightarrow> string \<Rightarrow> continuation \<Rightarrow> engine_response \<Rightarrow> docker_reply result" where
  "read_response pr pt (AfterCreate cl proc) r =
     (case er_json r of
        Some doc \<Rightarrow>
          if er_status r = 201
          then and_then (read_container_id pr doc) (\<lambda>cid. Inr \<lparr>dr_status = er_status r, dr_document = Some (cid, []), dr_body = er_body r\<rparr>)
          else Inr \<lparr>dr_status = er_status r, dr_document = None, dr_body = er_body r\<rparr>
      | None \<Rightarrow> Inr \<lparr>dr_status = er_status r, dr_document = None, dr_body = er_body r\<rparr>)"
| "read_response pr pt (AfterInspect cl proc cid) r =
     (case er_json r of
        Some doc \<Rightarrow>
          if er_status r = 200
          then and_then (read_host_port pr pt doc) (\<lambda>hp. Inr \<lparr>dr_status = er_status r, dr_document = Some ([], hp), dr_body = er_body r\<rparr>)
          else Inr \<lparr>dr_status = er_status r, dr_document = None, dr_body = er_body r\<rparr>
      | None \<Rightarrow> Inr \<lparr>dr_status = er_status r, dr_document = None, dr_body = er_body r\<rparr>)"
| "read_response pr pt k r = Inr \<lparr>dr_status = er_status r, dr_document = None, dr_body = er_body r\<rparr>"

definition engine_responds ::
    "json_printer \<Rightarrow> (string \<Rightarrow> (string \<times> string) option) \<Rightarrow> nat \<Rightarrow> engine_response \<Rightarrow> serving \<Rightarrow> serving result" where
  "engine_responds pr rj i r s =
     (if length (sg_requests s) \<le> i then Inr s
      else and_then (read_response pr (configure_ports s) (snd (sg_requests s ! i)) r) (\<lambda>reply.
           docker_replies rj i (Some reply) s))"

section \<open>Requests to the daemon\<close>

datatype daemon_route = RouteCreate string | RouteKill string | RouteCache string

definition daemon_route_of :: "json_request \<Rightarrow> daemon_route option" where
  "daemon_route_of r =
     (if hq_method r \<noteq> Post then None
      else if hq_path r = ''/create'' then Some (RouteCreate (hq_parameters r ''process''))
      else if hq_path r = ''/kill'' then Some (RouteKill (hq_parameters r ''process''))
      else if hq_path r = ''/cache'' then Some (RouteCache (hq_parameters r ''image''))
      else None)"

text \<open>The body of a request: the two members, when they are there and not null, are read as texts.\<close>

definition read_create :: "json_printer \<Rightarrow> json option \<Rightarrow> (string option \<times> string option) option result" where
  "read_create pr req_body =
     (case req_body of
        None \<Rightarrow> Inr None
      | Some doc \<Rightarrow>
          and_then (subscript ''container-name'' doc) (\<lambda>container_name.
          and_then (subscript ''controlplane-address'' doc) (\<lambda>controlplane_addr.
          if container_name = JNull \<or> controlplane_addr = JNull then Inr (Some (None, None))
          else and_then (as_string pr container_name) (\<lambda>cn.
               and_then (as_string pr controlplane_addr) (\<lambda>ca.
               Inr (Some (Some cn, Some ca)))))))"

definition daemon_serve :: "json_printer \<Rightarrow> nat \<Rightarrow> json_request \<Rightarrow> serving \<Rightarrow> serving result option" where
  "daemon_serve pr cl r s =
     map_option (\<lambda>rt.
       case rt of
         RouteCreate proc \<Rightarrow>
           if proc = [] then Inr (serving_create cl proc None s)
           else and_then (read_create pr (jq_json r)) (\<lambda>body. Inr (serving_create cl proc body s))
       | RouteKill proc \<Rightarrow> serving_kill cl proc s
       | RouteCache img \<Rightarrow> Inr (cache_image cl img s)) (daemon_route_of r)"

section \<open>The Docker backend\<close>

definition allocate_http :: "docker_backend \<Rightarrow> cp_application \<Rightarrow> cp_process \<Rightarrow> json_request" where
  "allocate_http b app p =
     client_post_json ''/create'' [(''process'', pr_name p)]
       (JObject [(''container-name'', JString (ap_code_resource app)),
                 (''controlplane-address'', JString (db_tcp_ip b @ '':'' @ decimal_int (db_tcp_port b)))])"

definition read_allocation ::
    "json_printer \<Rightarrow> (json_response \<Rightarrow> string) \<Rightarrow> string \<Rightarrow> json_response option \<Rightarrow> (process_instance + string) result" where
  "read_allocation pr body name reply =
     (case reply of
        None \<Rightarrow> Inr (Inr ''Unknown error!'')
      | Some response \<Rightarrow>
          if js_status response = 500
          then Inr (Inr (''Process '' @ name @ '' could not be created, reason: '' @ body response))
          else if js_status response = 200
          then and_then (and_then (subscript ''container-id'' (js_json response)) (as_string pr)) (\<lambda>container.
               and_then (and_then (subscript ''ip-address'' (js_json response)) (as_string pr)) (\<lambda>ip_address.
               and_then (and_then (subscript ''port'' (js_json response)) (as_number pr)) (\<lambda>pt.
               Inr (Inl \<lparr>pi_ip_address = ip_address, pi_port = pt, pi_container_id = container\<rparr>))))
          else Inr (Inr (''Unknown error! Response: '' @ body response)))"

section \<open>The programs start\<close>

record daemon =
  dm_server :: serving
  dm_engine :: string
  dm_listens :: "string \<times> int32"

definition daemon_start :: "serving_options \<Rightarrow> http_factory \<Rightarrow> daemon result" where
  "daemon_start opts f =
     and_then (factory_client ''http://127.0.0.1'' (so_docker_port opts) f) (\<lambda>engine.
     Inr \<lparr>dm_server = serving_start opts, dm_engine = engine, dm_listens = (''0.0.0.0'', so_http_port opts)\<rparr>)"

text \<open>The daemon's main function returns at once when its file cannot be opened.\<close>

definition serving_main :: "cereal \<Rightarrow> (string \<Rightarrow> json option) \<Rightarrow> string \<Rightarrow> bool \<Rightarrow> daemon option result" where
  "serving_main ce files config_file verbose =
     (let f = factory_initialize 1 factory_start in
      and_then (serving_opts ce files config_file verbose) (\<lambda>opts.
      case opts of None \<Rightarrow> Inr None | Some opts \<Rightarrow> map_sum id Some (daemon_start opts f)))"

definition daemon_shutdown :: "string list \<Rightarrow> daemon \<Rightarrow> daemon" where
  "daemon_shutdown ids d = d\<lparr>dm_server := kill_all ids (dm_server d)\<rparr>"

text \<open>The control plane's: the clients' pool is there before the backend opens its client.\<close>

definition plane_main ::
    "bool \<Rightarrow> (int32 \<Rightarrow> int32) \<Rightarrow> cereal \<Rightarrow> (string \<Rightarrow> json option) \<Rightarrow> cp_config \<Rightarrow> string \<Rightarrow> (http_factory \<times> cp_server) result" where
  "plane_main with_fargate listen ce files cfg config_file =
     and_then (config_deserialize ce files cfg config_file) (\<lambda>cfg.
     (let f = factory_initialize (sint (cf_http_client_io_threads cfg)) factory_start in
      and_then (server_construct with_fargate listen cfg) (\<lambda>server. Inr (f, server))))"

section \<open>Lemmas\<close>

lemmas http_simps = client_put_def client_post_def client_post_json_def client_get_def set_parameters_def new_request_def

lemmas engine_simps = create_container_def start_container_def inspect_container_def stop_container_def create_image_def

lemma client_created: "factory_client address pt (factory_initialize n f) = Inr (create_client address pt)"
  by (simp add: factory_client_def factory_initialize_def)

text \<open>A shared client after a shutdown uses the loop of a pool that is gone.\<close>

lemma shared_after_shutdown: "factory_client_shared address pt (factory_shutdown (factory_initialize n f)) = Inl UndefinedBehaviour"
  by (simp add: factory_client_shared_def factory_shutdown_def factory_initialize_def)

lemma serving_client:
  assumes "server_construct fg listen cfg = Inr srv" and "ss_serving srv = Some a"
  obtains address pt where "a = create_client (''http://'' @ address) pt"
proof -
  obtain t where t: "backend_construct fg (cf_backend_type cfg) = Some t"
    using assms(1) by (auto simp: server_construct_def split: option.splits)
  from assms t that show ?thesis
    by (cases t; cases "cf_backend cfg"; cases "the (cf_backend cfg)") (auto simp: server_construct_def)
qed

lemma plane_client:
  assumes "plane_main fg listen ce files cfg0 file = Inr (f, srv)" and "ss_serving srv = Some a"
  shows "\<exists>address pt. factory_client (''http://'' @ address) pt f = Inr a"
proof -
  from assms(1) obtain cfg where f: "f = factory_initialize (sint (cf_http_client_io_threads cfg)) factory_start"
      and srv: "server_construct fg listen cfg = Inr srv"
    by (auto simp: plane_main_def Let_def and_then_eq_Inr)
  from srv assms(2) obtain address pt where "a = create_client (''http://'' @ address) pt" by (rule serving_client)
  then show ?thesis unfolding f by (metis client_created)
qed

lemma daemon_ready:
  assumes "serving_main ce files file v = Inr (Some d)"
  shows "\<exists>opts. serving_opts ce files file v = Inr (Some opts) \<and> dm_server d = serving_start opts \<and>
           dm_engine d = create_client ''http://127.0.0.1'' (so_docker_port opts) \<and> dm_listens d = (''0.0.0.0'', so_http_port opts)"
  using assms
  by (auto simp: serving_main_def Let_def and_then_eq_Inr daemon_start_def client_created split: option.splits)

text \<open>The engine can tell the requests of the daemon apart.\<close>

lemma parameter_eq: "no_parameters(k := a) = no_parameters(k := b) \<longleftrightarrow> a = b"
  by (metis fun_upd_same)

lemma json_strings_eq: "map JString xs = map JString ys \<longleftrightarrow> xs = ys"
  by (simp add: inj_map_eq_map inj_def)

lemma engine_request_inj: "engine_request q = engine_request q' \<longleftrightarrow> q = q'"
  by (cases q; cases q') (auto simp: engine_simps http_simps ports_body_def parameter_eq json_strings_eq)

text \<open>What the backend reads of a response is what theory \<^verbatim>\<open>Serving\<close> says of the answer it carries.\<close>

lemma read_allocation_refines:
  "read_allocation pr body name (map_option response_of reply) = Inr (allocate_reply (body \<circ> response_of) name reply)"
  by (cases reply; simp add: read_allocation_def allocate_reply_def)
    (rename_tac r, case_tac r, auto simp: correct_response_def correct_response_json_def failed_response_json_def)

lemma daemon_serves_allocation:
  assumes "pr_name p \<noteq> []"
  shows "daemon_serve pr cl (allocate_http b app p) s = Some (Inr (serving_create cl (pr_name p) (allocate_request b app) s))"
  using assms by (simp add: daemon_serve_def allocate_http_def http_simps daemon_route_of_def read_create_def allocate_request_def)

section \<open>Properties\<close>

text \<open>
  C24. A process is created over HTTP. The request that the Docker backend posts is routed to the daemon's
  create handler, which posts a container to the engine with the image of the application, an
  environment of the control plane's address and the name of the process, and the port of processes exposed and
  bound to a port of the host. When the engine answers with the documents of a created
  container, a started one and an inspected one, the daemon's three requests are those of its
  interface, no request is left, and the document it answers with is read by the
  backend as an instance at the daemon's address and the port that the engine chose.
\<close>

theorem creation_over_http:
  assumes s: "sg_requests s = []" "sg_processes s (pr_name p) = None" "pr_name p \<noteq> []"
    and created: "er_status r1 = 201" "er_json r1 = Some (JObject d1)" "map_of d1 ''Id'' = Some (JString cid)"
    and started: "er_status r2 = 204"
    and inspected: "er_status r3 = 200" "er_json r3 = Some (JObject d3)" "map_of d3 ''NetworkSettings'' = Some (JObject net)"
      "map_of net ''Ports'' = Some (JObject ports)" "map_of ports (configure_ports s) = Some (JArray (JObject binding # others))"
      "map_of binding ''HostPort'' = Some (JString (decimal_int pt))"
  shows "\<exists>s1 s2 s3 s4 reply.
     daemon_serve pr cl (allocate_http b app p) s = Some (Inr s1) \<and>
     engine_requests s1 = [client_post_json ''/containers/create'' [(''name'', pr_name p)]
       (JObject ([(''Image'', JString (ap_code_resource app)),
                  (''Env'', JArray [JString (''CONTROLPLANE_ADDR='' @ db_tcp_ip b @ '':'' @ decimal_int (db_tcp_port b)),
                                    JString (''PROCESS_ID='' @ pr_name p)])] @ ports_body (configure_ports s)))] \<and>
     engine_responds pr rj 0 r1 s1 = Inr s2 \<and> engine_requests s2 = [client_post (''/containers/'' @ cid @ ''/start'') []] \<and>
     engine_responds pr rj 0 r2 s2 = Inr s3 \<and> engine_requests s3 = [client_get (''/containers/'' @ cid @ ''/json'') []] \<and>
     engine_responds pr rj 0 r3 s3 = Inr s4 \<and> engine_requests s4 = [] \<and> sg_replies s4 = sg_replies s @ [(cl, reply)] \<and>
     sg_processes s4 (pr_name p) = Some \<lparr>sg_process_id = pr_name p, sg_container_id = cid\<rparr> \<and>
     read_allocation pr body (pr_name p) (Some (response_of reply)) =
       Inr (Inl \<lparr>pi_ip_address = so_server_ip (sg_opts s), pi_port = pt, pi_container_id = cid\<rparr>)"
proof -
  let ?name = "pr_name p"
  let ?env = "[''CONTROLPLANE_ADDR='' @ db_tcp_ip b @ '':'' @ decimal_int (db_tcp_port b), ''PROCESS_ID='' @ ?name]"
  define s1 where "s1 = s\<lparr>sg_requests := [(ContainerCreate ?name (ap_code_resource app) ?env (configure_ports s), AfterCreate cl ?name)]\<rparr>"
  define s2 where "s2 = s\<lparr>sg_requests := [(ContainerStart cid, AfterStart cl ?name cid)]\<rparr>"
  define s3 where "s3 = s\<lparr>sg_processes := (sg_processes s)(?name \<mapsto> \<lparr>sg_process_id = ?name, sg_container_id = cid\<rparr>),
    sg_requests := [(ContainerInspect cid, AfterInspect cl ?name cid)]\<rparr>"
  let ?reply = "ServingCreated (''Container for process '' @ ?name @ '' created.'') cid ?name (so_server_ip (sg_opts s)) pt"
  define s4 where "s4 = s3\<lparr>sg_requests := [], sg_replies := sg_replies s @ [(cl, ?reply)]\<rparr>"
  have ports: "configure_ports s1 = configure_ports s" "configure_ports s2 = configure_ports s" "configure_ports s3 = configure_ports s"
    by (simp_all add: configure_ports_def s1_def s2_def s3_def)
  have doc1: "read_container_id pr (JObject d1) = Inr cid" using created(3) by (simp add: read_container_id_def)
  have doc3: "read_host_port pr (configure_ports s) (JObject d3) = Inr (decimal_int pt)"
    using inspected(3-6) by (simp add: read_host_port_def)
  have "daemon_serve pr cl (allocate_http b app p) s = Some (Inr s1)"
    using daemon_serves_allocation [OF s(3)] s by (simp add: s1_def daemon_simps allocate_request_def)
  moreover have "engine_responds pr rj 0 r1 s1 = Inr s2"
    using s created by (simp add: engine_responds_def ports doc1 s1_def s2_def daemon_simps)
  moreover have "engine_responds pr rj 0 r2 s2 = Inr s3"
    using s started by (simp add: engine_responds_def ports s2_def s3_def daemon_simps)
  moreover have "engine_responds pr rj 0 r3 s3 = Inr s4"
    unfolding engine_responds_def ports by (simp add: inspected(1,2) doc3 stoi_decimal_int s3_def s4_def daemon_simps)
  moreover have "engine_requests s1 = [create_container ?name (ap_code_resource app) ?env (configure_ports s)]"
      "engine_requests s2 = [start_container cid]" "engine_requests s3 = [inspect_container cid]" "engine_requests s4 = []"
    by (simp_all add: engine_requests_def s1_def s2_def s3_def s4_def)
  moreover have "sg_replies s4 = sg_replies s @ [(cl, ?reply)]"
      "sg_processes s4 ?name = Some \<lparr>sg_process_id = ?name, sg_container_id = cid\<rparr>"
    by (simp_all add: s4_def s3_def)
  moreover have "read_allocation pr body ?name (Some (response_of ?reply)) =
      Inr (Inl \<lparr>pi_ip_address = so_server_ip (sg_opts s), pi_port = pt, pi_container_id = cid\<rparr>)"
    using read_allocation_refines [of pr body ?name "Some ?reply"] by (simp add: allocate_reply_def)
  ultimately show ?thesis unfolding engine_simps list.map by blast
qed

definition example_printer :: json_printer where
  "example_printer = \<lparr>other_text = Inl JsonException, other_int = Inl JsonException\<rparr>"

definition example_inspection :: json where
  "example_inspection = JObject [(''NetworkSettings'', JObject [(''Ports'', JObject [(decimal_int 8000 @ ''/tcp'',
     JArray [JObject [(''HostIp'', JString ''0.0.0.0''), (''HostPort'', JString (decimal_int 32768))]])])])]"

theorem creation_over_http_witness:
  "\<exists>s1 s2 s3 s4 reply.
     daemon_serve example_printer 1 (allocate_http \<lparr>db_tcp_ip = ''10.0.0.2'', db_tcp_port = 7000\<rparr> (Application ''app'' ''img'')
       (Process ''p'' example_resources)) (serving_start example_options) = Some (Inr s1) \<and>
     engine_responds example_printer (\<lambda>_. None) 0 \<lparr>er_status = 201, er_json = Some (JObject [(''Id'', JString ''c1'')]), er_body = []\<rparr> s1 = Inr s2 \<and>
     engine_responds example_printer (\<lambda>_. None) 0 \<lparr>er_status = 204, er_json = None, er_body = []\<rparr> s2 = Inr s3 \<and>
     engine_responds example_printer (\<lambda>_. None) 0 \<lparr>er_status = 200, er_json = Some example_inspection, er_body = []\<rparr> s3 = Inr s4 \<and>
     read_allocation example_printer (\<lambda>_. []) ''p'' (Some (response_of reply)) =
       Inr (Inl \<lparr>pi_ip_address = so_server_ip example_options, pi_port = 32768, pi_container_id = ''c1''\<rparr>)"
proof -
  let ?s = "serving_start example_options" and ?p = "Process ''p'' example_resources"
  have name: "pr_name ?p = ''p''" by (simp add: Process_def)
  have s: "sg_requests ?s = []" "sg_processes ?s (pr_name ?p) = None" "pr_name ?p \<noteq> []" "so_server_ip (sg_opts ?s) = so_server_ip example_options"
    by (simp_all add: serving_start_def name)
  have ports: "map_of [(decimal_int 8000 @ ''/tcp'', j)] (configure_ports ?s) = Some j" for j :: json
    by (simp add: configure_ports_def serving_start_def example_options_def)
  define r1 where "r1 = \<lparr>er_status = 201, er_json = Some (JObject [(''Id'', JString ''c1'')]), er_body = []\<rparr>"
  define r2 where "r2 = \<lparr>er_status = 204, er_json = None, er_body = []\<rparr>"
  define r3 where "r3 = \<lparr>er_status = 200, er_json = Some example_inspection, er_body = []\<rparr>"
  have created: "er_status r1 = 201" "er_json r1 = Some (JObject [(''Id'', JString ''c1'')])" "map_of [(''Id'', JString ''c1'')] ''Id'' = Some (JString ''c1'')"
    by (simp_all add: r1_def)
  have started: "er_status r2 = 204" by (simp add: r2_def)
  let ?hs = "[(''HostIp'', JString ''0.0.0.0''), (''HostPort'', JString (decimal_int 32768))]"
  let ?ps = "[(decimal_int 8000 @ ''/tcp'', JArray [JObject ?hs])]"
  have inspected: "er_status r3 = 200" "er_json r3 = Some (JObject [(''NetworkSettings'', JObject [(''Ports'', JObject ?ps)])])"
      "map_of [(''NetworkSettings'', JObject [(''Ports'', JObject ?ps)])] ''NetworkSettings'' = Some (JObject [(''Ports'', JObject ?ps)])"
      "map_of [(''Ports'', JObject ?ps)] ''Ports'' = Some (JObject ?ps)" "map_of ?hs ''HostPort'' = Some (JString (decimal_int 32768))"
    by (simp_all add: r3_def example_inspection_def)
  note creation_over_http [OF s(1-3) created started inspected(1-4) ports inspected(5), where cl = 1 and pr = example_printer
      and b = "\<lparr>db_tcp_ip = ''10.0.0.2'', db_tcp_port = 7000\<rparr>" and app = "Application ''app'' ''img''" and rj = "\<lambda>_. None" and body = "\<lambda>_. []"]
  then show ?thesis unfolding r1_def r2_def r3_def name s(4) by blast
qed

end
