(* ===== verification/Object_Moves.thy ===== *)
theory Object_Moves
  imports Control_Server
begin

text \<open>
  Moving the objects of the control plane, which hold locks
  (\<^verbatim>\<open>src/control-plane/include/praas/control-plane/application.hpp\<close>, \<^verbatim>\<open>process.hpp\<close>), and the version of \<^verbatim>\<open>add_process\<close> that
  waits for the allocation (\<^verbatim>\<open>src/control-plane/src/application.cpp\<close>). A move gives the value of the new object;
  the old one is not used again.
\<close>

section \<open>Locks\<close>

text \<open>
  \<^verbatim>\<open>std::lock\<close> on lock objects, each of which owns its mutex already or not: locking a mutex again through an
  object that owns it is an error.
\<close>

definition std_lock :: "bool list \<Rightarrow> bool list result" where
  "std_lock owns = (if True \<in> set owns then Inl SystemError else Inr (map (\<lambda>_. True) owns))"

text \<open>No exception leaves the function.\<close>

definition noexcept :: "'a result \<Rightarrow> 'a result" where
  "noexcept r = (case r of Inl e \<Rightarrow> Inl StdTerminate | Inr x \<Rightarrow> Inr x)"

section \<open>Applications\<close>

text \<open>
  The constructor creates two lock objects that own the mutexes of the other object, and then asks for both to be
  locked together. The processes of the control plane are not moved by either operation.
\<close>

definition Application_move :: "cp_application \<Rightarrow> cp_application result" where
  "Application_move obj =
     noexcept (and_then (std_lock [True, True]) (\<lambda>_.
       Inr \<lparr>ap_name = ap_name obj, ap_code_resource = ap_code_resource obj, ap_active = ap_active obj,
            ap_swapped = ap_swapped obj, ap_controlplane = []\<rparr>))"

definition Application_assign :: "cp_application \<Rightarrow> cp_application \<Rightarrow> cp_application result" where
  "Application_assign self obj =
     noexcept (and_then (std_lock [False, False, False, False]) (\<lambda>_.
       Inr (self\<lparr>ap_name := ap_name obj, ap_code_resource := ap_code_resource obj, ap_active := ap_active obj,
                 ap_swapped := ap_swapped obj\<rparr>)))"

section \<open>Processes\<close>

definition Process_move :: "cp_process \<Rightarrow> cp_process" where
  "Process_move obj =
     (Process (pr_name obj) (pr_resources obj))\<lparr>pr_status := pr_status obj, pr_handle := pr_handle obj\<rparr>"

definition Process_assign :: "cp_process \<Rightarrow> cp_process \<Rightarrow> cp_process result" where
  "Process_assign self obj =
     noexcept (and_then (std_lock [False, False]) (\<lambda>_.
       Inr (self\<lparr>pr_name := pr_name obj, pr_handle := pr_handle obj, pr_status := pr_status obj, pr_resources := pr_resources obj\<rparr>)))"

section \<open>Waiting for a new process\<close>

text \<open>
  The callback sets a promise to the empty string when there is a process and to the error otherwise, and the call
  waits for it: None while nobody calls back.
\<close>

definition creation_promise :: "bool \<Rightarrow> string option \<Rightarrow> string result" where
  "creation_promise process error_msg =
     (if process then Inr [] else case error_msg of None \<Rightarrow> Inl BadOptionalAccess | Some m \<Rightarrow> Inr m)"

definition await_creation :: "string option \<Rightarrow> unit result option" where
  "await_creation promise =
     (case promise of None \<Rightarrow> None | Some msg \<Rightarrow> Some (if msg \<noteq> [] then Inl (FailedAllocationError msg) else Inr ()))"

section \<open>Properties\<close>

text \<open>Move construction of an application ends the program.\<close>

lemma Application_move_terminates: "Application_move obj = Inl StdTerminate"
  by (simp add: Application_move_def std_lock_def noexcept_def)

text \<open>Assignment works, and is what the table of applications uses: a new entry becomes the application.\<close>

lemma Application_assign_moves:
  "Application_assign self obj = Inr (obj\<lparr>ap_controlplane := ap_controlplane self\<rparr>)"
  by (simp add: Application_assign_def std_lock_def noexcept_def)

lemma add_application_assigns:
  assumes "name \<noteq> []" and "cl_apps s name = None"
  shows "\<exists>app. Application_assign (Application [] []) (Application name code) = Inr app \<and>
           add_application name code s = Inr (s\<lparr>cl_apps := (cl_apps s)(name \<mapsto> app)\<rparr>)"
  using assms by (simp add: Application_assign_moves add_application_def Application_def)

text \<open>A moved process keeps its name, state, resources and handle, and loses its connection and its invocations.\<close>

lemma Process_move_forgets:
  "pr_name (Process_move p) = pr_name p" "pr_status (Process_move p) = pr_status p" "pr_handle (Process_move p) = pr_handle p"
  "pr_connection (Process_move p) = None" "pr_invocations (Process_move p) = []"
  by (simp_all add: Process_move_def Process_def)

text \<open>
  The waiting call succeeds if and only if there is a process, but for a failure without a
  text, which counts as success.
\<close>

lemma await_creation_result:
  assumes "creation_promise process error_msg = Inr msg"
  shows "await_creation (Some msg) = Some (Inr ()) \<longleftrightarrow> process \<or> error_msg = Some []"
  using assms by (auto simp: creation_promise_def await_creation_def split: if_splits option.splits)

end
