(* ===== verification/Buffer_Archive.thy ===== *)
theory Buffer_Archive
  imports Invoker
begin

text \<open>
  Objects in the buffers of user functions: \<^verbatim>\<open>src/process/runtime/include/praas/process/runtime/buffer.hpp\<close>. The binary
  archives of the serialisation library are arguments: \<open>save\<close> gives the pieces that an object writes, one after the
  other, and \<open>load\<close> reads an object from the start of an array.
\<close>

section \<open>Definitions\<close>

definition buffer_str :: "view \<Rightarrow> runtime \<Rightarrow> bytes result" where
  "buffer_str v st = view_data v st"

text \<open>
  An archive writes a piece through the stream, which takes what fits into the array, and throws when that is not
  all: the Boolean says that every piece was written. The length of the buffer changes only then, and the return value
  is the length in both cases.
\<close>

fun stream_pieces :: "nat \<Rightarrow> bytes \<Rightarrow> bytes list \<Rightarrow> bool \<times> bytes" where
  "stream_pieces sz acc [] = (True, acc)"
| "stream_pieces sz acc (d # ds) =
     (if length acc + length d \<le> sz then stream_pieces sz (acc @ d) ds else (False, acc @ take (sz - length acc) d))"

definition buffer_serialize :: "('a \<Rightarrow> bytes list) \<Rightarrow> 'a \<Rightarrow> view \<Rightarrow> runtime \<Rightarrow> (nat \<times> view \<times> runtime) result" where
  "buffer_serialize save obj v st =
     (let (complete, d) = stream_pieces (vw_size v) [] (save obj);
          v' = (if complete then v\<lparr>vw_len := length d\<rparr> else v) in
      and_then (if d = [] then Inr st else write_view v 0 d st) (\<lambda>st'. Inr (vw_len v', v', st')))"

text \<open>The archive reads from the whole array, not only from the part that is in use.\<close>

definition buffer_deserialize :: "(bytes \<Rightarrow> 'a result) \<Rightarrow> view \<Rightarrow> runtime \<Rightarrow> 'a result" where
  "buffer_deserialize load v st = and_then (read_bytes (vw_ptr v) (vw_size v) st) load"

section \<open>Properties\<close>

text \<open>What the archives promise: an object is read back from the start of what follows it.\<close>

definition archive_pair :: "('a \<Rightarrow> bytes list) \<Rightarrow> (bytes \<Rightarrow> 'a result) \<Rightarrow> bool" where
  "archive_pair save load \<longleftrightarrow> (\<forall>x rest. load (concat (save x) @ rest) = Inr x)"

lemma stream_pieces_fit:
  "length acc + length (concat ds) \<le> sz \<Longrightarrow> stream_pieces sz acc ds = (True, acc @ concat ds)"
  by (induction ds arbitrary: acc) auto

lemma stream_pieces_full:
  "length acc \<le> sz \<Longrightarrow> sz < length acc + length (concat ds) \<Longrightarrow> stream_pieces sz acc ds = (False, take sz (acc @ concat ds))"
proof (induction ds arbitrary: acc)
  case (Cons d ds)
  then show ?case by (cases "length acc + length d \<le> sz") (auto simp: take_append)
qed simp

text \<open>
  An object that fits into a buffer of the context is read back from it, also by a function that
  gets the view later.
\<close>

lemma serialize_roundtrip:
  assumes lib: "archive_pair save load" and st: "runtime_inv st" and held: "ob \<in> set (cx_user_buffers st)" "ow_ptr ob \<noteq> None"
    and v: "vw_ptr v = owned_ptr ob" "vw_size v = ow_size ob" and fits: "length (concat (save x)) \<le> vw_size v"
  shows "\<exists>v' st'. buffer_serialize save x v st = Inr (length (concat (save x)), v', st') \<and>
           view_data v' st' = Inr (concat (save x)) \<and> buffer_deserialize load v' st' = Inr x"
proof -
  define d where "d = concat (save x)"
  from held obtain a where a: "ow_ptr ob = Some a" by auto
  have "case ow_ptr ob of None \<Rightarrow> ow_size ob = 0 | Some a \<Rightarrow> sizes st a = Some (ow_size ob)"
    using st held(1) by (fastforce simp: runtime_inv_def memory_ok_def arrays_def)
  then obtain m where m: "rt_heap st a = Some m" "length m = vw_size v" using a v(2) by (auto simp: sizes_def)
  have ptr: "vw_ptr v = Some (HeapBlock a, 0)" using v(1) a by (simp add: owned_ptr_def)
  let ?v = "v\<lparr>vw_len := length d\<rparr>"
  define st' where "st' = (if d = [] then st else st\<lparr>rt_heap := (rt_heap st)(a \<mapsto> poke m 0 d)\<rparr>)"
  have all: "d @ drop (length d) m = (if d = [] then m else poke m 0 d)" "length (d @ drop (length d) m) = vw_size v"
    using fits m(2) by (auto simp: poke_def simp flip: d_def)
  have "buffer_serialize save x v st = Inr (length d, ?v, st')"
    using fits m ptr stream_pieces_fit [of "[]" "save x" "vw_size v"]
    by (auto simp: buffer_serialize_def write_view_def st'_def simp flip: d_def)
  moreover have content: "rt_heap st' a = Some (d @ drop (length d) m)" using m(1) all(1) by (auto simp: st'_def)
  then have "view_data ?v st' = Inr d" "read_bytes (vw_ptr ?v) (vw_size ?v) st' = Inr (d @ drop (length d) m)"
    using ptr fits all(2) m(2) by (auto simp: view_data_def read_bytes_def block_content_def peek_def simp flip: d_def)
  moreover from this(2) lib have "buffer_deserialize load ?v st' = Inr x" by (simp add: buffer_deserialize_def archive_pair_def d_def)
  ultimately show ?thesis unfolding d_def by blast
qed

text \<open>
  When an object does not fit, the part that does is written over the old content, and the caller is told the length of the
  old content, as if that had been written.
\<close>

lemma serialize_overflow_unnoticed:
  assumes "vw_size v < length (concat (save x))" and "vw_ptr v = Some (HeapBlock a, 0)" and "rt_heap st a = Some m" and "length m = vw_size v"
  shows "buffer_serialize save x v st =
           Inr (vw_len v, v, if vw_size v = 0 then st else st\<lparr>rt_heap := (rt_heap st)(a \<mapsto> take (vw_size v) (concat (save x)))\<rparr>)"
proof -
  define d where "d = take (vw_size v) (concat (save x))"
  have "length d = vw_size v" using assms(1) by (simp add: d_def)
  have "stream_pieces (vw_size v) [] (save x) = (False, d)"
    using stream_pieces_full [of "[]" "vw_size v" "save x"] assms(1) by (simp add: d_def)
  moreover have "poke m 0 d = d" "d = [] \<longleftrightarrow> vw_size v = 0" using assms(4) \<open>length d = vw_size v\<close> by (auto simp: poke_def)
  ultimately show ?thesis using assms(2-4) \<open>length d = vw_size v\<close> by (simp add: buffer_serialize_def write_view_def flip: d_def)
qed

text \<open>An archive of integers keeps the promise.\<close>

lemma integer_archive:
  "archive_pair (\<lambda>x :: int32. [le_bytes 4 (unat x)]) (\<lambda>b. Inr (of_nat (le_nat (take 4 b))))"
proof -
  have "unat x mod 256 ^ 4 = unat x" for x :: int32 using unsigned_less [of x, where ?'a = nat] by (intro mod_less) simp
  then show ?thesis by (simp add: archive_pair_def)
qed

end
