(* ===== verification/Completion.thy ===== *)
theory Completion
  imports Controller
begin

text \<open>
  Every invocation that a controller has accepted is answered. The running invocations are as many
  as the busy workers, whatever arrives, if each result that a worker reports is that of a
  running invocation; so while anything is outstanding some worker is busy with it, each result
  makes the number of outstanding invocations smaller, and the remaining ones take the free worker.
\<close>

section \<open>Running invocations and busy workers\<close>

definition running :: "work_queue \<Rightarrow> string set" where
  "running q = {k. status_of q k = Running}"

definition busy_count :: "function_worker list \<Rightarrow> nat" where
  "busy_count ws = length (filter fw_busy ws)"

definition keys_ok :: "work_queue \<Rightarrow> bool" where
  "keys_ok q \<longleftrightarrow> finite (dom (wq_active q)) \<and> (\<forall>k \<in> dom (wq_active q). length k \<le> IPC_ID_LENGTH)"

definition accounted :: "controller \<Rightarrow> bool" where
  "accounted c \<longleftrightarrow> controller_inv c \<and> keys_ok (ct_queue c) \<and> card (running (ct_queue c)) = busy_count (wp_workers (ct_workers c))"

lemma busy_count_map: "busy_count ws = length (filter id (map fw_busy ws))"
  by (simp add: busy_count_def filter_map comp_def)

lemma busy_idle: "busy_count ws + idle_count ws = length ws"
  unfolding busy_count_def idle_count_def by (rule sum_length_filter_compl)

lemma pool_busy: "pool_inv p \<Longrightarrow> int (busy_count (wp_workers p)) = int (length (wp_workers p)) - wp_idle p"
  using busy_idle [of "wp_workers p"] by (simp add: pool_inv_def)

text \<open>What a handler that finishes nothing keeps.\<close>

definition undisturbed :: "controller \<Rightarrow> controller \<Rightarrow> bool" where
  "undisturbed c c' \<longleftrightarrow> map fw_busy (wp_workers (ct_workers c')) = map fw_busy (wp_workers (ct_workers c)) \<and>
     running (ct_queue c') = running (ct_queue c) \<and> (keys_ok (ct_queue c) \<longrightarrow> keys_ok (ct_queue c'))"

lemma undisturbed_refl: "undisturbed c c"
  by (simp add: undisturbed_def)

lemma undisturbed_trans: "undisturbed c c1 \<Longrightarrow> undisturbed c1 c2 \<Longrightarrow> undisturbed c c2"
  by (simp add: undisturbed_def)

lemma undisturbed_cong:
  "ct_queue c' = ct_queue c \<Longrightarrow> map fw_busy (wp_workers (ct_workers c')) = map fw_busy (wp_workers (ct_workers c)) \<Longrightarrow> undisturbed c c'"
  by (simp add: undisturbed_def)

lemma undisturbed_accounted: "accounted c \<Longrightarrow> controller_inv c' \<Longrightarrow> undisturbed c c' \<Longrightarrow> accounted c'"
  by (simp add: accounted_def undisturbed_def busy_count_map)

lemma Invocation_key: "Invocation f key t src = Inr i \<Longrightarrow> length key \<le> IPC_ID_LENGTH"
  by (auto simp: Invocation_def and_then_eq_Inr set_irq_invocation_id_def split: if_splits)

lemma add_payload_undisturbed:
  assumes "add_payload now f key buf src (ct_queue c) = Inr (r, q)"
  shows "undisturbed c (c\<lparr>ct_queue := q\<rparr>)"
  using assms
proof (cases rule: add_payload_cases)
  case (Extend i)
  then show ?thesis by (auto simp: undisturbed_def running_def keys_ok_def status_of_cases insert_absorb)
next
  case (New t i)
  with Invocation_ok [OF New(4)] Invocation_key [OF New(4)] show ?thesis
    by (auto simp: undisturbed_def running_def keys_ok_def)
next
  case (Refused msg)
  then show ?thesis by (simp add: undisturbed_def)
qed

lemma process_invocation_result_undisturbed:
  assumes "process_invocation_result src iid code payload c = Inr c'"
  shows "undisturbed c c'"
  by (rule undisturbed_cong)
     (use assms in \<open>auto simp: process_invocation_result_def server_call_def and_then_eq_Inr Let_def split: if_splits prod.splits\<close>)

lemma add_or_report_undisturbed:
  assumes "add_payload now f k buf src (ct_queue c) = Inr (res, q)"
    and "(case res of None \<Rightarrow> Inr (c\<lparr>ct_queue := q\<rparr>)
          | Some err \<Rightarrow> process_invocation_result src' k code err (c\<lparr>ct_queue := q\<rparr>)) = Inr c'"
  shows "undisturbed c c'"
  using assms(2) add_payload_undisturbed [OF assms(1)]
  by (auto intro: undisturbed_trans dest: process_invocation_result_undisturbed split: option.splits)

lemma process_external_message_undisturbed:
  assumes r: "process_external_message now m c = Inr c'"
  shows "undisturbed c c'"
proof -
  from r obtain v where v: "parse (em_msg m) = Inr v" by (auto simp: process_external_message_def and_then_eq_Inr)
  note [simp] = process_external_message_def v
  show ?thesis
  proof (cases v)
    case (InvocationRequestPtr req)
    with r show ?thesis
      by (auto simp: external_invocation_def and_then_eq_Inr intro: add_or_report_undisturbed)
  next
    case (InvocationResultPtr req)
    show ?thesis
      by (rule undisturbed_cong) (use r InvocationResultPtr in \<open>auto simp: external_result_eq and_then_eq_Inr\<close>)
  next
    case (PutMessagePtr req)
    show ?thesis
      by (rule undisturbed_cong)
         (use r PutMessagePtr in \<open>auto simp: external_put_def and_then_eq_Inr split: prod.splits option.splits\<close>)
  qed (use r undisturbed_refl in auto)
qed

lemma process_external_messages_undisturbed:
  "process_external_messages now ms c = Inr c' \<Longrightarrow> undisturbed c c'"
  by (induction now ms c rule: process_external_messages.induct)
     (auto simp: undisturbed_refl and_then_eq_Inr intro: undisturbed_trans dest: process_external_message_undisturbed)

lemma process_internal_message_undisturbed:
  assumes r: "process_internal_message ser now w msg payload c = Inr c'"
    and v: "parse_message msg = Inr v" "\<And>req. v \<noteq> InvocationResultV req"
  shows "undisturbed c c'"
proof (cases v)
  case (InvocationRequestV req)
  let ?c = "c\<lparr>ct_pending := insert_invocation (irq_invocation_id req) w (ct_pending c)\<rparr>"
  have c: "undisturbed c ?c" by (simp add: undisturbed_def)
  from r v(1) InvocationRequestV have "undisturbed ?c c'"
    by (auto simp: process_internal_message_def process_invocation_def Let_def and_then_eq_Inr server_call_def split: if_splits
        intro: add_or_report_undisturbed undisturbed_cong)
  with c show ?thesis by (rule undisturbed_trans)
next
  case (InvocationResultV req)
  with v(2) show ?thesis by blast
qed (rule undisturbed_cong; use r v(1) in \<open>auto simp: process_internal_message_def process_put_def process_get_def process_state_keys_def
       and_then_eq_Inr Let_def server_call_def split: prod.splits option.splits if_splits\<close>)+


section \<open>A result\<close>

text \<open>What is due: the invocations that somebody outside of the process waits for, and who.\<close>

definition due :: "controller \<Rightarrow> (RemoteType \<times> string option \<times> string) set" where
  "due c = {(src_type (inv_source i), src_process (inv_source i), k) | k i.
     wq_active (ct_queue c) k = Some i \<and> is_remote (inv_source i)}"

lemma running_result:
  assumes acc: "accounted c" and w: "w < length (wp_workers (ct_workers c))" "fw_busy (wp_workers (ct_workers c) ! w)"
    and i: "wq_active (ct_queue c) k = Some i" "inv_active i"
  shows "\<exists>c'. process_worker_result now w k code payload c = Inr c' \<and> accounted c' \<and>
           ct_queue c' = (ct_queue c)\<lparr>wq_active := (wq_active (ct_queue c))(k := None)\<rparr> \<and>
           length (wp_workers (ct_workers c')) = length (wp_workers (ct_workers c)) \<and>
           ct_server c' = ct_server c @ (if is_remote (inv_source i)
             then [ServerInvocationResult (src_type (inv_source i)) (src_process (inv_source i)) k code payload] else [])"
proof -
  let ?q = "(ct_queue c)\<lparr>wq_active := (wq_active (ct_queue c))(k := None)\<rparr>" and ?c = "c\<lparr>ct_queue := (ct_queue c)\<lparr>wq_active := (wq_active (ct_queue c))(k := None)\<rparr>\<rparr>"
  have inv: "controller_inv c" and keys: "keys_ok (ct_queue c)" using acc by (simp_all add: accounted_def)
  have fin: "wq_finish now k (ct_queue c) = (Some (i\<lparr>inv_end := now\<rparr>), ?q)" using i by (simp add: wq_finish_def)
  have "length k \<le> IPC_ID_LENGTH" using keys i(1) by (auto simp: keys_ok_def)
  then have "\<exists>r. build_result k code (length payload) = Inr r" by (simp add: build_result_def set_irs_invocation_id_def)
  then have "\<exists>c1. process_invocation_result (inv_source i) k code payload ?c = Inr c1 \<and> ct_queue c1 = ?q \<and>
      length (wp_workers (ct_workers c1)) = length (wp_workers (ct_workers c)) \<and>
      wp_idle (ct_workers c1) = wp_idle (ct_workers c) \<and>
      ct_server c1 = ct_server c @ (if is_remote (inv_source i)
        then [ServerInvocationResult (src_type (inv_source i)) (src_process (inv_source i)) k code payload] else [])"
    by (cases "is_remote (inv_source i)") (auto simp: process_invocation_result_def server_call_def Let_def split: prod.splits)
  then obtain c1 where c1: "process_invocation_result (inv_source i) k code payload ?c = Inr c1" "ct_queue c1 = ?q"
      "length (wp_workers (ct_workers c1)) = length (wp_workers (ct_workers c))"
      "wp_idle (ct_workers c1) = wp_idle (ct_workers c)"
      "ct_server c1 = ct_server c @ (if is_remote (inv_source i)
        then [ServerInvocationResult (src_type (inv_source i)) (src_process (inv_source i)) k code payload] else [])"
    by blast
  let ?c' = "c1\<lparr>ct_workers := workers_finish w (ct_workers c1)\<rparr>"
  have r: "process_worker_result now w k code payload c = Inr ?c'" by (simp add: process_worker_result_def fin c1(1))
  have inv': "controller_inv ?c'" by (rule process_worker_result_inv [OF inv w r])
  have "running ?q = running (ct_queue c) - {k}" "k \<in> running (ct_queue c)" using i by (auto simp: running_def status_of_cases)
  moreover have "finite (running (ct_queue c))"
    by (rule finite_subset [of _ "dom (wq_active (ct_queue c))"]) (use keys in \<open>auto simp: running_def status_of_cases keys_ok_def\<close>)
  moreover have "int (busy_count (wp_workers (ct_workers ?c'))) = int (busy_count (wp_workers (ct_workers c))) - 1"
    using pool_busy [of "ct_workers ?c'"] pool_busy [of "ct_workers c"] inv inv' c1(3,4)
    by (simp add: controller_inv_def workers_finish_def)
  ultimately have "card (running ?q) = busy_count (wp_workers (ct_workers ?c'))" using acc by (simp add: accounted_def)
  moreover have "keys_ok ?q" using keys by (auto simp: keys_ok_def)
  ultimately have "accounted ?c'" using inv' c1(2) by (simp add: accounted_def)
  with r c1(2,3,5) show ?thesis by (simp add: workers_finish_def)
qed

section \<open>Scheduling\<close>

lemma workers_submit_source: "workers_submit i p = Inr (i', p') \<Longrightarrow> inv_source i' = inv_source i"
  by (auto simp: workers_submit_def confirm_payload_def and_then_eq_Inr Let_def split: if_splits option.splits)

lemma schedule_sources:
  "schedule q p = Inr (q', p') \<Longrightarrow> map_option inv_source (wq_active q' k) = map_option inv_source (wq_active q k)"
proof (induction q p rule: schedule.induct)
  case (1 q p)
  show ?case
  proof (cases "\<not> has_idle_workers p \<or> (\<exists>q1. wq_next q = Inr (None, q1))")
    case True
    with 1(2) show ?thesis by (subst (asm) schedule.simps) (auto simp: wq_next_def and_then_eq_Inr split: if_splits)
  next
    case False
    with 1(2) obtain x q1 i i' p1 where n: "wq_next q = Inr (Some x, q1)" "wq_active q1 x = Some i" "workers_submit i p = Inr (i', p1)"
        "schedule (q1\<lparr>wq_active := (wq_active q1)(x \<mapsto> i')\<rparr>) p1 = Inr (q', p')"
      by (subst (asm) schedule.simps) (auto split: sum.splits option.splits prod.splits if_splits)
    have "map_option inv_source (wq_active q' k) = map_option inv_source (((wq_active q1)(x \<mapsto> i')) k)"
      using 1(1) [OF _ n(1) _ _ n(2) n(3)] False n(4) by simp
    moreover have "wq_active q1 = wq_active q" using n(1) by (auto simp: wq_next_def and_then_eq_Inr)
    ultimately show ?thesis using n(2) workers_submit_source [OF n(3)] by auto
  qed
qed

lemma due_sources:
  assumes "\<And>k. map_option inv_source (wq_active (ct_queue c') k) = map_option inv_source (wq_active (ct_queue c) k)"
  shows "due c' = due c" and "dom (wq_active (ct_queue c')) = dom (wq_active (ct_queue c))"
proof -
  have "due x = {(src_type src, src_process src, k) | k src. map_option inv_source (wq_active (ct_queue x) k) = Some src \<and> is_remote src}" for x
    by (auto simp: due_def)
  then show "due c' = due c" by (simp only: assms)
  show "dom (wq_active (ct_queue c')) = dom (wq_active (ct_queue c))" using assms by (metis (no_types) domIff map_option_is_None subset_antisym subsetI)
qed

lemma schedule_accounted:
  assumes acc: "accounted c" and small: "small_payloads (ct_queue c)"
  shows "\<exists>c'. schedule_controller c = Inr c' \<and> accounted c' \<and> small_payloads (ct_queue c') \<and>
           (wp_idle (ct_workers c') = 0 \<or> wq_pending (ct_queue c') = []) \<and>
           length (wp_workers (ct_workers c')) = length (wp_workers (ct_workers c)) \<and> ct_server c' = ct_server c \<and>
           due c' = due c \<and> dom (wq_active (ct_queue c')) = dom (wq_active (ct_queue c))"
proof -
  let ?q = "ct_queue c" and ?p = "ct_workers c"
  let ?n = "min (nat (wp_idle ?p)) (length (wq_pending ?q))"
  have inv: "wq_inv ?q" "pool_inv ?p" "keys_ok ?q" "card (running ?q) = busy_count (wp_workers ?p)"
    using acc by (simp_all add: accounted_def controller_inv_def)
  from schedule_result [OF inv(1,2) small] obtain q p where
    s: "schedule ?q ?p = Inr (q, p)" "wq_inv q" "pool_inv p" "small_payloads q" "length (wp_workers p) = length (wp_workers ?p)"
       "wq_pending q = drop ?n (wq_pending ?q)" "wp_idle p = wp_idle ?p - int ?n"
       "status_of q = (\<lambda>k. if k \<in> set (take ?n (wq_pending ?q)) then Running else status_of ?q k)"
    by (auto simp: Let_def)
  let ?c = "c\<lparr>ct_queue := q, ct_workers := p\<rparr>"
  have sched: "schedule_controller c = Inr ?c" by (simp add: schedule_controller_def s(1))
  from schedule_controller_inv [of c] acc small sched have ok: "controller_inv ?c" "wp_idle p = 0 \<or> wq_pending q = []"
    by (auto simp: accounted_def)
  have same: "due ?c = due c" "dom (wq_active q) = dom (wq_active ?q)"
    using due_sources [of ?c c] schedule_sources [OF s(1)] by simp_all
  have "set (take ?n (wq_pending ?q)) \<inter> running ?q = {}"
    using inv(1) by (auto simp: wq_inv_def running_def dest!: in_set_takeD)
  moreover have "running q = set (take ?n (wq_pending ?q)) \<union> running ?q" by (auto simp: running_def s(8))
  moreover have "finite (running ?q)"
    by (rule finite_subset [of _ "dom (wq_active ?q)"]) (use inv(3) in \<open>auto simp: running_def status_of_cases keys_ok_def\<close>)
  ultimately have "card (running q) = card (set (take ?n (wq_pending ?q))) + card (running ?q)" by (simp add: card_Un_disjoint)
  moreover have "card (set (take ?n (wq_pending ?q))) = ?n" using inv(1) by (simp add: wq_inv_def distinct_card)
  ultimately have "card (running q) = busy_count (wp_workers p)"
    using pool_busy [OF inv(2)] pool_busy [OF s(3)] s(5,7) inv(4) by simp
  with ok(1) inv(3) same(2) have "accounted ?c" by (simp add: accounted_def keys_ok_def)
  with sched s(4,5) ok(2) same show ?thesis by simp
qed

section \<open>The machine\<close>

text \<open>What the workers are trusted with: a busy worker reports the result of a running invocation.\<close>

fun report_ok :: "controller \<Rightarrow> poll_event \<Rightarrow> bool" where
  "report_ok c (WorkerMessage w msg payload) \<longleftrightarrow>
     w < length (wp_workers (ct_workers c)) \<and>
     (\<forall>r. parse_message msg = Inr (InvocationResultV r) \<longrightarrow>
        fw_busy (wp_workers (ct_workers c) ! w) \<and> status_of (ct_queue c) (irs_invocation_id r) = Running)"
| "report_ok c e \<longleftrightarrow> True"

inductive trusted_step :: "controller \<Rightarrow> controller \<Rightarrow> bool" where
  trusted_remote: "trusted_step c (remote_message m b p c)"
| trusted_dataplane: "trusted_step c (dataplane_message m b c)"
| trusted_controlplane: "trusted_step c (controlplane_message m b c)"
| trusted_update: "trusted_step c (update_application st p c)"
| trusted_event: "report_ok c e \<Longrightarrow> handle_event ser now e c = Inr c' \<Longrightarrow> trusted_step c c'"
| trusted_schedule: "schedule_controller c = Inr c' \<Longrightarrow> small_payloads (ct_queue c) \<Longrightarrow> trusted_step c c'"
| trusted_shutdown: "trusted_step c (controller_shutdown c)"

lemma handle_event_accounted:
  assumes acc: "accounted c" and ok: "report_ok c e" and r: "handle_event ser now e c = Inr c'"
  shows "accounted c'"
proof (cases "\<exists>w msg payload req. e = WorkerMessage w msg payload \<and> parse_message msg = Inr (InvocationResultV req)")
  case True
  then obtain w msg payload req where e: "e = WorkerMessage w msg payload" "parse_message msg = Inr (InvocationResultV req)" by blast
  with ok obtain i where "w < length (wp_workers (ct_workers c))" "fw_busy (wp_workers (ct_workers c) ! w)"
      "wq_active (ct_queue c) (irs_invocation_id req) = Some i" "inv_active i"
    by (auto simp: status_of_cases)
  from running_result [OF acc this, of now "irs_return_code req" "buffer_data payload"] e r show ?thesis
    by (auto simp: process_internal_message_def)
next
  case False
  have "event_ok c e" using ok by (cases e) auto
  with acc r have inv: "controller_inv c'" by (blast intro: handle_event_inv dest: accounted_def [THEN iffD1])
  have "undisturbed c c'"
  proof (cases e)
    case WakeUp
    let ?c = "c\<lparr>ct_external := []\<rparr>"
    from WakeUp r obtain c1 where c1: "process_external_messages now (ct_external c) ?c = Inr c1"
      and c': "(if ct_updates c1 = [] then Inr c1 else process_application_updates (ct_updates c1) (c1\<lparr>ct_updates := []\<rparr>)) = Inr c'"
      by (auto simp: and_then_eq_Inr)
    have "undisturbed c ?c" by (simp add: undisturbed_def)
    moreover have "undisturbed ?c c1" using c1 by (rule process_external_messages_undisturbed)
    moreover have "undisturbed c1 c'"
      using c' by (auto simp: process_application_updates_def and_then_eq_Inr undisturbed_refl split: if_splits
          intro!: undisturbed_cong dest: broadcast_updates_fields)
    ultimately show ?thesis by (blast intro: undisturbed_trans)
  next
    case (WorkerMessage w msg payload)
    with r obtain v where "parse_message msg = Inr v" by (auto simp: process_internal_message_def and_then_eq_Inr)
    with WorkerMessage r False show ?thesis by (auto intro: process_internal_message_undisturbed)
  next
    case (WorkerPartial w)
    with r show ?thesis by (simp add: undisturbed_refl)
  qed
  with acc inv show ?thesis by (blast intro: undisturbed_accounted)
qed

interpretation trusted: invariant_machine controller_initial trusted_step accounted
proof
  fix c assume c: "controller_initial c"
  then have "controller_inv c" by (rule ctrl.good_initial)
  moreover have "wq_active (ct_queue c) = Map.empty" "busy_count (wp_workers (ct_workers c)) = 0"
    using c by (auto simp: controller_initial_def Controller_def and_then_eq_Inr WorkQueue_def Workers_def busy_count_def FunctionWorker_def
        split: Language.splits) (metis Language.exhaust)+
  ultimately show "accounted c" by (simp add: accounted_def keys_ok_def running_def status_of_def)
next
  fix c c' assume acc: "accounted c" and "trusted_step c c'"
  from this(2) show "accounted c'"
  proof (cases rule: trusted_step.cases)
    case (trusted_event e ser now)
    with acc show ?thesis by (blast intro: handle_event_accounted)
  next
    case trusted_schedule
    with schedule_accounted [OF acc] show ?thesis by auto
  qed (use acc in \<open>simp_all add: accounted_def controller_inv_def remote_message_def dataplane_message_def controlplane_message_def
      update_application_def controller_shutdown_def\<close>)
qed

section \<open>Completion\<close>

definition outstanding :: "controller \<Rightarrow> nat" where
  "outstanding c = card (dom (wq_active (ct_queue c)))"

text \<open>An iteration of the loop in which a busy worker reports the result of a running invocation.\<close>

inductive completes :: "((string \<times> nat) list \<Rightarrow> bytes) \<Rightarrow> controller \<Rightarrow> controller \<Rightarrow> bool" for ser where
  completes_result: "w < length (wp_workers (ct_workers c)) \<Longrightarrow> fw_busy (wp_workers (ct_workers c) ! w) \<Longrightarrow>
     parse_message msg = Inr (InvocationResultV r) \<Longrightarrow> status_of (ct_queue c) (irs_invocation_id r) = Running \<Longrightarrow>
     poll_iteration ser now [WorkerMessage w msg b] c = Inr c' \<Longrightarrow> completes ser c c'"

fun answered_call :: "server_call \<Rightarrow> (RemoteType \<times> string option \<times> string) option" where
  "answered_call (ServerInvocationResult t p k code out) = Some (t, p, k)"
| "answered_call _ = None"

definition settled :: "controller \<Rightarrow> bool" where
  "settled c \<longleftrightarrow> accounted c \<and> small_payloads (ct_queue c) \<and> wp_workers (ct_workers c) \<noteq> [] \<and>
     (wp_idle (ct_workers c) = 0 \<or> wq_pending (ct_queue c) = [])"

lemma in_due:
  "(t, p, k) \<in> due c \<longleftrightarrow> (\<exists>i. wq_active (ct_queue c) k = Some i \<and> is_remote (inv_source i) \<and>
     t = src_type (inv_source i) \<and> p = src_process (inv_source i))"
  by (auto simp: due_def)

lemma due_finish:
  assumes "wq_active (ct_queue c') = (wq_active (ct_queue c))(k := None)" and "wq_active (ct_queue c) k = Some i"
    and "as = (if is_remote (inv_source i) then [(src_type (inv_source i), src_process (inv_source i), k)] else [])"
  shows "due c = due c' \<union> set as" and "due c' \<inter> set as = {}"
proof -
  have "x \<in> due c \<longleftrightarrow> x \<in> due c' \<union> set as" for x
    by (cases x; cases "snd (snd x) = k") (auto simp: in_due assms)
  then show "due c = due c' \<union> set as" by blast
  show "due c' \<inter> set as = {}" by (auto simp: in_due assms)
qed

lemma settled_round:
  assumes c: "settled c" and w: "w < length (wp_workers (ct_workers c))" "fw_busy (wp_workers (ct_workers c) ! w)"
    and r: "parse_message msg = Inr (InvocationResultV r)" "status_of (ct_queue c) (irs_invocation_id r) = Running"
  shows "\<exists>c' calls as. poll_iteration ser now [WorkerMessage w msg b] c = Inr c' \<and> settled c' \<and> outstanding c = Suc (outstanding c') \<and>
           ct_server c' = ct_server c @ calls \<and> map answered_call calls = map Some as \<and> distinct as \<and>
           due c = due c' \<union> set as \<and> due c' \<inter> set as = {}"
proof -
  let ?k = "irs_invocation_id r"
  have acc: "accounted c" "small_payloads (ct_queue c)" "wp_workers (ct_workers c) \<noteq> []" using c by (simp_all add: settled_def)
  obtain i where i: "wq_active (ct_queue c) ?k = Some i" "inv_active i" using r(2) by (auto simp: status_of_cases)
  define calls where "calls = (if is_remote (inv_source i)
    then [ServerInvocationResult (src_type (inv_source i)) (src_process (inv_source i)) ?k (irs_return_code r) (buffer_data b)] else [])"
  define as where "as = (if is_remote (inv_source i) then [(src_type (inv_source i), src_process (inv_source i), ?k)] else [])"
  obtain c1 where c1: "process_worker_result now w ?k (irs_return_code r) (buffer_data b) c = Inr c1" "accounted c1"
      "ct_queue c1 = (ct_queue c)\<lparr>wq_active := (wq_active (ct_queue c))(?k := None)\<rparr>"
      "length (wp_workers (ct_workers c1)) = length (wp_workers (ct_workers c))" "ct_server c1 = ct_server c @ calls"
    using running_result [OF acc(1) w i, of now "irs_return_code r" "buffer_data b", folded calls_def] by blast
  have "small_payloads (ct_queue c1)" using acc(2) by (auto simp: small_payloads_def c1(3))
  from schedule_accounted [OF c1(2) this] obtain c2 where c2: "schedule_controller c1 = Inr c2" "accounted c2" "small_payloads (ct_queue c2)"
      "wp_idle (ct_workers c2) = 0 \<or> wq_pending (ct_queue c2) = []" "length (wp_workers (ct_workers c2)) = length (wp_workers (ct_workers c1))"
      "ct_server c2 = ct_server c1" "due c2 = due c1" "dom (wq_active (ct_queue c2)) = dom (wq_active (ct_queue c1))" by blast
  have "poll_iteration ser now [WorkerMessage w msg b] c = Inr c2"
    using r(1) c1(1) c2(1) by (simp add: poll_iteration_def process_internal_message_def)
  moreover have "wp_workers (ct_workers c2) \<noteq> []" using acc(3) c1(4) c2(5) by auto
  then have "settled c2" using c2(2-4) by (simp add: settled_def)
  moreover have "outstanding c = Suc (outstanding c2)"
  proof -
    have "finite (dom (wq_active (ct_queue c)))" "?k \<in> dom (wq_active (ct_queue c))" using acc(1) i(1) by (auto simp: accounted_def keys_ok_def)
    then have "card (dom (wq_active (ct_queue c))) = Suc (card (dom (wq_active (ct_queue c)) - {?k}))" by (rule card.remove)
    moreover have "dom (wq_active (ct_queue c1)) = dom (wq_active (ct_queue c)) - {?k}" by (simp add: c1(3))
    ultimately show ?thesis unfolding outstanding_def c2(8) by simp
  qed
  moreover have "ct_server c2 = ct_server c @ calls" using c1(5) c2(6) by simp
  moreover have "due c = due c2 \<union> set as" "due c2 \<inter> set as = {}"
    using due_finish [of c1 c ?k i as, OF _ i(1) as_def] c1(3) c2(7) by simp_all
  moreover have "map answered_call calls = map Some as" "distinct as" by (simp_all add: calls_def as_def)
  ultimately show ?thesis by blast
qed

lemma completed:
  assumes "settled c" and "completes ser c c'"
  obtains calls as where "settled c'" "outstanding c = Suc (outstanding c')" "ct_server c' = ct_server c @ calls"
    "map answered_call calls = map Some as" "distinct as" "due c = due c' \<union> set as" "due c' \<inter> set as = {}"
  using assms(2)
proof (cases rule: completes.cases)
  case (completes_result w msg r now b)
  from settled_round [OF assms(1) completes_result(1-4), of ser now b] completes_result(5) that show ?thesis by auto
qed

lemma settled_busy:
  assumes "settled c" and "outstanding c \<noteq> 0"
  shows "\<exists>w k. w < length (wp_workers (ct_workers c)) \<and> fw_busy (wp_workers (ct_workers c) ! w) \<and> status_of (ct_queue c) k = Running"
proof -
  have acc: "controller_inv c" "card (running (ct_queue c)) = busy_count (wp_workers (ct_workers c))" "keys_ok (ct_queue c)"
    using assms(1) by (simp_all add: settled_def accounted_def)
  have "busy_count (wp_workers (ct_workers c)) \<noteq> 0"
  proof (cases "wq_pending (ct_queue c) = []")
    case True
    obtain k where k: "wq_active (ct_queue c) k \<noteq> None"
      using assms(2) by (auto simp: outstanding_def dom_def card_eq_0_iff)
    then have "status_of (ct_queue c) k = Running"
      using acc(1) True by (metis controller_inv_def empty_iff inv_status.exhaust list.set(1) status_of_cases(1) wq_inv_def)
    moreover have "finite (running (ct_queue c))"
      by (rule finite_subset [of _ "dom (wq_active (ct_queue c))"]) (use acc(3) in \<open>auto simp: running_def status_of_cases keys_ok_def\<close>)
    ultimately show ?thesis unfolding acc(2) [symmetric] by (auto simp: running_def card_eq_0_iff)
  next
    case False
    then have "wp_idle (ct_workers c) = 0" "wp_workers (ct_workers c) \<noteq> []" using assms(1) by (simp_all add: settled_def)
    with pool_busy [of "ct_workers c"] acc(1) show ?thesis by (simp add: controller_inv_def)
  qed
  then have "filter fw_busy (wp_workers (ct_workers c)) \<noteq> []" "running (ct_queue c) \<noteq> {}" using acc(2) by (auto simp: busy_count_def)
  then show ?thesis by (auto simp: running_def filter_empty_conv in_set_conv_nth)
qed

section \<open>Properties\<close>


text \<open>A request of the data plane has arrived at a new controller.\<close>

lemma example_accepted:
  "\<exists>c0 i. reachable controller_initial trusted_step c0 \<and> ct_queue c0 =
     (WorkQueue [''add'' \<mapsto> \<lparr>fn_trigger = DirectTrigger ''add'', fn_module = ''lib'', fn_name = ''add''\<rparr>])\<lparr>
        wq_active := [''id-1'' \<mapsto> i], wq_pending := [''id-1'']\<rparr> \<and> length (inv_payload i) = 1 \<and> wp_workers (ct_workers c0) \<noteq> []"
proof -
  let ?cfg = "\<lparr>cfg_port = 8080, cfg_verbose = False, cfg_function_workers = 2, cfg_ipc_mode = POSIX_MQ,
      cfg_ipc_message_size = 8192, cfg_ipc_name_prefix = [], cfg_deployment_location = [], cfg_process_id = ''proc'',
      cfg_control_plane_addr = None, cfg_code = \<lparr>code_location = ''/code'', code_config_location = ''config.json'',
      code_language = CPP, language_runtime_path = []\<rparr>\<rparr>"
  have "Controller ''/bin'' 7 ?cfg example_functions = Inr example_controller"
    by (simp add: Controller_def Workers_def example_functions_def Functions_initialize_def json_member_def
        parse_function_def parse_trigger_def example_controller_def numeral_2_eq_2)
  moreover have "0 \<le> cfg_function_workers ?cfg" by simp
  ultimately have "controller_initial example_controller" unfolding controller_initial_def by blast
  then have start: "reachable controller_initial trusted_step example_controller" by (rule reachable_start)
  let ?m = "\<lparr>em_source_type = DATA_PLANE, em_source = None, em_msg = msg_data example_request, em_payload = Buffer_new 4\<rparr>"
  define c1 where "c1 = dataplane_message (msg_data example_request) (Buffer_new 4) example_controller"
  have "trusted_step example_controller c1" unfolding c1_def by (rule trusted_dataplane)
  with start have r1: "reachable controller_initial trusted_step c1" by (rule reachable_step)
  obtain i0 where i0: "Invocation ''add'' ''id-1'' (DirectTrigger ''add'') (message_source ?m) = Inr i0"
    using Invocation_fits [of "''add''" "''id-1''"] by auto
  let ?i = "i0\<lparr>inv_payload := [Buffer_new 4], inv_start := 3\<rparr>"
  define c0 where "c0 = example_controller\<lparr>ct_queue := (ct_queue example_controller)\<lparr>wq_active := [''id-1'' \<mapsto> ?i], wq_pending := [''id-1'']\<rparr>\<rparr>"
  have q: "status_of (ct_queue example_controller) ''id-1'' = Absent" "get_trigger (wq_functions (ct_queue example_controller)) ''add'' = Some (DirectTrigger ''add'')"
      "wq_active (ct_queue example_controller) = Map.empty" "wq_pending (ct_queue example_controller) = []"
    by (simp_all add: example_controller_def WorkQueue_def status_of_def get_trigger_def)
  have add: "add_payload 3 ''add'' ''id-1'' (Buffer_new 4) (message_source ?m) (ct_queue example_controller) =
      Inr (None, (ct_queue example_controller)\<lparr>wq_active := [''id-1'' \<mapsto> ?i], wq_pending := [''id-1'']\<rparr>)"
    using add_payload_new [OF q(1,2) i0, of 3 "Buffer_new 4"] unfolding q(3,4) by simp
  have "process_external_message 3 ?m example_controller = Inr c0"
    using add by (simp only: c0_def process_external_message_def external_invocation_def external_message.simps example_request_parsed
        and_then_simps MessageVariants.case prod.case option.case)
  moreover have "c1 = example_controller\<lparr>ct_external := [?m]\<rparr>" "example_controller\<lparr>ct_external := []\<rparr> = example_controller"
      "ct_updates c0 = []"
    by (simp_all add: c0_def c1_def dataplane_message_def example_controller_def)
  ultimately have "handle_event (\<lambda>_. []) 3 WakeUp c1 = Inr c0" by simp
  with trusted_event [of c1 WakeUp] have "trusted_step c1 c0" by simp
  with r1 have "reachable controller_initial trusted_step c0" by (rule reachable_step)
  then show ?thesis
    by (intro exI [of _ c0] exI [of _ ?i] conjI) (simp_all add: c0_def example_controller_def)
qed


end
