(* ===== verification/Worker_Launch.thy ===== *)
theory Worker_Launch
  imports Work_Queue Invoker
begin

text \<open>
  The message queues between a controller and its invokers: the constructor of a worker in
  \<^verbatim>\<open>src/process/controller/src/workers.cpp\<close> creates them before it forks, the constructor of the invoker
  opens them by the name it is given on its command line, and \<^verbatim>\<open>shutdown_channels\<close> removes them. The
  operating system's table of queues is the state; the limits that a kernel sets for the number and
  the message size of queues are not part of it.
\<close>

section \<open>Creating and removing queues\<close>

definition worker_channels :: "IPCMode \<Rightarrow> string \<Rightarrow> nat \<Rightarrow> mq_table \<Rightarrow> ((ipc_channel \<times> ipc_channel) option \<times> mq_table) result" where
  "worker_channels mode ipc_name ipc_msg_size k =
     (if mode = POSIX_MQ then
        and_then (POSIXMQChannel (ipc_name @ ''_read'') True True ipc_msg_size k) (\<lambda>(r, k1).
        and_then (POSIXMQChannel (ipc_name @ ''_write'') True True ipc_msg_size k1) (\<lambda>(w, k2).
        Inr (Some (r, w), k2)))
      else Inr (None, k))"

fun create_workers ::
    "IPCMode \<Rightarrow> nat \<Rightarrow> string list \<Rightarrow> mq_table \<Rightarrow> ((ipc_channel \<times> ipc_channel) option list \<times> mq_table) result" where
  "create_workers mode sz [] k = Inr ([], k)"
| "create_workers mode sz (n # ns) k =
     and_then (worker_channels mode n sz k) (\<lambda>(c, k1).
     and_then (create_workers mode sz ns k1) (\<lambda>(cs, k2). Inr (c # cs, k2)))"

definition launch_workers :: "controller_config \<Rightarrow> nat \<Rightarrow> mq_table \<Rightarrow> ((ipc_channel \<times> ipc_channel) option list \<times> mq_table) result" where
  "launch_workers cfg pid k =
     (if code_language (cfg_code cfg) = NO_LANGUAGE then Inl ProcessExit
      else create_workers (cfg_ipc_mode cfg) (nat (cfg_ipc_message_size cfg)) (map (worker_ipc_name cfg pid) [0..<nat (cfg_function_workers cfg)]) k)"

text \<open>The channels of a worker that has none are null pointers.\<close>

fun shutdown_channels :: "(ipc_channel \<times> ipc_channel) option list \<Rightarrow> mq_table \<Rightarrow> mq_table result" where
  "shutdown_channels [] k = Inr k"
| "shutdown_channels (None # cs) k = Inl UndefinedBehaviour"
| "shutdown_channels (Some (r, w) # cs) k =
     and_then (channel_shutdown r k) (\<lambda>k1. and_then (channel_shutdown w k1) (shutdown_channels cs))"

section \<open>Names of queues\<close>

definition queue_names :: "string list \<Rightarrow> string list" where
  "queue_names ns = concat (map (\<lambda>n. [n @ ''_read'', n @ ''_write'']) ns)"

lemma queue_names_simps [simp]:
  "queue_names [] = []" "queue_names (n # ns) = (n @ ''_read'') # (n @ ''_write'') # queue_names ns"
  by (simp_all add: queue_names_def)

lemma in_queue_names: "q \<in> set (queue_names ns) \<longleftrightarrow> (\<exists>n \<in> set ns. q = n @ ''_read'' \<or> q = n @ ''_write'')"
  by (auto simp: queue_names_def)

lemma read_not_write: "n @ ''_read'' \<noteq> m @ ''_write''"
proof
  assume "n @ ''_read'' = m @ ''_write''"
  then have "last (n @ ''_read'') = last (m @ ''_write'')" by (rule arg_cong)
  then show False by simp
qed

lemma distinct_queue_names: "distinct ns \<Longrightarrow> distinct (queue_names ns)"
  by (induction ns) (auto simp: in_queue_names read_not_write read_not_write [symmetric])

lemma decimal_inj: "decimal i = decimal j \<longleftrightarrow> i = j"
  by (metis decimal_digits)

lemma worker_names_distinct: "distinct (map (worker_ipc_name cfg pid) [0..<n])"
  by (auto simp: distinct_map inj_on_def worker_ipc_name_def decimal_inj split: if_splits)

section \<open>The table of queues\<close>

definition channel_names :: "(ipc_channel \<times> ipc_channel) option list \<Rightarrow> string list" where
  "channel_names chs = concat (map (\<lambda>c. case c of None \<Rightarrow> [] | Some (r, w) \<Rightarrow> [ch_name r, ch_name w]) chs)"

definition opened :: "string \<Rightarrow> nat \<Rightarrow> bool \<Rightarrow> ipc_channel" where
  "opened q sz create = \<lparr>ch_created = create, ch_nonblock = False, ch_name = q, ch_msg_size = sz,
     ch_buffers = BufferQueue BUFFER_ELEMS BUFFER_SIZE, ch_msg_read = False, ch_msg = ipc_Message IPC_GENERIC_HEADER,
     ch_msg_payload = Buffer_default\<rparr>"

lemma create_queue: "0 < sz \<Longrightarrow> POSIXMQChannel q True True sz k = Inr (opened q sz True, k(q \<mapsto> (sz, [])))"
  by (auto simp: POSIXMQChannel_def mq_open_create_def opened_def Let_def)

lemma open_queue: "k q = Some (sz, ms) \<Longrightarrow> POSIXMQChannel q send False d k = Inr (opened q sz False, k)"
  by (simp add: POSIXMQChannel_def opened_def Let_def)

lemma create_workers_result:
  "0 < sz \<Longrightarrow> create_workers POSIX_MQ sz ns k =
     Inr (map (\<lambda>n. Some (opened (n @ ''_read'') sz True, opened (n @ ''_write'') sz True)) ns,
          \<lambda>q. if q \<in> set (queue_names ns) then Some (sz, []) else k q)"
proof (induction ns arbitrary: k)
  case (Cons n ns)
  then show ?case by (auto simp: worker_channels_def create_queue fun_eq_iff)
qed simp

lemma shutdown_result:
  "distinct (queue_names ns) \<Longrightarrow> (\<And>q. q \<in> set (queue_names ns) \<Longrightarrow> k q \<noteq> None) \<Longrightarrow>
   shutdown_channels (map (\<lambda>n. Some (opened (n @ ''_read'') sz True, opened (n @ ''_write'') sz True)) ns) k =
     Inr (\<lambda>q. if q \<in> set (queue_names ns) then None else k q)"
proof (induction ns arbitrary: k)
  case (Cons n ns)
  let ?k = "k(n @ ''_read'' := None, n @ ''_write'' := None)"
  have "shutdown_channels (map (\<lambda>n. Some (opened (n @ ''_read'') sz True, opened (n @ ''_write'') sz True)) ns) ?k =
      Inr (\<lambda>q. if q \<in> set (queue_names ns) then None else ?k q)"
    by (rule Cons.IH) (use Cons.prems in auto)
  with Cons.prems(2) show ?case
    by (auto simp: channel_shutdown_def opened_def read_not_write [symmetric] fun_eq_iff)
qed simp

text \<open>The command line of an invoker carries the name of its queues.\<close>

definition names_queue :: "controller_config \<Rightarrow> string \<Rightarrow> string list \<Rightarrow> bool" where
  "names_queue cfg ipc_name cmd \<longleftrightarrow>
     (\<exists>pre post. cmd = pre @ [''--process-id'', cfg_process_id cfg, ''--ipc-mode'', ''posix_mq'', ''--ipc-name'', ipc_name] @ post)"

lemma launch_names_queue:
  "names_queue cfg n (launch_cpp d cfg n)" "names_queue cfg n (launch_python d cfg n)"
proof -
  have "\<exists>exe rest. launch_cpp d cfg n = [exe] @ [''--process-id'', cfg_process_id cfg, ''--ipc-mode'', ''posix_mq'', ''--ipc-name'', n] @ rest"
    by (simp add: launch_cpp_def)
  then show "names_queue cfg n (launch_cpp d cfg n)" unfolding names_queue_def by blast
  have "\<exists>py exe rest. launch_python d cfg n =
      [py, exe] @ [''--process-id'', cfg_process_id cfg, ''--ipc-mode'', ''posix_mq'', ''--ipc-name'', n] @ rest"
    by (simp add: launch_python_def)
  then show "names_queue cfg n (launch_python d cfg n)" unfolding names_queue_def by blast
qed

lemma commands_name_queues:
  assumes "Workers self_dir pid cfg = Inr (p, cmds)"
  shows "length cmds = nat (cfg_function_workers cfg)" and "i < length cmds \<Longrightarrow> names_queue cfg (worker_ipc_name cfg pid i) (cmds ! i)"
  using assms launch_names_queue by (auto simp: Workers_def split: Language.splits)

lemma invoker_opens:
  assumes "k (n @ ''_read'') = Some (sz, xs)" and "k (n @ ''_write'') = Some (sz, ys)"
  shows "\<exists>st. Invoker pid POSIX_MQ n k = Inr (st, k) \<and> rt_read st = Some (opened (n @ ''_write'') sz False) \<and>
           rt_write st = Some (opened (n @ ''_read'') sz False) \<and> \<not> rt_ending st \<and> rt_queue st = []"
  by (simp add: Invoker_def open_queue [of k "n @ ''_read''" sz xs, OF assms(1)] open_queue [of k "n @ ''_write''" sz ys, OF assms(2)])

text \<open>
  The invoker that is started with a command line reads where the worker with the given channels
  writes, and the other way round, from empty queues with the message size of the configuration.
\<close>

definition invoker_meets ::
    "controller_config \<Rightarrow> string \<Rightarrow> string list \<Rightarrow> (ipc_channel \<times> ipc_channel) option \<Rightarrow> mq_table \<Rightarrow> bool" where
  "invoker_meets cfg ipc_name cmd c k \<longleftrightarrow>
     (\<exists>r w st rd wr. c = Some (r, w) \<and> names_queue cfg ipc_name cmd \<and>
        Invoker (cfg_process_id cfg) (deserialize_mode ''posix_mq'') ipc_name k = Inr (st, k) \<and>
        rt_read st = Some rd \<and> rt_write st = Some wr \<and> ch_name rd = ch_name w \<and> ch_name wr = ch_name r \<and>
        k (ch_name w) = Some (nat (cfg_ipc_message_size cfg), []) \<and> k (ch_name r) = Some (nat (cfg_ipc_message_size cfg), []) \<and>
        int (ch_msg_size rd) = cfg_ipc_message_size cfg \<and> int (ch_msg_size wr) = cfg_ipc_message_size cfg)"

lemma created_queues_meet:
  assumes "names_queue cfg n cmd"
    and "k (n @ ''_read'') = Some (nat (cfg_ipc_message_size cfg), [])" "k (n @ ''_write'') = Some (nat (cfg_ipc_message_size cfg), [])"
    and "0 < cfg_ipc_message_size cfg"
  shows "invoker_meets cfg n cmd (Some (opened (n @ ''_read'') (nat (cfg_ipc_message_size cfg)) True,
           opened (n @ ''_write'') (nat (cfg_ipc_message_size cfg)) True)) k"
proof -
  obtain st where "Invoker (cfg_process_id cfg) POSIX_MQ n k = Inr (st, k)"
      "rt_read st = Some (opened (n @ ''_write'') (nat (cfg_ipc_message_size cfg)) False)"
      "rt_write st = Some (opened (n @ ''_read'') (nat (cfg_ipc_message_size cfg)) False)"
    using invoker_opens [OF assms(2,3)] by blast
  with assms show ?thesis by (simp add: invoker_meets_def deserialize_mode_def opened_def)
qed

text \<open>A C++ process with two workers.\<close>

definition example_workers_config :: controller_config where
  "example_workers_config = \<lparr>cfg_port = 8080, cfg_verbose = False, cfg_function_workers = 2, cfg_ipc_mode = POSIX_MQ,
      cfg_ipc_message_size = 8192, cfg_ipc_name_prefix = [], cfg_deployment_location = [], cfg_process_id = ''proc'',
      cfg_control_plane_addr = None, cfg_code = \<lparr>code_location = ''/code'', code_config_location = ''config.json'',
      code_language = CPP, language_runtime_path = []\<rparr>\<rparr>"

section \<open>Properties\<close>

text \<open>
  A controller and its invokers meet. The queues that the controller creates for its workers
  all have different names, whatever was in the operating system's table, if the message size of
  the configuration is positive; the command line of each
  invoker carries the name of its worker's queues, and the invoker that opens them reads from the
  queue its worker writes to and writes to the one it reads from, both empty and with the message
  size of the configuration. Shutting the channels down succeeds and leaves exactly
  the queues of others.
\<close>

lemma workers_connect:
  assumes "Workers self_dir pid cfg = Inr (p, cmds)" and "cfg_ipc_mode cfg = POSIX_MQ" and "0 < cfg_ipc_message_size cfg"
  shows "\<exists>chs k'. launch_workers cfg pid k = Inr (chs, k') \<and> length chs = length cmds \<and>
           (\<forall>i < length cmds. invoker_meets cfg (worker_ipc_name cfg pid i) (cmds ! i) (chs ! i) k') \<and>
           distinct (channel_names chs) \<and>
           shutdown_channels chs k' = Inr (\<lambda>q. if q \<in> set (channel_names chs) then None else k q)"
proof -
  let ?n = "nat (cfg_function_workers cfg)" and ?sz = "nat (cfg_ipc_message_size cfg)"
  define ns where "ns = map (worker_ipc_name cfg pid) [0..<?n]"
  define chs where "chs = map (\<lambda>n. Some (opened (n @ ''_read'') ?sz True, opened (n @ ''_write'') ?sz True)) ns"
  define k' where "k' = (\<lambda>q. if q \<in> set (queue_names ns) then Some (?sz, []) else k q)"
  have "code_language (cfg_code cfg) \<noteq> NO_LANGUAGE" using assms(1) by (auto simp: Workers_def)
  then have launch: "launch_workers cfg pid k = Inr (chs, k')"
    using assms(2,3) by (simp add: launch_workers_def create_workers_result chs_def k'_def ns_def)
  have names: "channel_names chs = queue_names ns" by (simp add: channel_names_def chs_def queue_names_def opened_def comp_def)
  have dist: "distinct (queue_names ns)" unfolding ns_def by (rule distinct_queue_names [OF worker_names_distinct])
  have "shutdown_channels chs k' = Inr (\<lambda>q. if q \<in> set (queue_names ns) then None else k' q)"
    unfolding chs_def by (rule shutdown_result [OF dist]) (simp add: k'_def)
  then have down: "shutdown_channels chs k' = Inr (\<lambda>q. if q \<in> set (channel_names chs) then None else k q)"
    by (auto simp: names k'_def fun_eq_iff)
  have len: "length cmds = ?n" by (rule commands_name_queues(1) [OF assms(1)])
  have each: "invoker_meets cfg (worker_ipc_name cfg pid i) (cmds ! i) (chs ! i) k'" if i: "i < length cmds" for i
  proof -
    have "worker_ipc_name cfg pid i \<in> set ns" using i len by (simp add: ns_def)
    then have "invoker_meets cfg (worker_ipc_name cfg pid i) (cmds ! i)
        (Some (opened (worker_ipc_name cfg pid i @ ''_read'') ?sz True, opened (worker_ipc_name cfg pid i @ ''_write'') ?sz True)) k'"
      by (intro created_queues_meet commands_name_queues(2) [OF assms(1) i] assms(3)) (auto simp: k'_def in_queue_names)
    then show ?thesis using i len by (simp add: chs_def ns_def)
  qed
  from launch len each dist down show ?thesis unfolding names [symmetric] by (auto simp: chs_def ns_def)
qed

lemma workers_connect_witness:
  "\<exists>cmds chs k'. Workers ''/bin'' 7 example_workers_config = Inr (\<lparr>wp_workers = replicate 2 FunctionWorker, wp_idle = 2\<rparr>, cmds) \<and>
     launch_workers example_workers_config 7 [''/praas_queue_7_1_read'' \<mapsto> (1, [''x''])] = Inr (chs, k') \<and>
     invoker_meets example_workers_config ''/praas_queue_7_1'' (cmds ! 1) (chs ! 1) k'"
proof -
  let ?k = "[''/praas_queue_7_1_read'' \<mapsto> (1, [''x''])]"
  obtain cmds where w: "Workers ''/bin'' 7 example_workers_config =
      Inr (\<lparr>wp_workers = replicate 2 FunctionWorker, wp_idle = 2\<rparr>, cmds)"
    by (simp add: Workers_def example_workers_config_def)
  have two: "1 < length cmds" using commands_name_queues(1) [OF w] by (simp add: example_workers_config_def)
  have name: "worker_ipc_name example_workers_config 7 1 = ''/praas_queue_7_1''"
    by (simp add: worker_ipc_name_def example_workers_config_def decimal.simps [of 7] decimal.simps [of "Suc 0"] char_of_def bit_0)
  have "cfg_ipc_mode example_workers_config = POSIX_MQ" "0 < cfg_ipc_message_size example_workers_config"
    by (simp_all add: example_workers_config_def)
  from workers_connect [OF w this, of ?k] obtain chs k' where "launch_workers example_workers_config 7 ?k = Inr (chs, k')"
      and "\<forall>i < length cmds. invoker_meets example_workers_config (worker_ipc_name example_workers_config 7 i) (cmds ! i) (chs ! i) k'"
    by blast
  with w two name show ?thesis by metis
qed

end
