(* ===== verification/Invoker_Main.thy ===== *)
theory Invoker_Main
  imports Worker_Launch
begin

text \<open>
  The main function of the C++ invoker (\<^verbatim>\<open>src/process/invoker/cpp/cli.cpp\<close>, \<^verbatim>\<open>opts.cpp\<close>): options, start
  and main loop, and what it does with a queue of requests. The option parser is an argument.
\<close>

section \<open>Options\<close>

record invoker_options =
  io_process_id :: string
  io_ipc_mode :: IPCMode
  io_ipc_name :: string
  io_code_location :: string
  io_code_config_location :: string
  io_verbose :: bool

text \<open>
  What the parser makes of the arguments: the texts of the options, with its own exception for one that is not
  there, and the verbose flag.
\<close>

type_synonym option_parser = "string list \<Rightarrow> ((string \<Rightarrow> string result) \<times> bool) result"

definition invoker_opts :: "option_parser \<Rightarrow> string list \<Rightarrow> invoker_options result" where
  "invoker_opts parser argv =
     and_then (parser argv) (\<lambda>(option_text, verbose).
     and_then (option_text ''process-id'') (\<lambda>pid.
     and_then (option_text ''ipc-mode'') (\<lambda>mode.
     if deserialize_mode mode = NONE then Inl ProcessExit
     else
       and_then (option_text ''ipc-name'') (\<lambda>name.
       and_then (option_text ''code-location'') (\<lambda>loc.
       and_then (option_text ''code-config-location'') (\<lambda>config.
       Inr \<lparr>io_process_id = pid, io_ipc_mode = deserialize_mode mode, io_ipc_name = name, io_code_location = loc,
            io_code_config_location = config, io_verbose = verbose\<rparr>))))))"

section \<open>The start\<close>

text \<open>
  The functions of the configuration, in the order \<open>order\<close> of a hash table; files are documents that
  are there or not.
\<close>

definition open_library ::
    "(string \<Rightarrow> json option) \<Rightarrow> (function_table \<Rightarrow> (string \<times> function_cfg) list) \<Rightarrow> (string \<Rightarrow> nat option) \<Rightarrow>
     (nat \<Rightarrow> string \<Rightarrow> 'f option) \<Rightarrow> string \<Rightarrow> string \<Rightarrow> 'f library result" where
  "open_library files order dlopen dlsym location config =
     (case files (path_join location config) of
        None \<Rightarrow> Inl PraaSException
      | Some doc \<Rightarrow>
          and_then (Functions_initialize doc CPP) (\<lambda>table.
          Inr (FunctionsLibrary dlopen dlsym (map (\<lambda>(name, f). (name, fn_module f, fn_name f)) (order table)))))"

text \<open>The main function up to its loop.\<close>

definition invoker_start ::
    "option_parser \<Rightarrow> (string \<Rightarrow> json option) \<Rightarrow> (function_table \<Rightarrow> (string \<times> function_cfg) list) \<Rightarrow> (string \<Rightarrow> nat option) \<Rightarrow>
     (nat \<Rightarrow> string \<Rightarrow> 'f option) \<Rightarrow> string list \<Rightarrow> mq_table \<Rightarrow> ('f library \<times> runtime \<times> mq_table) result" where
  "invoker_start parser files order dlopen dlsym argv k =
     and_then (invoker_opts parser argv) (\<lambda>config.
     and_then (Invoker (io_process_id config) (io_ipc_mode config) (io_ipc_name config) k) (\<lambda>(invoker, k').
     and_then (open_library files order dlopen dlsym (io_code_location config) (io_code_config_location config)) (\<lambda>library.
     Inr (library, create_context invoker, k'))))"

section \<open>The loop\<close>

text \<open>
  The loop ends when \<^verbatim>\<open>poll\<close> returns nothing or the signal handler has been called. While it waits for a message
  that has not arrived it has no value.
\<close>

lemma then_call_bind: "then_call r f = Option.bind r (\<lambda>x. case x of Inl e \<Rightarrow> Some (Inl e) | Inr a \<Rightarrow> f a)"
  by (auto simp: then_call_def split: option.splits sum.splits)

lemma then_call_mono [partial_function_mono]:
  assumes "mono_option F" and "\<And>y. mono_option (\<lambda>f. G f y)"
  shows "mono_option (\<lambda>f. then_call (F f) (G f))"
  unfolding then_call_bind
proof (rule bind_mono [OF assms(1)])
  fix x
  show "mono_option (\<lambda>f. case x of Inl e \<Rightarrow> Some (Inl e) | Inr a \<Rightarrow> G f a)"
    using assms(2) by (cases x) (simp_all add: monotone_def fun_ord_def flat_ord_def)
qed

partial_function (option) invoker_loop :: "user_function library \<Rightarrow> runtime \<Rightarrow> runtime call" where
  "invoker_loop l st = then_call (main_round l st) (\<lambda>(again, st'). if again then invoker_loop l st' else returns (Inr st'))"

text \<open>The handler of the interrupt signal ends the loop.\<close>

definition invoker_interrupt :: "runtime \<Rightarrow> runtime" where
  "invoker_interrupt st = invoker_shutdown st"

section \<open>Lemmas\<close>

lemma loop_round: "main_round l st = returns (Inr (True, st')) \<Longrightarrow> invoker_loop l st = invoker_loop l st'"
  by (subst invoker_loop.simps) simp

lemma loop_ended: "rt_ending st \<Longrightarrow> invoker_loop l st = returns (Inr st)"
  by (subst invoker_loop.simps) (simp add: main_round_def invoker_poll.simps)

lemma loop_waits:
  assumes "\<not> rt_ending st" and "rt_read st = Some ch" and "IPC_BUF_SIZE \<le> ch_msg_size ch" and "rt_queue st = []"
  shows "invoker_loop l st = None"
proof -
  have "poll_round st = None" using assms(2-4) by (simp add: poll_round_def blocking_receive_def blocking_recv_def channel_recv_def)
  then have "main_round l st = None" using assms(1) by (simp add: main_round_def invoker_poll.simps)
  then show ?thesis by (subst invoker_loop.simps) simp
qed

lemma apply_updates_append: "apply_updates (us @ vs) a = apply_updates vs (apply_updates us a)"
  by (induction us arbitrary: a) simp_all

section \<open>Requests in the queue\<close>

text \<open>
  What the queue holds: application updates and then the request for a function. The function
  computes its output \<open>out\<close> with the return code \<open>code\<close> from the bytes alone, without messages of its own;
  without a result the invoker does not have the function.
\<close>

definition computes_alone :: "bytes list \<Rightarrow> int32 \<Rightarrow> bytes \<Rightarrow> user_function \<Rightarrow> bool" where
  "computes_alone ds code out fn \<longleftrightarrow>
     (\<forall>i st1. runtime_inv st1 \<longrightarrow> cx_invoc_id st1 = ri_key i \<longrightarrow> vw_len (cx_output_view st1) = 0 \<longrightarrow>
        list_all2 (\<lambda>v d. view_data v st1 = Inr d) (ri_args i) ds \<longrightarrow>
        (\<exists>st2. fn i st1 = returns (Inr (code, st2)) \<and> user_step\<^sup>*\<^sup>* st1 st2 \<and>
          rt_sent st2 = rt_sent st1 \<and> rt_queue st2 = rt_queue st1 \<and> rt_read st2 = rt_read st1 \<and>
          read_bytes (fst (as_buffer st2)) (snd (as_buffer st2)) st2 = Inr out \<and> snd (as_buffer st2) < 2 ^ 31))"

record queued_call =
  qc_updates :: "app_update list"
  qc_function :: string
  qc_key :: string
  qc_arguments :: "buffer list"
  qc_result :: "(int32 \<times> bytes) option"

definition queued_as :: "user_function library \<Rightarrow> nat \<Rightarrow> queued_call \<Rightarrow> bytes list \<Rightarrow> bool" where
  "queued_as l ms q cs \<longleftrightarrow>
     (\<exists>ucs cs'. cs = concat ucs @ cs' \<and> list_all2 (is_update ms) (qc_updates q) ucs \<and>
        is_invocation ms (qc_function q) (qc_key q) (qc_arguments q) cs') \<and> length (qc_key q) \<le> IPC_ID_LENGTH \<and>
     (case qc_result q of
        None \<Rightarrow> library_get_function (qc_function q) l = None
      | Some (code, out) \<Rightarrow> \<exists>fn. library_get_function (qc_function q) l = Some fn \<and>
          computes_alone (map buffer_data (qc_arguments q)) code out fn)"

definition answered_by :: "nat \<Rightarrow> queued_call \<Rightarrow> bytes list \<Rightarrow> bool" where
  "answered_by ms q cs \<longleftrightarrow> (case qc_result q of None \<Rightarrow> cs = [] | Some (code, out) \<Rightarrow> is_result ms (qc_key q) code out cs)"

text \<open>An invoker that can work.\<close>

definition invoker_up :: "nat \<Rightarrow> nat \<Rightarrow> runtime \<Rightarrow> bool" where
  "invoker_up ms ms' st \<longleftrightarrow> reachable runtime_initial runtime_step st \<and> \<not> rt_ending st \<and>
     (\<exists>ch. rt_read st = Some ch \<and> ch_msg_size ch = ms) \<and> (\<exists>ch. rt_write st = Some ch \<and> ch_msg_size ch = ms') \<and>
     IPC_BUF_SIZE \<le> ms \<and> IPC_BUF_SIZE \<le> ms'"

lemma user_steps_reachable:
  assumes "reachable runtime_initial runtime_step st" and "user_step\<^sup>*\<^sup>* st st'"
  shows "reachable runtime_initial runtime_step st'"
  using assms(2,1) by (induction) (auto intro: reachable_step step_user)

lemma call_served:
  assumes up: "invoker_up ms ms' st" and queue: "rt_queue st = cs @ R" "queued_as l ms q cs"
  shows "\<exists>st' answer. main_round l st = returns (Inr (True, st')) \<and> invoker_up ms ms' st' \<and> rt_queue st' = R \<and>
           rt_sent st' = rt_sent st @ answer \<and> answered_by ms' q answer \<and>
           rt_app_status st' = apply_updates (qc_updates q) (rt_app_status st)"
proof -
  from up obtain ch chw where st: "reachable runtime_initial runtime_step st" "\<not> rt_ending st" "rt_read st = Some ch" "ch_msg_size ch = ms"
      "rt_write st = Some chw" "ch_msg_size chw = ms'" "IPC_BUF_SIZE \<le> ms" "IPC_BUF_SIZE \<le> ms'"
    by (auto simp: invoker_up_def)
  from queue obtain ucs cs' where c: "rt_queue st = concat ucs @ cs' @ R" "list_all2 (is_update ms) (qc_updates q) ucs"
      "is_invocation ms (qc_function q) (qc_key q) (qc_arguments q) cs'" "length (qc_key q) \<le> IPC_ID_LENGTH"
    by (auto simp: queued_as_def)
  obtain i ch2 inp2 st2 where p: "invoker_poll st = returns (Inr (Some i, st2))" "ri_key i = qc_key q" "ri_function_name i = qc_function q"
      "st2 = st\<lparr>rt_read := Some ch2, rt_input := inp2, rt_queue := R, rt_app_status := apply_updates (qc_updates q) (rt_app_status st)\<rparr>"
      "ch_msg_size ch2 = ms" "runtime_inv (start_invocation (qc_key q) st2)"
      "list_all2 (\<lambda>v d. view_data v (start_invocation (qc_key q) st2) = Inr d) (ri_args i) (map buffer_data (qc_arguments q))"
    using round_polled [OF st(1-3), of ucs cs' R "qc_updates q" "qc_function q" "qc_key q" "qc_arguments q"] st(4,7) c(1-3) by auto
  have reach: "reachable runtime_initial runtime_step st2" using st(1) step_poll [OF p(1)] by (rule reachable_step)
  have up2: "invoker_up ms ms' st2" using reach p(4,5) st by (auto simp: invoker_up_def)
  show ?thesis
  proof (cases "qc_result q")
    case None
    then have "main_round l st = returns (Inr (True, st2))"
      using p(1,3,4) st(2) queue(2) by (simp add: main_round_def queued_as_def)
    with up2 p(4) None show ?thesis by (intro exI [of _ st2] exI [of _ "[]"]) (simp add: answered_by_def)
  next
    case (Some r)
    obtain code out where r: "r = (code, out)" by (cases r)
    with Some queue(2) obtain fn where fn: "library_get_function (qc_function q) l = Some fn"
        "computes_alone (map buffer_data (qc_arguments q)) code out fn" by (auto simp: queued_as_def)
    have "cx_invoc_id (start_invocation (qc_key q) st2) = ri_key i" "vw_len (cx_output_view (start_invocation (qc_key q) st2)) = 0"
      using p(2) by (simp_all add: start_invocation_def)
    moreover have "rt_sent (start_invocation (qc_key q) st2) = rt_sent st2" "rt_queue (start_invocation (qc_key q) st2) = R"
        "rt_read (start_invocation (qc_key q) st2) = Some ch2"
      using p(4) by (simp_all add: start_invocation_def)
    ultimately obtain st3 where
      f: "fn i (start_invocation (qc_key q) st2) = returns (Inr (code, st3))" "user_step\<^sup>*\<^sup>* (start_invocation (qc_key q) st2) st3"
        "rt_sent st3 = rt_sent st2" "rt_queue st3 = R" "rt_read st3 = Some ch2"
        "read_bytes (fst (as_buffer st3)) (snd (as_buffer st3)) st3 = Inr out" "snd (as_buffer st3) < 2 ^ 31"
      using fn(2) [unfolded computes_alone_def, rule_format, OF p(6), of i] p(7) by auto
    have st2: "\<not> rt_ending st2" "rt_write st2 = Some chw" "no_nul (qc_key q)" using p(4) st(2,5) c(3) by (simp_all add: is_invocation_def)
    obtain answer where a: "main_round l st = returns (Inr (True, end_invocation (st3\<lparr>rt_sent := rt_sent st3 @ answer\<rparr>)))"
        "is_result ms' (qc_key q) code out answer" "rt_app_status st3 = rt_app_status st2"
        "runtime_step st3 (st3\<lparr>rt_sent := rt_sent st3 @ answer\<rparr>)"
      using round_answered [OF p(1) st2(1,2), of l fn code st3 out] st(6,8) fn(1) f(1,2,6,7) p(2,3) st2(3) c(4) by auto
    let ?st' = "end_invocation (st3\<lparr>rt_sent := rt_sent st3 @ answer\<rparr>)"
    have "reachable runtime_initial runtime_step (start_invocation (qc_key q) st2)" using reach step_start by (rule reachable_step)
    then have "reachable runtime_initial runtime_step st3" using f(2) by (rule user_steps_reachable)
    then have "reachable runtime_initial runtime_step (st3\<lparr>rt_sent := rt_sent st3 @ answer\<rparr>)" using a(4) by (rule reachable_step)
    then have "reachable runtime_initial runtime_step ?st'" using step_end by (rule reachable_step)
    moreover have "frame_kept (start_invocation (qc_key q) st2) st3" using f(2) by (rule user_steps_frame)
    ultimately have "invoker_up ms ms' ?st'" using st2(1,2) f(5) p(5) st(6-8)
      by (auto simp: invoker_up_def frame_kept_def start_invocation_def end_invocation_eq)
    moreover have "answered_by ms' q answer" using a(2) Some r by (simp add: answered_by_def)
    moreover have "rt_queue ?st' = R" "rt_sent ?st' = rt_sent st @ answer" "rt_app_status ?st' = apply_updates (qc_updates q) (rt_app_status st)"
      using f(3,4) a(3) p(4) by (simp_all add: end_invocation_eq)
    ultimately show ?thesis using a(1) by blast
  qed
qed

lemma calls_served:
  assumes "invoker_up ms ms' st" and "rt_queue st = concat css @ R" and "list_all2 (queued_as l ms) qs css"
  shows "\<exists>st' answers. invoker_loop l st = invoker_loop l st' \<and> invoker_up ms ms' st' \<and> rt_queue st' = R \<and>
           rt_sent st' = rt_sent st @ concat answers \<and> list_all2 (answered_by ms') qs answers \<and>
           rt_app_status st' = apply_updates (concat (map qc_updates qs)) (rt_app_status st)"
  using assms(3,1,2)
proof (induction arbitrary: st rule: list_all2_induct)
  case Nil
  then show ?case by (intro exI [of _ st] exI [of _ "[]"]) simp
next
  case (Cons q qs cs css)
  then obtain st1 a where r: "main_round l st = returns (Inr (True, st1))" "invoker_up ms ms' st1" "rt_queue st1 = concat css @ R"
      "rt_sent st1 = rt_sent st @ a" "answered_by ms' q a" "rt_app_status st1 = apply_updates (qc_updates q) (rt_app_status st)"
    using call_served [of ms ms' st cs "concat css @ R" l q] by auto
  from Cons.IH [OF r(2,3)] obtain st' as where "invoker_loop l st1 = invoker_loop l st'" "invoker_up ms ms' st'" "rt_queue st' = R"
      "rt_sent st' = rt_sent st1 @ concat as" "list_all2 (answered_by ms') qs as"
      "rt_app_status st' = apply_updates (concat (map qc_updates qs)) (rt_app_status st1)" by blast
  then show ?case using r loop_round [OF r(1)]
    by (intro exI [of _ st'] exI [of _ "a # as"]) (simp add: apply_updates_append)
qed

section \<open>From the command line of the controller\<close>

text \<open>
  What the code relies on of the parser: arguments that are pairs of a long option and a text give
  each option its text and leave the flag unset.
\<close>

definition declared_options :: "string set" where
  "declared_options = {''process-id'', ''ipc-mode'', ''ipc-name'', ''code-location'', ''code-config-location''}"

definition reads_pairs :: "option_parser \<Rightarrow> bool" where
  "reads_pairs parser \<longleftrightarrow>
     (\<forall>exe ps. distinct (map fst ps) \<and> set (map fst ps) \<subseteq> declared_options \<longrightarrow>
        (\<exists>texts. parser (exe # concat (map (\<lambda>(n, v). [''--'' @ n, v]) ps)) = Inr (texts, False) \<and>
           (\<forall>(n, v) \<in> set ps. texts n = Inr v)))"

text \<open>A parser that does.\<close>

fun pairs_of :: "string list \<Rightarrow> (string \<times> string) list" where
  "pairs_of (n # v # args) = (drop 2 n, v) # pairs_of args"
| "pairs_of _ = []"

definition pair_parser :: option_parser where
  "pair_parser argv =
     Inr (\<lambda>n. case map_of (pairs_of (tl argv)) n of None \<Rightarrow> Inl InvalidArgument | Some v \<Rightarrow> Inr v, False)"

lemma pairs_of_arguments: "pairs_of (concat (map (\<lambda>(n, v). [''--'' @ n, v]) ps)) = ps"
  by (induction ps) auto

lemma pair_parser_reads: "reads_pairs pair_parser"
  by (auto simp: reads_pairs_def pair_parser_def pairs_of_arguments [simplified] split: option.splits)

lemma launch_opts:
  assumes "reads_pairs parser" and "cfg_ipc_mode cfg = POSIX_MQ"
  shows "invoker_opts parser (launch_cpp d cfg n) =
           Inr \<lparr>io_process_id = cfg_process_id cfg, io_ipc_mode = POSIX_MQ, io_ipc_name = n, io_code_location = code_location (cfg_code cfg),
                io_code_config_location = code_config_location (cfg_code cfg), io_verbose = False\<rparr>"
proof -
  let ?ps = "[(''process-id'', cfg_process_id cfg), (''ipc-mode'', ''posix_mq''), (''ipc-name'', n),
      (''code-location'', code_location (cfg_code cfg)), (''code-config-location'', code_config_location (cfg_code cfg))]"
  have "distinct (map fst ?ps)" "set (map fst ?ps) \<subseteq> declared_options" by (simp_all add: declared_options_def)
  with assms(1) obtain texts where t: "parser (hd (launch_cpp d cfg n) # concat (map (\<lambda>(n, v). [''--'' @ n, v]) ?ps)) = Inr (texts, False)"
      "\<forall>(n, v) \<in> set ?ps. texts n = Inr v" unfolding reads_pairs_def by blast
  have "launch_cpp d cfg n = hd (launch_cpp d cfg n) # concat (map (\<lambda>(n, v). [''--'' @ n, v]) ?ps)" by (simp add: launch_cpp_def)
  with t show ?thesis by (simp add: invoker_opts_def deserialize_mode_def)
qed

text \<open>
  The command line that the controller makes for a worker starts an invoker on that worker's queues, with the
  functions of the document the controller was configured with.
\<close>

lemma launched_invoker_starts:
  assumes "reads_pairs parser" and "Workers self_dir pid cfg = Inr (p, cmds)" and "code_language (cfg_code cfg) = CPP"
    and mq: "cfg_ipc_mode cfg = POSIX_MQ" "int IPC_BUF_SIZE \<le> cfg_ipc_message_size cfg"
    and code: "files (path_join (code_location (cfg_code cfg)) (code_config_location (cfg_code cfg))) = Some doc"
      "Functions_initialize doc CPP = Inr fs" "set (order fs) = {(n, g). fs n = Some g}"
    and i: "i < length cmds"
  shows "\<exists>chs k' st db. launch_workers cfg pid k = Inr (chs, k') \<and>
           invoker_start parser files order dlopen dlsym (cmds ! i) k' = Inr (FunctionsLibrary dlopen dlsym db, st, k') \<and>
           set db = {(n, fn_module g, fn_name g) | n g. fs n = Some g} \<and> rt_queue st = [] \<and>
           invoker_up (nat (cfg_ipc_message_size cfg)) (nat (cfg_ipc_message_size cfg)) st"
proof -
  let ?n = "nat (cfg_function_workers cfg)" and ?sz = "nat (cfg_ipc_message_size cfg)" and ?q = "worker_ipc_name cfg pid i"
  define ns where "ns = map (worker_ipc_name cfg pid) [0..<?n]"
  define k' where "k' = (\<lambda>q. if q \<in> set (queue_names ns) then Some (?sz, []) else k q)"
  have launch: "\<exists>chs. launch_workers cfg pid k = Inr (chs, k')"
    using assms(3) mq by (simp add: launch_workers_def create_workers_result k'_def ns_def)
  have cmd: "i < ?n" "cmds ! i = launch_cpp self_dir cfg ?q" using assms(2,3) i by (auto simp: Workers_def)
  then have "k' (?q @ ''_read'') = Some (?sz, [])" "k' (?q @ ''_write'') = Some (?sz, [])"
    by (auto simp: k'_def ns_def in_queue_names)
  from invoker_opens [OF this] obtain st where st: "Invoker (cfg_process_id cfg) POSIX_MQ ?q k' = Inr (st, k')"
      "rt_read st = Some (opened (?q @ ''_write'') ?sz False)" "rt_write st = Some (opened (?q @ ''_read'') ?sz False)"
      "\<not> rt_ending st" "rt_queue st = []"
    by blast
  let ?db = "map (\<lambda>(name, f). (name, fn_module f, fn_name f)) (order fs)"
  have "invoker_start parser files order dlopen dlsym (cmds ! i) k' = Inr (FunctionsLibrary dlopen dlsym ?db, create_context st, k')"
    using launch_opts [OF assms(1) mq(1)] cmd(2) st(1) code(1,2) by (simp add: invoker_start_def open_library_def)
  moreover have "set ?db = {(n, fn_module g, fn_name g) | n g. fs n = Some g}" using code(3) by force
  moreover have "runtime_initial (create_context st)" unfolding runtime_initial_def using st(1) by blast
  then have "reachable runtime_initial runtime_step (create_context st)" by (rule reachable_start)
  then have "invoker_up ?sz ?sz (create_context st)" "rt_queue (create_context st) = []"
    using st(2-5) mq(2) by (simp_all add: invoker_up_def create_context_def new_array_def Let_def opened_def)
  ultimately show ?thesis using launch by blast
qed

section \<open>Properties\<close>


lemma no_op_alone:
  assumes "length d < 2 ^ 31"
  shows "computes_alone [d] 0 d no_op"
  unfolding computes_alone_def
proof (intro allI impI)
  fix i :: rt_invocation and st1 :: runtime assume "list_all2 (\<lambda>v d. view_data v st1 = Inr d) (ri_args i) [d]"
  then obtain v where v: "ri_args i = [v]" "view_data v st1 = Inr d" by (auto simp: list_all2_Cons2)
  let ?st2 = "set_output_buffer v st1"
  have "view_data v ?st2 = view_data v st1"
    by (simp add: view_data_def read_bytes_def block_content_def set_output_buffer_def split: option.splits block.splits)
  then have "read_bytes (fst (as_buffer ?st2)) (snd (as_buffer ?st2)) ?st2 = Inr d" "snd (as_buffer ?st2) < 2 ^ 31"
    using v(2) assms view_data_length [OF v(2)] by (auto simp: as_buffer_def view_data_def set_output_buffer_def)
  moreover have "no_op i st1 = returns (Inr (0, ?st2))" "user_step\<^sup>*\<^sup>* st1 ?st2"
    using v(1) step_set_output by (auto simp: no_op_def)
  ultimately show "\<exists>st2. no_op i st1 = returns (Inr (0, st2)) \<and> user_step\<^sup>*\<^sup>* st1 st2 \<and>
      rt_sent st2 = rt_sent st1 \<and> rt_queue st2 = rt_queue st1 \<and> rt_read st2 = rt_read st1 \<and>
      read_bytes (fst (as_buffer st2)) (snd (as_buffer st2)) st2 = Inr d \<and> snd (as_buffer st2) < 2 ^ 31"
    by (intro exI [of _ ?st2]) (simp add: set_output_buffer_def)
qed


end
