(* ===== verification/Message_Types.thy ===== *)
theory Message_Types
  imports Wire_Messages Ipc_Messages
begin

text \<open>
  The typing of messages. The programs fill message objects in with the setters of the two
  \<^verbatim>\<open>messages.hpp\<close>, in many orders and more than once. A message object is a state here, a call of a
  setter that succeeds is a step, and what every object has in every reachable state is that its
  bytes are a header of the type its constructor stamped: the receiver's parser gives an object of the same
  class with the same bytes, and the same object when its names have no NUL characters.
\<close>

definition admitted :: "bool \<Rightarrow> string \<Rightarrow> bool" where
  "admitted plain s \<longleftrightarrow> (plain \<longrightarrow> no_nul s)"

section \<open>Messages over TCP\<close>

fun variant_raw :: "MessageVariants \<Rightarrow> bytes" where
  "variant_raw Monostate = []"
| "variant_raw (ProcessConnectionPtr m) = msg_data m"
| "variant_raw (SwapRequestPtr m) = msg_data m"
| "variant_raw (SwapConfirmationPtr m) = msg_data m"
| "variant_raw (InvocationRequestPtr m) = msg_data m"
| "variant_raw (InvocationResultPtr m) = msg_data m"
| "variant_raw (DataPlaneMetricsPtr m) = msg_data m"
| "variant_raw (ProcessClosurePtr m) = msg_data m"
| "variant_raw (ApplicationUpdatePtr m) = msg_data m"
| "variant_raw (PutMessagePtr m) = msg_data m"

inductive fresh_message :: "MessageVariants \<Rightarrow> bool" where
  "fresh_message (ProcessConnectionPtr (ProcessConnection MessageData_default))"
| "fresh_message (SwapRequestPtr (SwapRequest MessageData_default))"
| "fresh_message (SwapConfirmationPtr (SwapConfirmation MessageData_default))"
| "fresh_message (InvocationRequestPtr (InvocationRequest MessageData_default))"
| "fresh_message (InvocationResultPtr (InvocationResult MessageData_default))"
| "fresh_message (DataPlaneMetricsPtr (DataPlaneMetrics MessageData_default))"
| "fresh_message (ProcessClosurePtr (ProcessClosure MessageData_default))"
| "fresh_message (ApplicationUpdatePtr (ApplicationUpdate MessageData_default))"
| "fresh_message (PutMessagePtr (PutMessage MessageData_default))"

inductive message_set :: "bool \<Rightarrow> MessageVariants \<Rightarrow> MessageVariants \<Rightarrow> bool" for plain :: bool where
  "message_set plain (ProcessConnectionPtr m) (ProcessConnectionPtr (set_total_length n m))"
| "message_set plain (SwapRequestPtr m1) (SwapRequestPtr (set_total_length n m1))"
| "message_set plain (SwapConfirmationPtr m2) (SwapConfirmationPtr (set_total_length n m2))"
| "message_set plain (InvocationRequestPtr m3) (InvocationRequestPtr (set_total_length n m3))"
| "message_set plain (InvocationResultPtr m4) (InvocationResultPtr (set_total_length n m4))"
| "message_set plain (DataPlaneMetricsPtr m2) (DataPlaneMetricsPtr (set_total_length n m2))"
| "message_set plain (ProcessClosurePtr m2) (ProcessClosurePtr (set_total_length n m2))"
| "message_set plain (ApplicationUpdatePtr m5) (ApplicationUpdatePtr (set_total_length n m5))"
| "message_set plain (PutMessagePtr m6) (PutMessagePtr (set_total_length n m6))"
| "admitted plain s \<Longrightarrow> set_process_name s m = Inr m' \<Longrightarrow> message_set plain (ProcessConnectionPtr m) (ProcessConnectionPtr m')"
| built_path: "admitted plain s \<Longrightarrow> set_path s m1 = Inr m1' \<Longrightarrow> message_set plain (SwapRequestPtr m1) (SwapRequestPtr m1')"
| "message_set plain (SwapConfirmationPtr m2) (SwapConfirmationPtr (set_swap_size n m2))"
| "admitted plain s \<Longrightarrow> set_invocation_id s m3 = Inr m3' \<Longrightarrow> message_set plain (InvocationRequestPtr m3) (InvocationRequestPtr m3')"
| "admitted plain s \<Longrightarrow> set_function_name s m3 = Inr m3' \<Longrightarrow> message_set plain (InvocationRequestPtr m3) (InvocationRequestPtr m3')"
| "set_payload_size n m3 = Inr m3' \<Longrightarrow> message_set plain (InvocationRequestPtr m3) (InvocationRequestPtr m3')"
| "admitted plain s \<Longrightarrow> set_result_id s m4 = Inr m4' \<Longrightarrow> message_set plain (InvocationResultPtr m4) (InvocationResultPtr m4')"
| "message_set plain (InvocationResultPtr m4) (InvocationResultPtr (set_return_code n m4))"
| "set_invocations n m2 = Inr m2' \<Longrightarrow> message_set plain (DataPlaneMetricsPtr m2) (DataPlaneMetricsPtr m2')"
| "set_computation_time n m2 = Inr m2' \<Longrightarrow> message_set plain (DataPlaneMetricsPtr m2) (DataPlaneMetricsPtr m2')"
| "message_set plain (DataPlaneMetricsPtr m2) (DataPlaneMetricsPtr (set_last_invocation_timestamp ts m2))"
| "admitted plain s \<Longrightarrow> set_update_process_id s m5 = Inr m5' \<Longrightarrow> message_set plain (ApplicationUpdatePtr m5) (ApplicationUpdatePtr m5')"
| "admitted plain s \<Longrightarrow> set_ip_address s m5 = Inr m5' \<Longrightarrow> message_set plain (ApplicationUpdatePtr m5) (ApplicationUpdatePtr m5')"
| "message_set plain (ApplicationUpdatePtr m5) (ApplicationUpdatePtr (set_status_change n m5))"
| "message_set plain (ApplicationUpdatePtr m5) (ApplicationUpdatePtr (set_port n m5))"
| built_put_name: "admitted plain s \<Longrightarrow> set_put_name s m6 = Inr m6' \<Longrightarrow> message_set plain (PutMessagePtr m6) (PutMessagePtr m6')"
| "admitted plain s \<Longrightarrow> set_put_process_id s m6 = Inr m6' \<Longrightarrow> message_set plain (PutMessagePtr m6) (PutMessagePtr m6')"

text \<open>
  The type of the bytes, and what the lengths an object remembers have to do with them. A swap
  request writes the first half of its field only, so the second half stays empty.
\<close>

definition tagged :: "MessageVariants \<Rightarrow> bool" where
  "tagged v \<longleftrightarrow> v \<noteq> Monostate \<and> length (variant_raw v) = BUF_SIZE \<and> get_i16 (variant_raw v) 0 = type_code (variant_type v)"

fun self_described :: "MessageVariants \<Rightarrow> bool" where
  "self_described Monostate = False"
| "self_described (ProcessConnectionPtr m) = coherent ProcessConnection msg_data PROCESS_CONNECTION m"
| "self_described (SwapRequestPtr m) =
     (coherent SwapRequest msg_data SWAP_REQUEST m \<and> peek (msg_data m) (HEADER_OFFSET + ID_LENGTH) ID_LENGTH = replicate ID_LENGTH NUL)"
| "self_described (SwapConfirmationPtr m) = coherent SwapConfirmation msg_data SWAP_CONFIRMATION m"
| "self_described (InvocationRequestPtr m) = coherent InvocationRequest msg_data INVOCATION_REQUEST m"
| "self_described (InvocationResultPtr m) = coherent InvocationResult msg_data INVOCATION_RESULT m"
| "self_described (DataPlaneMetricsPtr m) = coherent DataPlaneMetrics msg_data DATAPLANE_METRICS m"
| "self_described (ProcessClosurePtr m) = coherent ProcessClosure msg_data PROCESS_CLOSURE m"
| "self_described (ApplicationUpdatePtr m) = coherent ApplicationUpdate msg_data APPLICATION_UPDATE m"
| "self_described (PutMessagePtr m) = coherent PutMessage msg_data PUT_MESSAGE m"

definition typed :: "bool \<Rightarrow> MessageVariants \<Rightarrow> bool" where
  "typed plain v \<longleftrightarrow> tagged v \<and> (plain \<longrightarrow> self_described v)"

lemma tagged_parse:
  assumes "tagged v"
  shows "\<exists>v'. parse (variant_raw v) = Inr v' \<and> variant_type v' = variant_type v \<and> variant_raw v' = variant_raw v"
proof -
  from assms have "get_i16 (variant_raw v) 0 = type_code (variant_type v)" by (simp add: tagged_def)
  from parse_type_code [OF this] assms show ?thesis
    by (cases v) (auto simp: tagged_def message_ctors Let_def)
qed

lemma self_described_parse: "self_described v \<Longrightarrow> parse (variant_raw v) = Inr v"
  by (cases v) (auto intro: pc.parse_coherent sr.parse_coherent sc.parse_coherent iq.parse_coherent ir.parse_coherent
      dm.parse_coherent cl.parse_coherent au.parse_coherent pm.parse_coherent)

text \<open>An object is coherent when its bytes have its type and the lengths it remembers are those of its names.\<close>

lemma coherent_cases:
  "coherent ProcessConnection msg_data PROCESS_CONNECTION a \<longleftrightarrow> length (msg_data a) = 70 \<and> get_i16 (msg_data a) 0 = 1 \<and>
     process_name_len a = strnlen (drop 6 (msg_data a)) 32"
  "coherent SwapRequest msg_data SWAP_REQUEST b \<longleftrightarrow> length (msg_data b) = 70 \<and> get_i16 (msg_data b) 0 = 2 \<and>
     path_len b = strnlen (drop 6 (msg_data b)) 32"
  "coherent SwapConfirmation msg_data SWAP_CONFIRMATION c \<longleftrightarrow> length (msg_data c) = 70 \<and> get_i16 (msg_data c) 0 = 3"
  "coherent InvocationRequest msg_data INVOCATION_REQUEST d \<longleftrightarrow> length (msg_data d) = 70 \<and> get_i16 (msg_data d) 0 = 4 \<and>
     fname_len d = strnlen (drop 10 (msg_data d)) 32 \<and> invocation_id_len d = strnlen (drop 42 (msg_data d)) 16"
  "coherent InvocationResult msg_data INVOCATION_RESULT e \<longleftrightarrow> length (msg_data e) = 70 \<and> get_i16 (msg_data e) 0 = 5 \<and>
     result_id_len e = strnlen (drop 10 (msg_data e)) 16"
  "coherent DataPlaneMetrics msg_data DATAPLANE_METRICS c \<longleftrightarrow> length (msg_data c) = 70 \<and> get_i16 (msg_data c) 0 = 6"
  "coherent ProcessClosure msg_data PROCESS_CLOSURE c \<longleftrightarrow> length (msg_data c) = 70 \<and> get_i16 (msg_data c) 0 = 7"
  "coherent ApplicationUpdate msg_data APPLICATION_UPDATE f \<longleftrightarrow> length (msg_data f) = 70 \<and> get_i16 (msg_data f) 0 = 8 \<and>
     update_id_len f = strnlen (drop 6 (msg_data f)) 32 \<and> ip_len f = strnlen (drop 38 (msg_data f)) 16"
  "coherent PutMessage msg_data PUT_MESSAGE g \<longleftrightarrow> length (msg_data g) = 70 \<and> get_i16 (msg_data g) 0 = 9 \<and>
     name_len g = strnlen (drop 6 (msg_data g)) 32 \<and> id_len g = strnlen (drop 38 (msg_data g)) 32"
  by (cases a; cases b; cases c; cases d; cases e; cases f; cases g; simp add: coherent_def message_ctors Let_def; fail)+

lemma peek_replicate: "i + n \<le> k \<Longrightarrow> peek (replicate k c) i n = replicate n c"
  by (simp add: peek_def)

lemma fresh_typed: "fresh_message v \<Longrightarrow> typed plain v"
  by (induction rule: fresh_message.induct)
    (auto simp: typed_def tagged_def message_simps peek_replicate)

text \<open>A path of at most sixteen characters, then an empty half: the length of the whole field is the path's.\<close>

lemma swap_path_length:
  assumes "length b = 70" and "peek b 22 16 = replicate 16 NUL" and "no_nul s" and "length s \<le> 16"
  shows "length s = strnlen (drop 6 (put_cstr b 6 16 s)) 32" and "peek (put_cstr b 6 16 s) 22 16 = replicate 16 NUL"
proof -
  let ?b = "put_cstr b 6 16 s"
  show empty: "peek ?b 22 16 = replicate 16 NUL" using assms(1,2) by (simp add: mem_simps)
  have "peek ?b 6 (16 + 16) = peek ?b 6 16 @ peek ?b (6 + 16) 16" by (simp only: peek_def take_add drop_drop add.commute)
  also have "peek ?b 6 16 = s @ replicate (16 - length s) NUL"
    using assms(1,3,4) by (simp add: put_cstr_def peek_def poke_def strncpy_no_nul)
  finally have "peek ?b 6 32 = s @ replicate (32 - length s) NUL"
    using empty assms(4) by (simp flip: replicate_add)
  then show "length s = strnlen (drop 6 ?b) 32"
    using assms(3) by (simp add: mem_simps takeWhile_no_nul)
qed

lemma self_described_set: "message_set plain v v' \<Longrightarrow> plain \<Longrightarrow> self_described v \<Longrightarrow> self_described v'"
proof (induction rule: message_set.induct)
  case (built_path s m m')
  then have "no_nul s" "length s \<le> 16" "m' = m\<lparr>msg_data := put_cstr (msg_data m) 6 16 s, path_len := length s\<rparr>"
      "length (msg_data m) = 70" "get_i16 (msg_data m) 0 = 2" "peek (msg_data m) 22 16 = replicate 16 NUL"
    by (auto simp: admitted_def set_path_def coherent_cases split: if_splits)
  with swap_path_length [of "msg_data m" s] show ?case by (simp add: coherent_cases get_i16_put_other)
qed (auto simp: admitted_def coherent_cases message_setters mem_simps split: if_splits)

lemma tagged_set: "message_set plain v v' \<Longrightarrow> tagged v \<Longrightarrow> tagged v'"
  by (induction rule: message_set.induct)
    (auto simp: tagged_def message_setters mem_simps split: if_splits)

interpretation wire_types: invariant_machine fresh_message "message_set plain" "typed plain"
  by unfold_locales (auto simp: fresh_typed, auto simp: typed_def intro: tagged_set self_described_set)

section \<open>Messages between controller and invoker\<close>

fun ipc_raw :: "ipc_variants \<Rightarrow> bytes" where
  "ipc_raw (GetRequestV m) = gr_data m"
| "ipc_raw (PutRequestV m) = gr_data m"
| "ipc_raw (InvocationRequestV m) = irq_data m"
| "ipc_raw (InvocationResultV m) = irs_data m"
| "ipc_raw (ApplicationUpdateV m) = iau_data m"
| "ipc_raw (StateKeysResultV m) = sk_data m"
| "ipc_raw (StateKeysRequestV m) = sk_data m"

fun ipc_tag :: "ipc_variants \<Rightarrow> ipc_type" where
  "ipc_tag (GetRequestV m) = IPC_GET_REQUEST"
| "ipc_tag (PutRequestV m) = IPC_PUT_REQUEST"
| "ipc_tag (InvocationRequestV m) = IPC_INVOCATION_REQUEST"
| "ipc_tag (InvocationResultV m) = IPC_INVOCATION_RESULT"
| "ipc_tag (ApplicationUpdateV m) = IPC_APPLICATION_UPDATE"
| "ipc_tag (StateKeysResultV m) = IPC_STATE_KEYS_RESULT"
| "ipc_tag (StateKeysRequestV m) = IPC_STATE_KEYS_REQUEST"

inductive fresh_ipc :: "ipc_variants \<Rightarrow> bool" where
  "fresh_ipc (GetRequestV GetRequest)"
| "fresh_ipc (PutRequestV PutRequest)"
| "fresh_ipc (InvocationRequestV ipc_InvocationRequest)"
| "fresh_ipc (InvocationResultV ipc_InvocationResult)"
| "fresh_ipc (ApplicationUpdateV ipc_ApplicationUpdate)"
| "fresh_ipc (StateKeysResultV StateKeysResult)"
| "fresh_ipc (StateKeysRequestV StateKeysRequest)"

text \<open>The setters of get and put requests are those of their common base class.\<close>

inductive generic_set :: "bool \<Rightarrow> generic_request \<Rightarrow> generic_request \<Rightarrow> bool" for plain :: bool where
  "generic_set plain m (m\<lparr>gr_data := set_ipc_total_length n (gr_data m)\<rparr>)"
| "generic_set plain m (set_gr_state v m)"
| "generic_set plain m (set_gr_data_len n m)"
| "admitted plain s \<Longrightarrow> set_gr_process_id s m = Inr m' \<Longrightarrow> generic_set plain m m'"
| "admitted plain s \<Longrightarrow> set_gr_name s m = Inr m' \<Longrightarrow> generic_set plain m m'"

inductive ipc_set :: "bool \<Rightarrow> ipc_variants \<Rightarrow> ipc_variants \<Rightarrow> bool" for plain :: bool where
  built_get: "generic_set plain g g' \<Longrightarrow> ipc_set plain (GetRequestV g) (GetRequestV g')"
| built_put: "generic_set plain g g' \<Longrightarrow> ipc_set plain (PutRequestV g) (PutRequestV g')"
| "ipc_set plain (InvocationRequestV q) (InvocationRequestV (q\<lparr>irq_data := set_ipc_total_length n (irq_data q)\<rparr>))"
| "admitted plain s \<Longrightarrow> set_irq_process_id s q = Inr q' \<Longrightarrow> ipc_set plain (InvocationRequestV q) (InvocationRequestV q')"
| "admitted plain s \<Longrightarrow> set_irq_invocation_id s q = Inr q' \<Longrightarrow> ipc_set plain (InvocationRequestV q) (InvocationRequestV q')"
| "admitted plain s \<Longrightarrow> set_irq_function_name s q = Inr q' \<Longrightarrow> ipc_set plain (InvocationRequestV q) (InvocationRequestV q')"
| "ipc_set plain (InvocationRequestV q) (InvocationRequestV (set_irq_buffer n q))"
| "set_irq_buffers ns q = Inr q' \<Longrightarrow> ipc_set plain (InvocationRequestV q) (InvocationRequestV q')"
| "ipc_set plain (InvocationResultV r) (InvocationResultV (r\<lparr>irs_data := set_ipc_total_length n (irs_data r)\<rparr>))"
| "admitted plain s \<Longrightarrow> set_irs_invocation_id s r = Inr r' \<Longrightarrow> ipc_set plain (InvocationResultV r) (InvocationResultV r')"
| "ipc_set plain (InvocationResultV r) (InvocationResultV (set_irs_return_code n r))"
| "ipc_set plain (InvocationResultV r) (InvocationResultV (set_irs_buffer_length n r))"
| "ipc_set plain (ApplicationUpdateV u) (ApplicationUpdateV (u\<lparr>iau_data := set_ipc_total_length n (iau_data u)\<rparr>))"
| "admitted plain s \<Longrightarrow> set_iau_process_id s u = Inr u' \<Longrightarrow> ipc_set plain (ApplicationUpdateV u) (ApplicationUpdateV u')"
| "ipc_set plain (ApplicationUpdateV u) (ApplicationUpdateV (set_iau_status_change n u))"
| "ipc_set plain (StateKeysResultV k) (StateKeysResultV (k\<lparr>sk_data := set_ipc_total_length n (sk_data k)\<rparr>))"
| "ipc_set plain (StateKeysResultV k) (StateKeysResultV (set_sk_buffer_length n k))"
| "ipc_set plain (StateKeysRequestV k) (StateKeysRequestV (k\<lparr>sk_data := set_ipc_total_length n (sk_data k)\<rparr>))"
| "ipc_set plain (StateKeysRequestV k) (StateKeysRequestV (set_sk_buffer_length n k))"

definition ipc_tagged :: "ipc_variants \<Rightarrow> bool" where
  "ipc_tagged v \<longleftrightarrow> length (ipc_raw v) = IPC_BUF_SIZE \<and> get_i16 (ipc_raw v) 0 = ipc_type_code (ipc_tag v)"

fun ipc_described :: "ipc_variants \<Rightarrow> bool" where
  "ipc_described (GetRequestV m) = (GenericRequestParsed (gr_data m) = m)"
| "ipc_described (PutRequestV m) = (GenericRequestParsed (gr_data m) = m)"
| "ipc_described (InvocationRequestV m) = (InvocationRequestParsed (irq_data m) = m)"
| "ipc_described (InvocationResultV m) = (InvocationResultParsed (irs_data m) = m)"
| "ipc_described (ApplicationUpdateV m) = (ApplicationUpdateParsed (iau_data m) = m)"
| "ipc_described (StateKeysResultV m) = (StateKeysParsed (sk_data m) = m)"
| "ipc_described (StateKeysRequestV m) = (StateKeysParsed (sk_data m) = m)"

definition ipc_typed :: "bool \<Rightarrow> ipc_variants \<Rightarrow> bool" where
  "ipc_typed plain v \<longleftrightarrow> ipc_tagged v \<and> (plain \<longrightarrow> ipc_described v)"

lemma ipc_tagged_parse:
  assumes "ipc_tagged v"
  shows "\<exists>v'. parse_message (ipc_raw v) = Inr v' \<and> ipc_tag v' = ipc_tag v \<and> ipc_raw v' = ipc_raw v \<and> (ipc_described v \<longrightarrow> v' = v)"
  using assms by (cases v) (auto simp: ipc_tagged_def parse_message_def Let_def ipc_ctors)

lemma fresh_ipc_typed: "fresh_ipc v \<Longrightarrow> ipc_typed plain v"
  by (induction rule: fresh_ipc.induct) (auto simp: ipc_typed_def ipc_tagged_def ipc_simps)

text \<open>What describing itself means for the lengths an object remembers.\<close>

lemma ipc_described_cases:
  "GenericRequestParsed b = g \<longleftrightarrow> gr_data g = b \<and> gr_id_len g = strnlen (drop 10 b) 32 \<and> gr_name_len g = strnlen (drop 42 b) 32"
  "InvocationRequestParsed b = q \<longleftrightarrow> irq_data q = b \<and> irq_process_id_len q = strnlen (drop 54 b) 16 \<and>
     irq_id_len q = strnlen (drop 6 b) 16 \<and> irq_name_len q = strnlen (drop 22 b) 32"
  "InvocationResultParsed b = r \<longleftrightarrow> irs_data r = b \<and> irs_id_len r = strnlen (drop 6 b) 16"
  "ApplicationUpdateParsed b = u \<longleftrightarrow> iau_data u = b \<and> iau_id_len u = strnlen (drop 6 b) 32"
  "StateKeysParsed b = k \<longleftrightarrow> sk_data k = b"
  by (cases g; cases q; cases r; cases u; cases k; auto simp: ipc_ctors; fail)+

text \<open>The buffers of a request are behind its names.\<close>

lemma set_buffers_raw:
  assumes "set_irq_buffers ns q = Inr q'" and "length (irq_data q) = 128"
  shows "length (irq_data q') = 128" and "get_i16 (irq_data q') 0 = get_i16 (irq_data q) 0"
    and "off + k \<le> 70 \<Longrightarrow> peek (irq_data q') off k = peek (irq_data q) off k"
    and "irq_process_id_len q' = irq_process_id_len q" "irq_id_len q' = irq_id_len q" "irq_name_len q' = irq_name_len q"
  using assms by (auto simp: set_irq_buffers_def Let_def get_i16_put_i32s_before peek_put_i32s_before
      simp del: put_i32s.simps split: if_splits)

lemmas ipc_steps = set_ipc_total_length_def set_gr_state_def set_gr_data_len_def set_gr_process_id_def set_gr_name_def
  set_irq_process_id_def set_irq_invocation_id_def set_irq_function_name_def set_irq_buffer_def set_irs_invocation_id_def
  set_irs_return_code_def set_irs_buffer_length_def set_sk_buffer_length_def set_iau_process_id_def set_iau_status_change_def

lemma generic_set_raw:
  "generic_set plain g g' \<Longrightarrow> length (gr_data g) = 128 \<Longrightarrow> length (gr_data g') = 128 \<and> get_i16 (gr_data g') 0 = get_i16 (gr_data g) 0"
  by (induction rule: generic_set.induct) (auto simp: ipc_setters mem_simps split: if_splits)

lemma generic_set_described:
  "generic_set plain g g' \<Longrightarrow> plain \<Longrightarrow> length (gr_data g) = 128 \<Longrightarrow> GenericRequestParsed (gr_data g) = g \<Longrightarrow>
     GenericRequestParsed (gr_data g') = g'"
  by (induction rule: generic_set.induct) (auto simp: admitted_def ipc_described_cases ipc_setters mem_simps split: if_splits)

lemma ipc_tagged_set: "ipc_set plain v v' \<Longrightarrow> ipc_tagged v \<Longrightarrow> ipc_tagged v'"
  by (induction rule: ipc_set.induct)
    (auto simp: ipc_tagged_def generic_set_raw set_buffers_raw ipc_steps mem_simps split: if_splits)

lemma ipc_described_set: "ipc_set plain v v' \<Longrightarrow> plain \<Longrightarrow> ipc_tagged v \<Longrightarrow> ipc_described v \<Longrightarrow> ipc_described v'"
proof (induction rule: ipc_set.induct)
  case (built_get g g')
  then show ?case by (auto simp: ipc_tagged_def intro: generic_set_described)
next
  case (built_put g g')
  then show ?case by (auto simp: ipc_tagged_def intro: generic_set_described)
qed (auto simp: admitted_def ipc_described_cases ipc_tagged_def ipc_steps mem_simps set_buffers_raw split: if_splits)

interpretation ipc_types: invariant_machine fresh_ipc "ipc_set plain" "ipc_typed plain"
  by unfold_locales (auto simp: fresh_ipc_typed, auto simp: ipc_typed_def intro: ipc_tagged_set ipc_described_set)

section \<open>Properties\<close>

text \<open>
  C23. A message keeps its type, whatever it is filled with. An object of any message class, of either
  protocol, on which setters are called in any order and any number of times, has a header of the
  length of the protocol with the type its constructor stamped, and the receiver's parser makes an object of
  the same class of it with the same bytes; when the names it was given have no NUL
  characters, the parsed object is the sender's.
\<close>

theorem messages_typed:
  assumes "reachable fresh_message (message_set plain) v" and "reachable fresh_ipc (ipc_set plain) u"
  shows "length (variant_raw v) = BUF_SIZE \<and> message_type \<lparr>msg_data = variant_raw v\<rparr> = Inr (variant_type v) \<and>
    (\<exists>v'. parse (variant_raw v) = Inr v' \<and> variant_type v' = variant_type v \<and> variant_raw v' = variant_raw v \<and> (plain \<longrightarrow> v' = v)) \<and>
    length (ipc_raw u) = IPC_BUF_SIZE \<and> ipc_type_of (ipc_raw u) = Inr (ipc_tag u) \<and>
    (\<exists>u'. parse_message (ipc_raw u) = Inr u' \<and> ipc_tag u' = ipc_tag u \<and> ipc_raw u' = ipc_raw u \<and> (plain \<longrightarrow> u' = u))"
proof (intro conjI)
  have v: "typed plain v" using assms(1) by (rule wire_types.reachable_good)
  then show "length (variant_raw v) = BUF_SIZE" by (simp add: typed_def tagged_def)
  show "message_type \<lparr>msg_data = variant_raw v\<rparr> = Inr (variant_type v)"
    using v by (cases v) (auto simp: typed_def tagged_def message_type_def Let_def)
  show "\<exists>v'. parse (variant_raw v) = Inr v' \<and> variant_type v' = variant_type v \<and> variant_raw v' = variant_raw v \<and> (plain \<longrightarrow> v' = v)"
    using v tagged_parse [of v] self_described_parse [of v] by (auto simp: typed_def)
  have u: "ipc_typed plain u" using assms(2) by (rule ipc_types.reachable_good)
  then show "length (ipc_raw u) = IPC_BUF_SIZE" by (simp add: ipc_typed_def ipc_tagged_def)
  show "ipc_type_of (ipc_raw u) = Inr (ipc_tag u)"
    using u by (cases u) (auto simp: ipc_typed_def ipc_tagged_def ipc_type_of_def Let_def)
  show "\<exists>u'. parse_message (ipc_raw u) = Inr u' \<and> ipc_tag u' = ipc_tag u \<and> ipc_raw u' = ipc_raw u \<and> (plain \<longrightarrow> u' = u)"
    using u ipc_tagged_parse [of u] by (auto simp: ipc_typed_def)
qed

text \<open>A put message whose name is set twice, and a result whose code is set after its length.\<close>

theorem messages_typed_witness:
  "\<exists>v m u. parse (variant_raw v) = Inr v \<and> v = PutMessagePtr m \<and> put_name m = ''b'' \<and> parse_message (ipc_raw u) = Inr u \<and>
     ipc_tag u = IPC_INVOCATION_RESULT"
proof -
  have "\<exists>m1. set_put_name ''long name'' (PutMessage MessageData_default) = Inr m1"
      "\<exists>m2. set_put_name ''b'' m = Inr m2 \<and> msg_data m2 = put_cstr (msg_data m) 6 32 ''b'' \<and> name_len m2 = 1" for m
    by (simp_all add: set_put_name_def)
  then obtain m1 m2 where m: "set_put_name ''long name'' (PutMessage MessageData_default) = Inr m1" "set_put_name ''b'' m1 = Inr m2"
      "msg_data m2 = put_cstr (msg_data m1) 6 32 ''b''" "name_len m2 = 1" by meson
  from m(1) have "length (msg_data m1) = 70" by (auto simp: message_simps)
  with m(3,4) have name: "put_name m2 = ''b''" using peek_put_cstr_prefix [of 6 32 "msg_data m1" "''b''"]
    by (simp add: put_name_def no_nul_def)
  have start: "reachable fresh_message (message_set True) (PutMessagePtr (PutMessage MessageData_default))"
    by (intro reachable_start fresh_message.intros)
  have "message_set True (PutMessagePtr (PutMessage MessageData_default)) (PutMessagePtr m1)"
    by (rule built_put_name [OF _ m(1)]) (simp add: admitted_def no_nul_def)
  with start have "reachable fresh_message (message_set True) (PutMessagePtr m1)" by (rule reachable_step)
  moreover have "message_set True (PutMessagePtr m1) (PutMessagePtr m2)"
    by (rule built_put_name [OF _ m(2)]) (simp add: admitted_def no_nul_def)
  ultimately have v: "reachable fresh_message (message_set True) (PutMessagePtr m2)" by (rule reachable_step)
  let ?r = "set_irs_return_code 3 (set_irs_buffer_length 7 ipc_InvocationResult)"
  have "reachable fresh_ipc (ipc_set True) (InvocationResultV ipc_InvocationResult)"
    by (intro reachable_start fresh_ipc.intros)
  then have "reachable fresh_ipc (ipc_set True) (InvocationResultV (set_irs_buffer_length 7 ipc_InvocationResult))"
    by (rule reachable_step) (rule ipc_set.intros)
  then have u: "reachable fresh_ipc (ipc_set True) (InvocationResultV ?r)"
    by (rule reachable_step) (rule ipc_set.intros)
  from messages_typed [OF v u] name show ?thesis
    by (intro exI [of _ "PutMessagePtr m2"] exI [of _ m2] exI [of _ "InvocationResultV ?r"]) auto
qed

end
