(* ===== verification/End_To_End.thy ===== *)
theory End_To_End
  imports Sdk Worker_Launch
begin

text \<open>
  The whole path of an invocation inside a process: the client library, the TCP server of the
  process, its controller, the message queues to a worker, the invoker of that worker with the user's
  function, and the way back. The theories of these components say what each does with its
  input; here the output of one is the input of the next.
\<close>

section \<open>Invokers that wait\<close>

text \<open>
  The invoker behind a worker waits on its empty queue, and its library has the function, which
  computes \<open>code\<close> and \<open>out\<close> from the payloads \<open>ds\<close> and sends nothing on its own.
\<close>

definition invoker_ready ::
    "nat \<Rightarrow> user_function library \<Rightarrow> string \<Rightarrow> bytes list \<Rightarrow> int32 \<Rightarrow> bytes \<Rightarrow> runtime \<Rightarrow> bool" where
  "invoker_ready ms l f ds code out st \<longleftrightarrow>
     reachable runtime_initial runtime_step st \<and> \<not> rt_ending st \<and> rt_queue st = [] \<and>
     (\<exists>ch. rt_read st = Some ch \<and> ch_msg_size ch = ms) \<and> (\<exists>ch. rt_write st = Some ch \<and> ch_msg_size ch = ms) \<and>
     (\<exists>fn. library_get_function f l = Some fn \<and> computes ds code out (\<lambda>own. own = []) fn)"

text \<open>The controller's end of the queue on which a worker answers, between two messages.\<close>

definition between_messages :: "nat \<Rightarrow> ipc_channel \<Rightarrow> bool" where
  "between_messages ms ch \<longleftrightarrow> ch_msg_size ch = ms \<and> \<not> ch_msg_read ch \<and> ch_msg_payload ch = Buffer_default \<and>
     length (ch_buffers ch) \<le> BUFFER_ELEMS"

section \<open>From the controller to the invoker\<close>

lemma total_length_again:
  "length m = IPC_BUF_SIZE \<Longrightarrow> set_ipc_total_length n (set_ipc_total_length n' m) = set_ipc_total_length n m"
  by (simp add: set_ipc_total_length_def put_i32_def poke_def)

lemma payload_buffer_of_simps [simp]:
  "wf_buffer (payload_buffer_of d)" "buffer_data (payload_buffer_of d) = d" "buf_len (payload_buffer_of d) = length d"
  by (simp_all add: payload_buffer_of_def wf_buffer_def buffer_data_def buffer_accessor_def accessor_data_def)

text \<open>What the controller puts on the queue of a worker is an invocation for its invoker.\<close>

lemma handed_over_invocation:
  assumes m: "parse (em_msg m) = Inr (InvocationRequestPtr req)" "em_payload m = payload_buffer_of d" "length d < 2 ^ 31"
    and h: "handed_over m req c c' w h" and ms: "IPC_BUF_SIZE \<le> ms"
  shows "\<exists>cs. ipc_send_buffers ms h [payload_buffer_of d] = Some (h, cs) \<and>
           is_invocation ms (function_name req) (invocation_id req) [payload_buffer_of d] cs"
proof -
  from h m(2) obtain t i0 i where i: "Invocation (function_name req) (invocation_id req) t (message_source m) = Inr i0"
      "inv_req i = inv_req i0" "inv_payload i = [payload_buffer_of d]" "submitted i h"
    by (auto simp: handed_over_def)
  have req: "length (irq_data (inv_req i)) = IPC_BUF_SIZE" using Invocation_ok [OF i(1)] i(2) by simp
  with submitted_header [OF i(4)] i(3) m(3) have hdr: "header_of h d" by simp
  then have len: "length h = IPC_BUF_SIZE" by (simp add: header_of_def)
  obtain r where r: "h = set_ipc_total_length (i32_of_size (length d)) (irq_data r)" "set_irq_buffers_iter [length d] (inv_req i) = Inr r"
    using i(3,4) by (auto simp: submitted_def)
  have "length (irq_data r) = IPC_BUF_SIZE"
    using r(2) req irq_buffers_read_back [of "inv_req i" "[i32_of_size (length d)]"] by (auto simp: set_irq_buffers_iter_def)
  with r(1) have same: "set_ipc_total_length (i32_of_size (length d)) h = h" by (simp add: total_length_again)
  obtain F where F: "ipc_send_buffers ms h [payload_buffer_of d] = Some (h, h # F)" "fragments ms F" "concat F = d"
    using ipc_send_buffers_returns [OF ms len, of "[payload_buffer_of d]"] m(3) same by auto
  have "framed ms h (concat (map buffer_data [payload_buffer_of d])) (h # F)" using hdr F by (simp add: framed_def)
  with i have "\<exists>t src i0 i h'. Invocation (function_name req) (invocation_id req) t src = Inr i0 \<and> inv_req i = inv_req i0 \<and>
      inv_payload i = [payload_buffer_of d] \<and> submitted i h' \<and> framed ms h' (concat (map buffer_data [payload_buffer_of d])) (h # F)"
    by blast
  then have "is_invocation ms (function_name req) (invocation_id req) [payload_buffer_of d] (h # F)"
    using parsed_invocation_names(1,3) [OF m(1)] m(3) unfolding is_invocation_def by simp
  with F(1) show ?thesis by blast
qed

lemma ready_invoker_answers:
  assumes st: "invoker_ready ms l f (map buffer_data bs) code out st" and ms: "IPC_BUF_SIZE \<le> ms"
    and cs: "is_invocation ms f key bs cs" "length key \<le> IPC_ID_LENGTH"
  shows "\<exists>st' answer. main_round l (st\<lparr>rt_queue := cs\<rparr>) = returns (Inr (True, st')) \<and> rt_sent st' = rt_sent st @ answer \<and>
           is_result ms key code out answer"
proof -
  from st obtain ch chw fn where r: "reachable runtime_initial runtime_step st" "\<not> rt_ending st" "rt_queue st = []"
      "rt_read st = Some ch" "ch_msg_size ch = ms" "rt_write st = Some chw" "ch_msg_size chw = ms"
      "library_get_function f l = Some fn" "computes (map buffer_data bs) code out (\<lambda>own. own = []) fn"
    by (auto simp: invoker_ready_def)
  have "reachable runtime_initial runtime_step (st\<lparr>rt_queue := cs\<rparr>)"
    using reachable_step [OF r(1) step_arrive, of cs] r(3) by simp
  from invoker_round [OF this, of ch chw "[]" cs "[]" "[]" f key bs l fn code out "\<lambda>own. own = []"] r ms cs show ?thesis by auto
qed

text \<open>The controller reads the answer as one message.\<close>

lemma answer_received:
  assumes "is_result ms key code out answer" and "between_messages ms ch" and "IPC_BUF_SIZE \<le> ms"
  shows "\<exists>ch' b r. receive ch answer = Inr (ch', [], True, b) \<and> between_messages ms ch' \<and> buffer_data b = out \<and>
           length out < 2 ^ 31 \<and> parse_message (ch_msg ch') = Inr (InvocationResultV r) \<and> irs_invocation_id r = key \<and>
           irs_return_code r = code"
proof -
  from assms(1) obtain h r F where h: "answer = h # F" "header_of h out" "fragments ms F" "concat F = out"
      "parse_message h = Inr (InvocationResultV r)" "irs_invocation_id r = key" "irs_return_code r = code"
    by (auto simp: is_result_def framed_def)
  from assms(2,3) have ch: "ch_msg_size ch = ms" "\<not> ch_msg_read ch" "ch_msg_payload ch = Buffer_default" "length (ch_buffers ch) \<le> BUFFER_ELEMS"
    by (simp_all add: between_messages_def)
  from receive_message [of h out ch F "[]"] h(2-4) ch assms(3) obtain ch' b where
    "receive ch (h # F) = Inr (ch', [], True, b)" "ch_msg ch' = h" "buffer_data b = out" "between_messages ms ch'"
    by (auto simp: between_messages_def)
  with h show ?thesis by (auto simp: header_of_def)
qed

section \<open>A process computes\<close>

text \<open>
  The steps of a process from a controller with a request in its queue of messages to one that has
  the result: an iteration of the controller sends the input to an idle worker \<open>k\<close>, whose invoker
  takes the fragments from its queue and runs the function; the controller receives the invoker's
  answer as one message, and the iteration that handles it leaves the worker idle.
\<close>

definition process_run ::
    "((string \<times> nat) list \<Rightarrow> bytes) \<Rightarrow> nat \<Rightarrow> nat \<Rightarrow> nat \<Rightarrow> (nat \<Rightarrow> user_function library) \<Rightarrow> (nat \<Rightarrow> runtime) \<Rightarrow>
     (nat \<Rightarrow> ipc_channel) \<Rightarrow> controller \<Rightarrow> bytes \<Rightarrow> controller \<Rightarrow> bool" where
  "process_run ser now now' ms l rt rd c d c2 \<longleftrightarrow>
     (\<exists>k hdr cs c1 st' answer ch' b.
        poll_iteration ser now [WakeUp] c = Inr c1 \<and> k < length (wp_workers (ct_workers c)) \<and>
        \<not> fw_busy (wp_workers (ct_workers c) ! k) \<and>
        fw_sent (wp_workers (ct_workers c1) ! k) = fw_sent (wp_workers (ct_workers c) ! k) @ [(hdr, d)] \<and>
        ipc_send_buffers ms hdr [payload_buffer_of d] = Some (hdr, cs) \<and>
        main_round (l k) ((rt k)\<lparr>rt_queue := cs\<rparr>) = returns (Inr (True, st')) \<and> rt_sent st' = rt_sent (rt k) @ answer \<and>
        receive (rd k) answer = Inr (ch', [], True, b) \<and>
        poll_iteration ser now' [WorkerMessage k (ch_msg ch') b] c1 = Inr c2 \<and> \<not> fw_busy (wp_workers (ct_workers c2) ! k))"

text \<open>
  A process that is ready for a function and an input: an idle worker, nothing that waits, and
  invokers that wait and whose function computes \<open>code\<close> and \<open>out\<close> from the input \<open>d\<close>.
\<close>

definition process_ready ::
    "nat \<Rightarrow> (nat \<Rightarrow> user_function library) \<Rightarrow> (nat \<Rightarrow> runtime) \<Rightarrow> (nat \<Rightarrow> ipc_channel) \<Rightarrow> string \<Rightarrow>
     bytes \<Rightarrow> int32 \<Rightarrow> bytes \<Rightarrow> controller \<Rightarrow> bool" where
  "process_ready ms l rt rd f d code out c \<longleftrightarrow>
     controller_inv c \<and> has_idle_workers (ct_workers c) \<and> wq_pending (ct_queue c) = [] \<and> ct_updates c = [] \<and> ct_external c = [] \<and>
     get_trigger (wq_functions (ct_queue c)) f \<noteq> None \<and> IPC_BUF_SIZE \<le> ms \<and>
     (\<forall>w < length (wp_workers (ct_workers c)). invoker_ready ms (l w) f [d] code out (rt w) \<and> between_messages ms (rd w))"

lemma process_computes:
  assumes m: "parse (em_msg m) = Inr (InvocationRequestPtr r)" "em_payload m = payload_buffer_of d" "length d < 2 ^ 31"
      "is_remote (message_source m)"
    and ready: "process_ready ms l rt rd (function_name r) d code out c" "status_of (ct_queue c) (invocation_id r) = Absent"
  shows "\<exists>c2. process_run ser now now' ms l rt rd (c\<lparr>ct_external := [m]\<rparr>) d c2 \<and> length out < 2 ^ 31 \<and>
           ct_server c2 = ct_server c @ [ServerInvocationResult (src_type (message_source m)) (src_process (message_source m))
             (invocation_id r) code out] \<and> status_of (ct_queue c2) (invocation_id r) = Absent"
proof -
  from ready(1) have c: "controller_inv c" "has_idle_workers (ct_workers c)" "wq_pending (ct_queue c) = []" "ct_updates c = []"
      and ms: "IPC_BUF_SIZE \<le> ms"
      and w: "\<And>w. w < length (wp_workers (ct_workers c)) \<Longrightarrow> invoker_ready ms (l w) (function_name r) [d] code out (rt w) \<and> between_messages ms (rd w)"
    by (auto simp: process_ready_def)
  obtain t where "get_trigger (wq_functions (ct_queue c)) (function_name r) = Some t" using ready(1) by (auto simp: process_ready_def)
  from poll_hands_over [OF c(1-3) ready(2) c(4) m(1) this] obtain c1 k hdr where
    c1: "poll_iteration ser now [WakeUp] (c\<lparr>ct_external := [m]\<rparr>) = Inr c1" "handed_over m r c c1 k hdr" by blast
  then have k: "k < length (wp_workers (ct_workers c))" "\<not> fw_busy (wp_workers (ct_workers c) ! k)"
      "fw_sent (wp_workers (ct_workers c1) ! k) = fw_sent (wp_workers (ct_workers c) ! k) @ [(hdr, d)]"
    using m(2) by (simp_all add: handed_over_def)
  obtain cs where cs: "ipc_send_buffers ms hdr [payload_buffer_of d] = Some (hdr, cs)"
      "is_invocation ms (function_name r) (invocation_id r) [payload_buffer_of d] cs"
    using handed_over_invocation [OF m(1-3) c1(2) ms] by blast
  obtain st' answer where a: "main_round (l k) ((rt k)\<lparr>rt_queue := cs\<rparr>) = returns (Inr (True, st'))" "rt_sent st' = rt_sent (rt k) @ answer"
      "is_result ms (invocation_id r) code out answer"
    using ready_invoker_answers [OF _ ms cs(2), of "l k" code out "rt k"] w [OF k(1)] parsed_invocation_names(4) [OF m(1)] by auto
  obtain ch' b q where b: "receive (rd k) answer = Inr (ch', [], True, b)" "buffer_data b = out" "length out < 2 ^ 31"
      "parse_message (ch_msg ch') = Inr (InvocationResultV q)" "irs_invocation_id q = invocation_id r" "irs_return_code q = code"
    using answer_received [OF a(3) _ ms, of "rd k"] w [OF k(1)] by auto
  from c1(2) obtain i where i: "controller_inv c1" "wq_pending (ct_queue c1) = []" "k < length (wp_workers (ct_workers c1))"
      "fw_busy (wp_workers (ct_workers c1) ! k)" "ct_server c1 = ct_server c"
      "wq_active (ct_queue c1) (invocation_id r) = Some i" "inv_active i" "inv_source i = message_source m"
    by (auto simp: handed_over_def)
  obtain c2 where c2: "poll_iteration ser now' [WorkerMessage k (ch_msg ch') b] c1 = Inr c2" "\<not> fw_busy (wp_workers (ct_workers c2) ! k)"
      "ct_server c2 = ct_server c @ [ServerInvocationResult (src_type (message_source m)) (src_process (message_source m)) (invocation_id r) code out]"
      "status_of (ct_queue c2) (invocation_id r) = Absent"
    using poll_returns_result [OF i(1-4) _ i(7) _ b(4), of ser now' b] i(5,6,8) b(2,5,6) m(4) by auto
  have "process_run ser now now' ms l rt rd (c\<lparr>ct_external := [m]\<rparr>) d c2"
    unfolding process_run_def using c1(1) k cs(1) a(1,2) b(1) c2(1,2) by auto
  with b(3) c2(3,4) show ?thesis by blast
qed

section \<open>From the configuration to a ready process\<close>

lemma opened_between_messages: "between_messages sz (opened q sz create)"
  by (simp add: between_messages_def opened_def BufferQueue_def)

lemma new_invoker_ready:
  assumes "k (n @ ''_read'') = Some (sz, [])" and "k (n @ ''_write'') = Some (sz, [])"
    and "library_get_function f l = Some fn" and "computes ds code out (\<lambda>own. own = []) fn"
  shows "\<exists>st. Invoker pid POSIX_MQ n k = Inr (st, k) \<and> invoker_ready sz l f ds code out (create_context st)"
proof -
  obtain st where st: "Invoker pid POSIX_MQ n k = Inr (st, k)" "rt_read st = Some (opened (n @ ''_write'') sz False)"
      "rt_write st = Some (opened (n @ ''_read'') sz False)" "\<not> rt_ending st" "rt_queue st = []"
    using invoker_opens [OF assms(1,2)] by blast
  have "runtime_initial (create_context st)" unfolding runtime_initial_def using st(1) by blast
  then have "reachable runtime_initial runtime_step (create_context st)" by (rule reachable_start)
  moreover have "rt_read (create_context st) = rt_read st" "rt_write (create_context st) = rt_write st"
      "rt_ending (create_context st) = rt_ending st" "rt_queue (create_context st) = rt_queue st"
    by (simp_all add: create_context_def new_array_def Let_def)
  ultimately have "invoker_ready sz l f ds code out (create_context st)"
    unfolding invoker_ready_def using st(2-5) assms(3,4) by (simp add: opened_def)
  with st(1) show ?thesis by blast
qed

text \<open>
  C4. A process that is started is ready for the functions of its configuration. The controller
  reads the document of functions and creates the queues of its workers; every worker is an
  invoker that opens its queues and loads, in any order, the functions of the same document that
  the dynamic linker finds. Then each function of the document that is found, and that computes a
  code and an output from an input, can be invoked with that input: the process is ready in the
  sense in which an invocation runs from end to end.
\<close>

theorem started_process_ready:
  assumes start: "Controller self_dir pid cfg doc = Inr c" "cfg_ipc_mode cfg = POSIX_MQ" "code_language (cfg_code cfg) = CPP"
      "0 < cfg_function_workers cfg" "int IPC_BUF_SIZE \<le> cfg_ipc_message_size cfg"
    and table: "Functions_initialize doc CPP = Inr fs" "set db = {(n, fn_module g, fn_name g) | n g. fs n = Some g}"
    and found: "fs f = Some g" "dlopen (fn_module g) = Some h" "dlsym h (fn_name g) = Some fn"
    and computes: "computes [d] code out (\<lambda>own. own = []) fn"
  shows "\<exists>chs k' rt rd. launch_workers cfg pid k = Inr (chs, k') \<and>
           (\<forall>i < nat (cfg_function_workers cfg). \<exists>w st. chs ! i = Some (rd i, w) \<and> rt i = create_context st \<and>
              Invoker (cfg_process_id cfg) POSIX_MQ (worker_ipc_name cfg pid i) k' = Inr (st, k')) \<and>
           process_ready (nat (cfg_ipc_message_size cfg)) (\<lambda>_. FunctionsLibrary dlopen dlsym db) rt rd f d code out c"
proof -
  let ?n = "nat (cfg_function_workers cfg)" and ?sz = "nat (cfg_ipc_message_size cfg)" and ?l = "FunctionsLibrary dlopen dlsym db"
  let ?q = "worker_ipc_name cfg pid"
  define ns where "ns = map ?q [0..<?n]"
  define k' where "k' = (\<lambda>q. if q \<in> set (queue_names ns) then Some (?sz, []) else k q)"
  let ?chs = "map (\<lambda>n. Some (opened (n @ ''_read'') ?sz True, opened (n @ ''_write'') ?sz True)) ns"
  have launch: "launch_workers cfg pid k = Inr (?chs, k')"
    using start(2,3,5) by (simp add: launch_workers_def create_workers_result k'_def ns_def)
  have lib: "library_get_function f ?l = Some fn"
    using library_functions [of f db "fn_module g" "fn_name g" dlopen h dlsym fn] table(2) found by auto
  have inv: "\<exists>st. Invoker (cfg_process_id cfg) POSIX_MQ (?q i) k' = Inr (st, k') \<and> invoker_ready ?sz ?l f [d] code out (create_context st)"
    if "i < ?n" for i
    using that by (intro new_invoker_ready [OF _ _ lib computes]) (auto simp: k'_def ns_def in_queue_names)
  then obtain st where st: "\<And>i. i < ?n \<Longrightarrow> Invoker (cfg_process_id cfg) POSIX_MQ (?q i) k' = Inr (st i, k') \<and>
      invoker_ready ?sz ?l f [d] code out (create_context (st i))" by metis
  have "controller_inv c" using ctrl.good_initial [of c] start(1,4) unfolding controller_initial_def by force
  moreover have c: "length (wp_workers (ct_workers c)) = ?n" "0 < wp_idle (ct_workers c)" "ct_queue c = WorkQueue fs"
      "ct_updates c = []" "ct_external c = []"
    using start(1,3,4) table(1) by (auto simp: Controller_def Workers_def)
  ultimately have "process_ready ?sz (\<lambda>_. ?l) (\<lambda>i. create_context (st i)) (\<lambda>i. opened (?q i @ ''_read'') ?sz True) f d code out c"
    using st start(4,5) found(1)
    by (simp add: process_ready_def has_idle_workers_def WorkQueue_def get_trigger_def opened_between_messages)
  with launch st show ?thesis
    by (intro exI [of _ ?chs] exI [of _ k'] exI [of _ "\<lambda>i. create_context (st i)"]
        exI [of _ "\<lambda>i. opened (?q i @ ''_read'') ?sz True"]) (auto simp: ns_def)
qed

text \<open>The functions of the benchmarks.\<close>

definition benchmark_library :: string where
  "benchmark_library = ''/praas/benchmarks/functions/libbenchmark_functions.so''"

definition benchmark_entry :: "string \<Rightarrow> string \<times> json" where
  "benchmark_entry n =
     (n, JObject [(''code'', JObject [(''module'', JString benchmark_library), (''function'', JString n)]),
                  (''trigger'', JObject [(''type'', JString ''direct''), (''nargs'', JInt 1)])])"

definition benchmark_functions :: json where
  "benchmark_functions =
     JObject [(''functions'', JObject [(''cpp'', JObject [benchmark_entry ''no_op'', benchmark_entry ''no_op_local''])])]"

definition benchmark_symbols :: "nat \<Rightarrow> string \<Rightarrow> user_function option" where
  "benchmark_symbols h n = (if h = 1 \<and> n = ''no_op'' then Some no_op else None)"

theorem started_process_ready_witness:
  "\<exists>c chs k' rt rd. Controller ''/bin'' 7 example_workers_config benchmark_functions = Inr c \<and>
     launch_workers example_workers_config 7 Map.empty = Inr (chs, k') \<and>
     process_ready 8192
       (\<lambda>_. FunctionsLibrary [benchmark_library \<mapsto> 1] benchmark_symbols
              [(''no_op_local'', benchmark_library, ''no_op_local''), (''no_op'', benchmark_library, ''no_op'')])
       rt rd ''no_op'' ''in'' 0 ''in'' c"
proof -
  let ?cfg = example_workers_config and ?g = "\<lambda>n. \<lparr>fn_trigger = DirectTrigger n, fn_module = benchmark_library, fn_name = n\<rparr>"
  let ?fs = "[''no_op'' \<mapsto> ?g ''no_op'', ''no_op_local'' \<mapsto> ?g ''no_op_local'']"
  let ?db = "[(''no_op_local'', benchmark_library, ''no_op_local''), (''no_op'', benchmark_library, ''no_op'')]"
  have table: "Functions_initialize benchmark_functions CPP = Inr ?fs"
    by (simp add: benchmark_functions_def benchmark_entry_def Functions_initialize_def json_member_def parse_function_def parse_trigger_def)
  then obtain c where c: "Controller ''/bin'' 7 ?cfg benchmark_functions = Inr c"
    by (simp add: Controller_def Workers_def example_workers_config_def)
  have cfg: "cfg_ipc_mode ?cfg = POSIX_MQ" "code_language (cfg_code ?cfg) = CPP" "0 < cfg_function_workers ?cfg"
      "int IPC_BUF_SIZE \<le> cfg_ipc_message_size ?cfg" "nat (cfg_ipc_message_size ?cfg) = 8192"
    by (simp_all add: example_workers_config_def)
  have db: "set ?db = {(n, fn_module g, fn_name g) | n g. ?fs n = Some g}" by (auto split: if_splits)
  have found: "?fs ''no_op'' = Some (?g ''no_op'')" "[benchmark_library \<mapsto> 1] (fn_module (?g ''no_op'')) = Some 1"
      "benchmark_symbols 1 (fn_name (?g ''no_op'')) = Some no_op"
    by (simp_all add: benchmark_symbols_def)
  have computes: "computes [''in''] 0 ''in'' (\<lambda>own. own = []) no_op" by (rule no_op_computes) simp
  from started_process_ready [of "''/bin''" 7 ?cfg benchmark_functions c ?fs ?db "''no_op''" "?g ''no_op''" "[benchmark_library \<mapsto> 1]" 1
      benchmark_symbols no_op "''in''" 0 "''in''" Map.empty, OF c cfg(1-4) table db found computes, unfolded cfg(5)] c show ?thesis by blast
qed

section \<open>The whole path\<close>

text \<open>
  C1. An invocation from end to end. A client of the library connects to a process and invokes
  a function the process has, while one of its workers is idle and nothing waits. The bytes of the
  client reach the TCP server; the next iteration of the controller hands the request to an idle
  worker, whose invoker reads it from its message queue and runs the user's function on exactly
  the client's input; the controller reads the answer of the invoker as one message, frees the
  worker, forgets the invocation and asks the server once to return the result; and the client's
  call returns the code and the output the function computed, or for a negative code its absolute
  value and the output as the error message. Nothing is left unread at either end.
\<close>

theorem invocation_end_to_end:
  assumes server: "sv_context s sk = None" "sv_connections s ''DATAPLANE'' = None" "sv_buffers s = []" "sv_sent s sk = []"
    and request: "name_ok fname" "no_nul iid" "length iid \<le> ID_LENGTH" "length d < 2 ^ 31"
    and process: "process_ready ms l rt rd fname d code out (sv_controller s)" "status_of (ct_queue (sv_controller s)) iid = Absent"
    and code: "sint code \<noteq> - (2 ^ 31)"
  shows "\<exists>w s1 h s2 call c2 s3 p1 p2.
           handle_message sk w s = Inr ([], s1) \<and> handle_message sk (h @ d) s1 = Inr ([], s2) \<and>
           process_run ser now now' ms l rt rd (sv_controller s2) d c2 \<and>
           ct_server c2 = ct_server (sv_controller s) @ [call] \<and> status_of (ct_queue c2) iid = Absent \<and>
           perform_call call (s2\<lparr>sv_controller := c2\<rparr>) = Inr s3 \<and>
           sdk_connect (Some (concat (sv_sent s3 sk))) p = Inr (True, p1) \<and> sp_out p1 = [w] \<and>
           sdk_invoke fname iid d p1 = Inr (outcome code out, p2) \<and> concat (sp_out p2) = w @ h @ d \<and> sp_in p2 = []"
proof -
  obtain w s1 h s2 r where sv: "handle_message sk w s = Inr ([], s1)" "handle_message sk (h @ d) s1 = Inr ([], s2)"
      "sv_controller s2 = deliver
        [\<lparr>em_source_type = PROCESS, em_source = Some ''DATAPLANE'', em_msg = h, em_payload = payload_buffer_of d\<rparr>] (sv_controller s)" and
    r: "parse h = Inr (InvocationRequestPtr r)" "function_name r = fname" "invocation_id r = iid" and
    returned: "\<And>c code out. length out < 2 ^ 31 \<Longrightarrow> sint code \<noteq> - (2 ^ 31) \<Longrightarrow>
       \<exists>s3 p1 p2. perform_call (ServerInvocationResult PROCESS (Some ''DATAPLANE'') iid code out) (s2\<lparr>sv_controller := c\<rparr>) = Inr s3 \<and>
         sdk_connect (Some (concat (sv_sent s3 sk))) p = Inr (True, p1) \<and> sp_out p1 = [w] \<and>
         sdk_invoke fname iid d p1 = Inr (outcome code out, p2) \<and> concat (sp_out p2) = w @ h @ d \<and> sp_in p2 = []"
    using sdk_session [OF server request, of p] by metis
  let ?m = "\<lparr>em_source_type = PROCESS, em_source = Some ''DATAPLANE'', em_msg = h, em_payload = payload_buffer_of d\<rparr>"
  have src: "message_source ?m = from_process ''DATAPLANE''" "is_remote (message_source ?m)"
    by (simp_all add: message_source_def is_remote_def from_process_def)
  have c: "sv_controller s2 = (sv_controller s)\<lparr>ct_external := [?m]\<rparr>"
    using sv(3) process(1) by (simp add: deliver_def process_ready_def)
  let ?call = "ServerInvocationResult PROCESS (Some ''DATAPLANE'') iid code out"
  obtain c2 where c2: "process_run ser now now' ms l rt rd (sv_controller s2) d c2" "length out < 2 ^ 31"
      "ct_server c2 = ct_server (sv_controller s) @ [?call]" "status_of (ct_queue c2) iid = Absent"
    using process_computes [of ?m r d ms l rt rd code out "sv_controller s" ser now now'] r src request(4) process
    unfolding c by (auto simp: from_process_def)
  from returned [OF c2(2) code, of c2] obtain s3 p1 p2 where
    "perform_call ?call (s2\<lparr>sv_controller := c2\<rparr>) = Inr s3" "sdk_connect (Some (concat (sv_sent s3 sk))) p = Inr (True, p1)" "sp_out p1 = [w]"
    "sdk_invoke fname iid d p1 = Inr (outcome code out, p2)" "concat (sp_out p2) = w @ h @ d" "sp_in p2 = []" by blast
  with sv(1,2) c2 show ?thesis by blast
qed

definition ready_server :: tcp_server where
  "ready_server = TCPServer example_controller"

definition echo_library :: "user_function library" where
  "echo_library = \<lparr>lb_libraries = Map.empty, lb_functions = [''add'' \<mapsto> no_op]\<rparr>"

lemma example_invoker_ready: "length d < 2 ^ 31 \<Longrightarrow> invoker_ready 1024 echo_library ''add'' [d] 0 d example_invoker"
  using example_invoker_channels example_invoker_reachable no_op_computes
  by (auto simp: invoker_ready_def echo_library_def library_get_function_def)

definition example_receiver :: ipc_channel where
  "example_receiver = opened ''/w_read'' 1024 True"

lemma example_process_ready:
  "length d < 2 ^ 31 \<Longrightarrow>
   process_ready 1024 (\<lambda>_. echo_library) (\<lambda>_. example_invoker) (\<lambda>_. example_receiver) ''add'' d 0 d example_controller"
  using example_controller_inv example_invoker_ready [of d]
  by (simp add: process_ready_def example_controller_def has_idle_workers_def WorkQueue_def get_trigger_def
      opened_between_messages example_receiver_def)

theorem invocation_end_to_end_witness:
  "\<exists>w s1 h s2 call c2 s3 p1 p2.
     handle_message 5 w ready_server = Inr ([], s1) \<and> handle_message 5 (h @ ''in'') s1 = Inr ([], s2) \<and>
     process_run (\<lambda>_. []) 3 4 1024 (\<lambda>_. echo_library) (\<lambda>_. example_invoker) (\<lambda>_. example_receiver) (sv_controller s2) ''in'' c2 \<and>
     perform_call call (s2\<lparr>sv_controller := c2\<rparr>) = Inr s3 \<and>
     sdk_connect (Some (concat (sv_sent s3 5))) (sdk_Process ''localhost'' 8000 True) = Inr (True, p1) \<and>
     sdk_invoke ''add'' ''id-7'' ''in'' p1 =
       Inr (\<lparr>sr_return_code = 0, sr_payload = Some ''in'', sr_payload_len = 2, sr_error_message = []\<rparr>, p2)"
proof -
  have server: "sv_context ready_server 5 = None" "sv_connections ready_server ''DATAPLANE'' = None" "sv_buffers ready_server = []"
      "sv_sent ready_server 5 = []" "sv_controller ready_server = example_controller"
    by (simp_all add: ready_server_def TCPServer_def)
  have request: "name_ok ''add''" "no_nul ''id-7''" "length ''id-7'' \<le> ID_LENGTH" "length ''in'' < 2 ^ 31"
    by (simp_all add: name_ok_def no_nul_def)
  have process: "process_ready 1024 (\<lambda>_. echo_library) (\<lambda>_. example_invoker) (\<lambda>_. example_receiver) ''add'' ''in'' 0 ''in''
      (sv_controller ready_server)" "status_of (ct_queue (sv_controller ready_server)) ''id-7'' = Absent"
    unfolding server(5) using example_process_ready [of "''in''"] by (simp_all add: example_controller_def WorkQueue_def status_of_def)
  have told: "outcome 0 ''in'' = \<lparr>sr_return_code = 0, sr_payload = Some ''in'', sr_payload_len = 2, sr_error_message = []\<rparr>"
    by (simp add: outcome_def)
  have code: "sint (0 :: int32) \<noteq> - (2 ^ 31)" by simp
  show ?thesis
    using invocation_end_to_end [OF server(1-4) request process code,
        of "\<lambda>_. []" 3 4 "sdk_Process ''localhost'' 8000 True", unfolded told]
    by (elim exE conjE) (intro exI conjI, assumption+)
qed

end
