(* ===== verification/Peers.thy ===== *)
theory Peers
  imports End_To_End
begin

text \<open>
  A message between two processes, from the function that puts it to the function that gets it:
  the invoker of the one, the queues to its controller, its controller and TCP server, the TCP
  server and the controller of the other, and the queues to an invoker there and back. As in theory \<^verbatim>\<open>End_To_End\<close>
  the output of each component is the input of the next.
\<close>

section \<open>Steps of a put and of a get\<close>

text \<open>A controller that has nothing to do.\<close>

definition quiet :: "controller \<Rightarrow> bool" where
  "quiet c \<longleftrightarrow> controller_inv c \<and> wq_pending (ct_queue c) = [] \<and> ct_updates c = [] \<and> ct_external c = []"

text \<open>
  A function puts the bytes \<open>d\<close> that a view shows; the controller receives the fragments as one
  message of worker \<open>w\<close>, and handles it with a call of its server.
\<close>

definition put_run ::
    "((string \<times> nat) list \<Rightarrow> bytes) \<Rightarrow> nat \<Rightarrow> string \<Rightarrow> string \<Rightarrow> view \<Rightarrow> runtime \<Rightarrow> worker_id \<Rightarrow> ipc_channel \<Rightarrow> controller \<Rightarrow>
     bytes \<Rightarrow> server_call \<Rightarrow> controller \<Rightarrow> bool" where
  "put_run ser now dst key v st w ch c d call c1 \<longleftrightarrow>
     (\<exists>st' cs ch' b. view_data v st = Inr d \<and> context_put dst key v st = returns (Inr st') \<and> rt_sent st' = rt_sent st @ cs \<and>
        receive ch cs = Inr (ch', [], True, b) \<and> poll_iteration ser now [WorkerMessage w (ch_msg ch') b] c = Inr c1 \<and>
        ct_server c1 = ct_server c @ [call])"

text \<open>
  The request \<open>req\<close> of a function that gets reaches its controller as a message of worker \<open>w\<close>; what the controller
  has sent that worker since is a header and \<open>d\<close>; and with their fragments in the queue of the
  invoker the call of the function returns a view that shows \<open>d\<close>.
\<close>

definition get_request_run ::
    "((string \<times> nat) list \<Rightarrow> bytes) \<Rightarrow> nat \<Rightarrow> worker_id \<Rightarrow> ipc_channel \<Rightarrow> bytes list \<Rightarrow> controller \<Rightarrow> controller \<Rightarrow> bool" where
  "get_request_run ser now w ch req c c1 \<longleftrightarrow>
     (\<exists>ch' b. receive ch req = Inr (ch', [], True, b) \<and> poll_iteration ser now [WorkerMessage w (ch_msg ch') b] c = Inr c1)"

definition get_answered ::
    "nat \<Rightarrow> string \<Rightarrow> string \<Rightarrow> runtime \<Rightarrow> bytes list \<Rightarrow> worker_id \<Rightarrow> controller \<Rightarrow> controller \<Rightarrow> bytes \<Rightarrow> bool" where
  "get_answered ms src key st req w c c2 d \<longleftrightarrow>
     (\<exists>hdr cs v st'. fw_sent (wp_workers (ct_workers c2) ! w) = fw_sent (wp_workers (ct_workers c) ! w) @ [(hdr, d)] \<and>
        ipc_send_accessor ms hdr \<lparr>acc_ptr = Some d, acc_len = length d\<rparr> = Some (hdr, cs) \<and>
        context_get src key (st\<lparr>rt_queue := cs\<rparr>) = returns (Inr (v, st')) \<and> rt_sent st' = rt_sent st @ req \<and>
        view_data v st' = Inr d)"

section \<open>Lemmas\<close>

lemma framed_received:
  assumes "framed ms h d cs" and "between_messages ms ch" and "IPC_BUF_SIZE \<le> ms"
  shows "\<exists>ch' b. receive ch cs = Inr (ch', [], True, b) \<and> ch_msg ch' = h \<and> buffer_data b = d \<and> between_messages ms ch' \<and>
           (chan_wf ch \<longrightarrow> chan_wf ch' \<and> wf_buffer b)"
proof -
  from assms(1) obtain F where F: "cs = h # F" "header_of h d" "fragments ms F" "concat F = d" by (auto simp: framed_def)
  from assms(2,3) have ch: "ch_msg_size ch = ms" "\<not> ch_msg_read ch" "ch_msg_payload ch = Buffer_default" "length (ch_buffers ch) \<le> BUFFER_ELEMS"
    by (simp_all add: between_messages_def)
  from receive_message [of h d ch F "[]"] F(2-4) ch assms(3) obtain ch' b where
    r: "receive ch (h # F) = Inr (ch', [], True, b)" "ch_msg ch' = h" "buffer_data b = d" "between_messages ms ch'"
    by (auto simp: between_messages_def)
  with F(1) receive_wf [OF r(1)] show ?thesis by (intro exI [of _ ch'] exI [of _ b]) auto
qed

lemma quiet_schedule: "wq_inv (ct_queue c) \<Longrightarrow> wq_pending (ct_queue c) = [] \<Longrightarrow> schedule_controller c = Inr c"
  by (simp add: schedule_controller_def schedule_done)

lemma poll_message:
  assumes "process_internal_message ser now w h b c = Inr c1" and "ct_queue c1 = ct_queue c" and "quiet c"
  shows "poll_iteration ser now [WorkerMessage w h b] c = Inr c1"
  using assms quiet_schedule [of c1] by (simp add: poll_iteration_def quiet_def controller_inv_def)

text \<open>The message leaves the first process.\<close>

lemma put_leaves:
  assumes st: "runtime_inv st" "rt_write st = Some chw" "ch_msg_size chw = ms" "IPC_BUF_SIZE \<le> ms"
    and held: "ob \<in> set (cx_user_buffers st)" "vw_ptr v = owned_ptr ob" "vw_len v \<le> ow_size ob" "vw_len v < 2 ^ 31"
    and names: "name_ok key" "name_ok dst" "dst \<noteq> SELF_PROCESS" "dst \<noteq> ct_process_id c"
    and c: "quiet c" and ch: "between_messages ms ch" "chan_wf ch"
  shows "\<exists>d buf. put_run ser now dst key v st w ch c d (ServerPutMessage dst key buf) (server_call (ServerPutMessage dst key buf) c) \<and>
           buffer_data buf = d \<and> call_ok dst (ServerPutMessage dst key buf) \<and> length d < 2 ^ 31"
proof -
  have n: "no_nul key" "length key \<le> IPC_NAME_LENGTH" "case Some dst of None \<Rightarrow> True | Some q \<Rightarrow> no_nul q \<and> length q \<le> IPC_NAME_LENGTH"
    using names by (simp_all add: name_ok_def)
  from user_put_framed [OF st(1,2) _ n held, of False] st(3,4) obtain d cs st' where p: "view_data v st = Inr d" "length d = vw_len v"
      "context_put dst key v st = returns (Inr st')" "rt_sent st' = rt_sent st @ cs" "is_put ms dst key False d cs"
    by (auto simp: context_put_def)
  from p(5) obtain h m where m: "framed ms h d cs" "parse_message h = Inr (PutRequestV m)" "gr_process_id m = dst" "gr_name m = key" "\<not> gr_state m"
    by (auto simp: is_put_def)
  from framed_received [OF m(1) ch(1) st(4)] ch(2) obtain ch' buf where
    r: "receive ch cs = Inr (ch', [], True, buf)" "ch_msg ch' = h" "buffer_data buf = d" "wf_buffer buf" by blast
  let ?c1 = "server_call (ServerPutMessage dst key buf) c"
  have "process_internal_message ser now w h buf c = Inr ?c1"
    using m(2-5) names(3,4) by (simp add: process_internal_message_def process_put_def)
  then have "poll_iteration ser now [WorkerMessage w h buf] c = Inr ?c1"
    by (rule poll_message) (simp_all add: c server_call_def)
  moreover have "ct_server ?c1 = ct_server c @ [ServerPutMessage dst key buf]" by (simp add: server_call_def)
  ultimately have "put_run ser now dst key v st w ch c d (ServerPutMessage dst key buf) ?c1"
    unfolding put_run_def using p(1,3,4) r(1,2) by blast
  moreover have "buf_len buf = length d" using r(3,4) length_buffer_data by metis
  ultimately show ?thesis using r(3,4) p(2) held(4) names(1) by auto
qed

text \<open>It is sent on the socket of the peer, and arrives there.\<close>

lemma put_travels:
  assumes call: "call_ok b call" "name_ok a" "ct_process_id (sv_controller sa) = a"
    and sa: "sv_connections sa b = Some pb" "cn_conn pb = Some sk" "sv_sent sa sk = []"
    and sb: "sv_context sb sk' = Some a" "sv_connections sb a = Some pa" "cn_type pa = PROCESS" "cn_id pa = Some a"
      "cn_bytes_to_read pa = 0" "sv_buffers sb = []" "ct_external (sv_controller sb) = []"
  shows "\<exists>sa1 sb1 m. perform_call call sa = Inr sa1 \<and> handle_message sk' (concat (sv_sent sa1 sk)) sb = Inr ([], sb1) \<and>
           sv_controller sb1 = (sv_controller sb)\<lparr>ct_external := [m]\<rparr> \<and> arrives a call m"
proof -
  obtain h where h: "call_header a call = Inr h" "is_frame pa (h, buffer_data (call_payload call))"
      "arrives a call (incoming pa (h, buffer_data (call_payload call)))"
    using call_frame [OF call(1,2) sb(3,4)] by blast
  let ?f = "(h, buffer_data (call_payload call))"
  let ?sa1 = "sock_send sk (buffer_data (call_payload call)) (sock_send sk h sa)"
  have sent: "perform_call call sa = Inr ?sa1"
    using perform_call_submits [OF call(1)] sa(1,2) call(3) h(1) by (simp add: submit_message_def)
  have bytes: "concat (sv_sent ?sa1 sk) = byte_stream [?f]" using sa(3) by simp
  have fs: "list_all (is_frame pa) [?f]" using h(2) by simp
  from handle_message_boundary [OF sb(1,2,6,5) fs, of "byte_stream [?f]" "[]"] obtain cn' where
    "handle_message sk' (byte_stream [?f]) sb = Inr ([], delivered a pa cn' [?f] sb)" by auto
  then have "handle_message sk' (concat (sv_sent ?sa1 sk)) sb = Inr ([], delivered a pa cn' [?f] sb)" unfolding bytes .
  moreover have "sv_controller (delivered a pa cn' [?f] sb) = (sv_controller sb)\<lparr>ct_external := [incoming pa ?f]\<rparr>"
    using sb(7) by (simp add: delivered_def deliver_def set_connection_def)
  ultimately show ?thesis using sent h(3) by blast
qed

text \<open>A worker that waits for a key, and nobody else does, is found for the source it waits for.\<close>

lemma find_get_last:
  assumes "fst (find_get k a ps) = None" and "src = a \<or> src = ANY_PROCESS"
  shows "find_get k a (insert_get k src w ps) = (Some w, ps)"
  using assms by (induction ps) (auto simp: insert_get_def get_matches_def split: prod.splits if_splits)

text \<open>The request of a get, which does not depend on the reply, and what the call makes of the reply.\<close>

lemma get_i32_zeros: "off + 4 \<le> n \<Longrightarrow> get_i32 (replicate n NUL) off = 0"
  by (simp add: get_i32_def peek_def numeral_eq_Suc)

lemma get_request_framed:
  assumes "rt_write st = Some chw" and "ch_msg_size chw = ms" and "IPC_BUF_SIZE \<le> ms" and "name_ok src" and "name_ok key"
  shows "\<exists>g h q req. and_then (set_gr_process_id src GetRequest) (set_gr_name key) = Inr g \<and> framed ms h [] req \<and>
           parse_message h = Inr (GetRequestV q) \<and> gr_process_id q = src \<and> gr_name q = key \<and> \<not> gr_state q \<and>
           gr_process_id g = src \<and> gr_name g = key \<and> 0 \<le> sint (gr_data_len g) \<and>
           (\<forall>Q. invoker_put (gr_data g) None 0 (st\<lparr>rt_queue := Q\<rparr>) = returns (Inr (st\<lparr>rt_queue := Q, rt_sent := rt_sent st @ req\<rparr>)))"
proof -
  obtain g where g: "and_then (set_gr_process_id src GetRequest) (set_gr_name key) = Inr g" "length (gr_data g) = IPC_BUF_SIZE"
      "gr_process_id g = src" "gr_name g = key" "0 \<le> sint (gr_data_len g)"
      "\<exists>q. parse_message (set_ipc_total_length 0 (gr_data g)) = Inr (GetRequestV q) \<and> gr_process_id q = src \<and> gr_name q = key \<and> \<not> gr_state q"
    using assms(4,5) by (simp add: name_ok_def ipc_simps parse_message_def get_i32_zeros)
  have sz: "i32_of_size (length ([] :: bytes)) = 0" by (simp add: i32_of_size_def)
  obtain cs where cs: "ipc_send_accessor ms (gr_data g) \<lparr>acc_ptr = Some [], acc_len = length []\<rparr> =
      Some (set_ipc_total_length 0 (gr_data g), cs)" "framed ms (set_ipc_total_length 0 (gr_data g)) [] cs"
    using accessor_send_framed [OF assms(3) g(2), of "[]"] sz by auto
  then have "invoker_put (gr_data g) None 0 (st\<lparr>rt_queue := Q\<rparr>) = returns (Inr (st\<lparr>rt_queue := Q, rt_sent := rt_sent st @ cs\<rparr>))" for Q
    using assms(1,2) by (simp add: invoker_put_def read_bytes_def invoker_send_def)
  with g cs(2) show ?thesis by blast
qed

lemma adopted_shows:
  assumes "wf_buffer b" and "adopt b st = (ob, st1)" and "add_user_buffer ob st1 = (v, st2)"
  shows "view_data v st2 = Inr (buffer_data b)" "rt_sent st2 = rt_sent st"
  using assms
  by (auto simp: adopt_def add_user_buffer_def owned_view_def owned_ptr_def view_data_def read_bytes_def block_content_def
      new_array_def buffer_data_def buffer_accessor_def accessor_data_def wf_buffer_def peek_def split: option.splits)

lemma get_returns:
  assumes st: "rt_read st = Some chr" "between_messages ms chr" "chan_wf chr" "rt_write st = Some chw" "ch_msg_size chw = ms" "IPC_BUF_SIZE \<le> ms"
    and names: "name_ok src" "name_ok key"
  shows "\<exists>h q req. framed ms h [] req \<and> parse_message h = Inr (GetRequestV q) \<and> gr_process_id q = src \<and> gr_name q = key \<and> \<not> gr_state q \<and>
           (\<forall>hdr m d cs. framed ms hdr d cs \<and> parse_message hdr = Inr (GetRequestV m) \<and> gr_name m = key \<and>
              (src = ANY \<or> gr_process_id m = src) \<longrightarrow>
              (\<exists>v st'. context_get src key (st\<lparr>rt_queue := cs\<rparr>) = returns (Inr (v, st')) \<and> rt_sent st' = rt_sent st @ req \<and>
                 view_data v st' = Inr d))"
proof -
  obtain g h q req where g: "and_then (set_gr_process_id src GetRequest) (set_gr_name key) = Inr g" "framed ms h [] req"
      "parse_message h = Inr (GetRequestV q)" "gr_process_id q = src" "gr_name q = key" "\<not> gr_state q"
      "gr_process_id g = src" "gr_name g = key" "0 \<le> sint (gr_data_len g)"
      "\<And>Q. invoker_put (gr_data g) None 0 (st\<lparr>rt_queue := Q\<rparr>) = returns (Inr (st\<lparr>rt_queue := Q, rt_sent := rt_sent st @ req\<rparr>))"
    using get_request_framed [OF st(4-6) names] by blast
  have "\<exists>v st'. context_get src key (st\<lparr>rt_queue := cs\<rparr>) = returns (Inr (v, st')) \<and> rt_sent st' = rt_sent st @ req \<and> view_data v st' = Inr d"
    if r: "framed ms hdr d cs" "parse_message hdr = Inr (GetRequestV m)" "gr_name m = key" "src = ANY \<or> gr_process_id m = src"
    for hdr m d cs
  proof -
    obtain ch' b where b: "receive chr cs = Inr (ch', [], True, b)" "ch_msg ch' = hdr" "buffer_data b = d" "wf_buffer b"
      using framed_received [OF r(1) st(2,6)] st(3) by blast
    define st1 where "st1 = st\<lparr>rt_queue := [], rt_sent := rt_sent st @ req, rt_read := Some ch'\<rparr>"
    have "invoker_request (gr_data g) (st\<lparr>rt_queue := cs\<rparr>) = returns (Inr (m, b, st1))"
      using g(10) [of cs] b(1,2) r(2) st(1) by (simp add: invoker_request_def invoker_get_def st1_def)
    moreover obtain ob st2 where a: "adopt b st1 = (ob, st2)" by fastforce
    moreover obtain v st3 where "add_user_buffer ob st2 = (v, st3)" by fastforce
    ultimately have "context_get src key (st\<lparr>rt_queue := cs\<rparr>) = returns (Inr (v, st3))" "view_data v st3 = Inr d" "rt_sent st3 = rt_sent st1"
      using g(1,7-9) r(3,4) adopted_shows [OF b(4)] b(3) by (auto simp: context_get_def)
    then show ?thesis by (auto simp: st1_def)
  qed
  with g(2-6) show ?thesis by blast
qed

text \<open>
  The controller of the second process. A message for a key that is free and that nobody waits for stays in
  the mailbox, from where the reader gets it; a reader that came first is sent it at once.
\<close>

lemma message_answers_reader:
  assumes c: "quiet c" "w < length (wp_workers (ct_workers c))"
    and free: "ms_msgs (ct_mailbox c) key = None" "fst (find_get key a (ct_pending c)) = None"
    and m: "arrives a (ServerPutMessage b key buf) m" "length (buffer_data buf) < 2 ^ 31"
    and names: "name_ok a" "name_ok key" "src = a \<or> src = ANY_PROCESS" "a \<noteq> SELF_PROCESS"
    and q: "parse_message h = Inr (GetRequestV q)" "gr_process_id q = src" "gr_name q = key" "\<not> gr_state q"
  shows "\<exists>c1 c2 hdr r. poll_iteration ser now [WakeUp] (c\<lparr>ct_external := [m]\<rparr>) = Inr c1 \<and>
           poll_iteration ser now' [WorkerMessage w h b'] c1 = Inr c2 \<and>
           fw_sent (wp_workers (ct_workers c1) ! w) = fw_sent (wp_workers (ct_workers c) ! w) \<and>
           fw_sent (wp_workers (ct_workers c2) ! w) = fw_sent (wp_workers (ct_workers c) ! w) @ [(hdr, buffer_data buf)] \<and>
           length hdr = IPC_BUF_SIZE \<and> set_ipc_total_length (i32_of_size (length (buffer_data buf))) hdr = hdr \<and>
           parse_message hdr = Inr (GetRequestV r) \<and> gr_name r = key \<and> gr_process_id r = src \<and>
           ms_msgs (ct_mailbox c2) = ms_msgs (ct_mailbox c) \<and> ct_pending c2 = ct_pending c"
    and "\<exists>c1 c2 hdr r. poll_iteration ser now' [WorkerMessage w h b'] c = Inr c1 \<and> ct_external c1 = [] \<and>
           poll_iteration ser now [WakeUp] (c1\<lparr>ct_external := [m]\<rparr>) = Inr c2 \<and>
           fw_sent (wp_workers (ct_workers c2) ! w) = fw_sent (wp_workers (ct_workers c) ! w) @ [(hdr, buffer_data buf)] \<and>
           length hdr = IPC_BUF_SIZE \<and> set_ipc_total_length (i32_of_size (length (buffer_data buf))) hdr = hdr \<and>
           parse_message hdr = Inr (GetRequestV r) \<and> gr_name r = key \<and> gr_process_id r = a \<and>
           ms_msgs (ct_mailbox c2) = ms_msgs (ct_mailbox c) \<and> ct_pending c2 = ct_pending c"
proof -
  let ?n = "i32_of_size (length (buffer_data buf))"
  have c': "wq_inv (ct_queue c)" "wq_pending (ct_queue c) = []" "ct_updates c = []" "ct_external c = []"
    using c(1) by (simp_all add: quiet_def controller_inv_def)
  obtain u where u: "parse (em_msg m) = Inr (PutMessagePtr u)" "put_name u = key" "put_process_id u = a"
      "buffer_data (em_payload m) = buffer_data buf"
    using m(1) by auto
  have src: "src \<noteq> SELF_PROCESS" "no_nul src" "length src \<le> 32"
    using names by (auto simp: name_ok_def ANY_PROCESS_def SELF_PROCESS_def no_nul_def)
  have reply: "\<exists>hdr r. get_reply p key = Inr hdr \<and> length hdr = IPC_BUF_SIZE \<and>
      parse_message (set_ipc_total_length ?n hdr) = Inr (GetRequestV r) \<and> gr_name r = key \<and> gr_process_id r = p"
    if "no_nul p" "length p \<le> 32" for p
    using that names(2) by (simp add: name_ok_def get_reply_def ipc_simps parse_message_def)
  have sent: "length (set_ipc_total_length ?n hdr) = IPC_BUF_SIZE"
      "set_ipc_total_length ?n (set_ipc_total_length ?n hdr) = set_ipc_total_length ?n hdr" if "length hdr = IPC_BUF_SIZE" for hdr
    using that by (simp_all add: total_length_again) (simp add: ipc_simps)
  have none: "find_get key a (ct_pending c) = (None, ct_pending c)"
    using free(2) pend.serve_get_none_same [OF free(2)] by (metis prod.collapse)
  show "\<exists>c1 c2 hdr r. poll_iteration ser now [WakeUp] (c\<lparr>ct_external := [m]\<rparr>) = Inr c1 \<and>
           poll_iteration ser now' [WorkerMessage w h b'] c1 = Inr c2 \<and>
           fw_sent (wp_workers (ct_workers c1) ! w) = fw_sent (wp_workers (ct_workers c) ! w) \<and>
           fw_sent (wp_workers (ct_workers c2) ! w) = fw_sent (wp_workers (ct_workers c) ! w) @ [(hdr, buffer_data buf)] \<and>
           length hdr = IPC_BUF_SIZE \<and> set_ipc_total_length ?n hdr = hdr \<and>
           parse_message hdr = Inr (GetRequestV r) \<and> gr_name r = key \<and> gr_process_id r = src \<and>
           ms_msgs (ct_mailbox c2) = ms_msgs (ct_mailbox c) \<and> ct_pending c2 = ct_pending c"
  proof -
    let ?mb = "snd (mailbox_put key a (em_payload m) (ct_mailbox c))"
    define c1 where "c1 = c\<lparr>ct_external := [], ct_pending := ct_pending c, ct_mailbox := ?mb\<rparr>"
    have p1: "process_external_message now m (c\<lparr>ct_external := []\<rparr>) = Inr c1"
      using u none by (simp add: process_external_message_def external_put_def c1_def)
    then have 1: "poll_iteration ser now [WakeUp] (c\<lparr>ct_external := [m]\<rparr>) = Inr c1"
      using c' quiet_schedule [of c1] by (simp add: poll_iteration_def c1_def)
    obtain mb where mb: "try_get key src ?mb = (Some (em_payload m), mb)" "ms_msgs mb = ms_msgs (ct_mailbox c)"
      using mbox.get_after_put [OF free(1) names(3), of "em_payload m"] by (metis prod.collapse)
    obtain hdr r where h: "get_reply src key = Inr hdr" "length hdr = IPC_BUF_SIZE"
        "parse_message (set_ipc_total_length ?n hdr) = Inr (GetRequestV r)" "gr_name r = key" "gr_process_id r = src"
      using reply [OF src(2,3)] by blast
    define c2 where "c2 = send_worker w hdr (buffer_data buf) (c1\<lparr>ct_mailbox := mb\<rparr>)"
    have "process_get w q c1 = Inr c2"
      using q src(1) mb(1) h(1) u(4) by (simp add: process_get_def Let_def c1_def c2_def)
    then have "process_internal_message ser now' w h b' c1 = Inr c2" using q(1) by (simp add: process_internal_message_def)
    moreover have "quiet c1" using c(1) c' by (auto simp: quiet_def c1_def controller_inv_def)
    ultimately have 2: "poll_iteration ser now' [WorkerMessage w h b'] c1 = Inr c2"
      by (intro poll_message) (simp_all add: c2_def)
    have w1: "fw_sent (wp_workers (ct_workers c1) ! w) = fw_sent (wp_workers (ct_workers c) ! w)" by (simp add: c1_def)
    have w2: "fw_sent (wp_workers (ct_workers c2) ! w) =
        fw_sent (wp_workers (ct_workers c) ! w) @ [(set_ipc_total_length ?n hdr, buffer_data buf)]"
      using c(2) by (simp add: c2_def c1_def send_worker_nth worker_send_def)
    have "ms_msgs (ct_mailbox c2) = ms_msgs (ct_mailbox c)" "ct_pending c2 = ct_pending c"
      by (simp_all add: c2_def mb(2)) (simp_all add: c1_def)
    with 1 2 w1 w2 sent [OF h(2)] h(3-5) show ?thesis by blast
  qed
  show "\<exists>c1 c2 hdr r. poll_iteration ser now' [WorkerMessage w h b'] c = Inr c1 \<and> ct_external c1 = [] \<and>
           poll_iteration ser now [WakeUp] (c1\<lparr>ct_external := [m]\<rparr>) = Inr c2 \<and>
           fw_sent (wp_workers (ct_workers c2) ! w) = fw_sent (wp_workers (ct_workers c) ! w) @ [(hdr, buffer_data buf)] \<and>
           length hdr = IPC_BUF_SIZE \<and> set_ipc_total_length ?n hdr = hdr \<and>
           parse_message hdr = Inr (GetRequestV r) \<and> gr_name r = key \<and> gr_process_id r = a \<and>
           ms_msgs (ct_mailbox c2) = ms_msgs (ct_mailbox c) \<and> ct_pending c2 = ct_pending c"
  proof -
    define c1 where "c1 = c\<lparr>ct_mailbox := ct_mailbox c, ct_pending := insert_get key src w (ct_pending c)\<rparr>"
    have "process_get w q c = Inr c1"
      using q src(1) free(1) by (simp add: process_get_def Let_def try_get_def c1_def)
    then have "process_internal_message ser now' w h b' c = Inr c1" using q(1) by (simp add: process_internal_message_def)
    then have 1: "poll_iteration ser now' [WorkerMessage w h b'] c = Inr c1" "ct_external c1 = []"
      using c(1) c' by (auto intro!: poll_message simp: c1_def)
    obtain hdr r where h: "get_reply a key = Inr hdr" "length hdr = IPC_BUF_SIZE"
        "parse_message (set_ipc_total_length ?n hdr) = Inr (GetRequestV r)" "gr_name r = key" "gr_process_id r = a"
      using reply [of a] names(1) by (auto simp: name_ok_def)
    define c2 where "c2 = send_worker w hdr (buffer_data buf) (c1\<lparr>ct_external := [], ct_pending := ct_pending c\<rparr>)"
    have "process_external_message now m (c1\<lparr>ct_external := []\<rparr>) = Inr c2"
      using u find_get_last [OF free(2) names(3), of w] h(1)
      by (simp add: process_external_message_def external_put_def c1_def c2_def)
    then have 2: "poll_iteration ser now [WakeUp] (c1\<lparr>ct_external := [m]\<rparr>) = Inr c2"
      using c' quiet_schedule [of c2] by (simp add: poll_iteration_def c2_def c1_def)
    have "fw_sent (wp_workers (ct_workers c2) ! w) =
        fw_sent (wp_workers (ct_workers c) ! w) @ [(set_ipc_total_length ?n hdr, buffer_data buf)]"
      using c(2) by (simp add: c2_def c1_def send_worker_nth worker_send_def)
    moreover have "ms_msgs (ct_mailbox c2) = ms_msgs (ct_mailbox c)" "ct_pending c2 = ct_pending c"
      by (simp_all add: c2_def c1_def)
    ultimately show ?thesis using 1 2 sent [OF h(2)] h(3-5) by blast
  qed
qed

section \<open>The reader\<close>

text \<open>The state of the process that is sent to: it knows the sender, has nothing to do, and its worker \<open>w\<close> can read.\<close>

definition peer_ready :: "nat \<Rightarrow> string \<Rightarrow> nat \<Rightarrow> string \<Rightarrow> worker_id \<Rightarrow> ipc_channel \<Rightarrow> runtime \<Rightarrow> tcp_server \<Rightarrow> bool" where
  "peer_ready ms a sk key w ch st sv \<longleftrightarrow>
     sv_context sv sk = Some a \<and> sv_buffers sv = [] \<and>
     (\<exists>pa. sv_connections sv a = Some pa \<and> cn_type pa = PROCESS \<and> cn_id pa = Some a \<and> cn_bytes_to_read pa = 0) \<and>
     quiet (sv_controller sv) \<and> w < length (wp_workers (ct_workers (sv_controller sv))) \<and>
     ms_msgs (ct_mailbox (sv_controller sv)) key = None \<and> fst (find_get key a (ct_pending (sv_controller sv))) = None \<and>
     between_messages ms ch \<and> (\<exists>chr. rt_read st = Some chr \<and> between_messages ms chr \<and> chan_wf chr) \<and>
     (\<exists>chw. rt_write st = Some chw \<and> ch_msg_size chw = ms)"

text \<open>The bytes of a message arrive, and then a function asks for it; or a function asks, and then they arrive.\<close>

definition message_then_get ::
    "((string \<times> nat) list \<Rightarrow> bytes) \<Rightarrow> nat \<Rightarrow> nat \<Rightarrow> nat \<Rightarrow> bytes \<Rightarrow> nat \<Rightarrow> string \<Rightarrow> string \<Rightarrow> worker_id \<Rightarrow> ipc_channel \<Rightarrow> runtime \<Rightarrow>
     tcp_server \<Rightarrow> controller \<Rightarrow> bytes \<Rightarrow> bool" where
  "message_then_get ser now now' ms wire sk src key w ch st sv c2 d \<longleftrightarrow>
     (\<exists>req sv1 c1. handle_message sk wire sv = Inr ([], sv1) \<and> poll_iteration ser now [WakeUp] (sv_controller sv1) = Inr c1 \<and>
        get_request_run ser now' w ch req c1 c2 \<and> get_answered ms src key st req w (sv_controller sv) c2 d)"

definition get_then_message ::
    "((string \<times> nat) list \<Rightarrow> bytes) \<Rightarrow> nat \<Rightarrow> nat \<Rightarrow> nat \<Rightarrow> bytes \<Rightarrow> nat \<Rightarrow> string \<Rightarrow> string \<Rightarrow> worker_id \<Rightarrow> ipc_channel \<Rightarrow> runtime \<Rightarrow>
     tcp_server \<Rightarrow> controller \<Rightarrow> bytes \<Rightarrow> bool" where
  "get_then_message ser now now' ms wire sk src key w ch st sv c2 d \<longleftrightarrow>
     (\<exists>req c1 sv1. get_request_run ser now' w ch req (sv_controller sv) c1 \<and>
        handle_message sk wire (sv\<lparr>sv_controller := c1\<rparr>) = Inr ([], sv1) \<and>
        poll_iteration ser now [WakeUp] (sv_controller sv1) = Inr c2 \<and> get_answered ms src key st req w (sv_controller sv) c2 d)"

text \<open>The mailbox and the waiting requests are as they were.\<close>

definition restored :: "controller \<Rightarrow> controller \<Rightarrow> bool" where
  "restored c c2 \<longleftrightarrow> ms_msgs (ct_mailbox c2) = ms_msgs (ct_mailbox c) \<and> ct_pending c2 = ct_pending c"

text \<open>A reader's request reaches its controller, and any reply of the controller that fits it answers it.\<close>

lemma reader_asks:
  assumes "peer_ready ms a sk key w ch st sv" and "IPC_BUF_SIZE \<le> ms" and "name_ok src" and "name_ok key"
  obtains h q req ch' b' where "receive ch req = Inr (ch', [], True, b')" "ch_msg ch' = h" "parse_message h = Inr (GetRequestV q)"
    "gr_process_id q = src" "gr_name q = key" "\<not> gr_state q"
    "\<And>c2 hdr m d. fw_sent (wp_workers (ct_workers c2) ! w) = fw_sent (wp_workers (ct_workers (sv_controller sv)) ! w) @ [(hdr, d)] \<Longrightarrow>
       length hdr = IPC_BUF_SIZE \<Longrightarrow> set_ipc_total_length (i32_of_size (length d)) hdr = hdr \<Longrightarrow> length d < 2 ^ 31 \<Longrightarrow>
       parse_message hdr = Inr (GetRequestV m) \<Longrightarrow> gr_name m = key \<Longrightarrow> src = ANY \<or> gr_process_id m = src \<Longrightarrow>
       get_answered ms src key st req w (sv_controller sv) c2 d"
proof -
  from assms(1) obtain chr chw where r: "between_messages ms ch" "rt_read st = Some chr" "between_messages ms chr" "chan_wf chr"
      "rt_write st = Some chw" "ch_msg_size chw = ms" by (auto simp: peer_ready_def)
  obtain h q req where req: "framed ms h [] req" "parse_message h = Inr (GetRequestV q)" "gr_process_id q = src" "gr_name q = key" "\<not> gr_state q"
      and call: "\<And>hdr m e cs. framed ms hdr e cs \<Longrightarrow> parse_message hdr = Inr (GetRequestV m) \<Longrightarrow> gr_name m = key \<Longrightarrow>
        src = ANY \<or> gr_process_id m = src \<Longrightarrow> \<exists>u t. context_get src key (st\<lparr>rt_queue := cs\<rparr>) = returns (Inr (u, t)) \<and>
          rt_sent t = rt_sent st @ req \<and> view_data u t = Inr e"
    using get_returns [OF r(2-6) assms(2-4)] by blast
  obtain ch' b' where asked: "receive ch req = Inr (ch', [], True, b')" "ch_msg ch' = h"
    using framed_received [OF req(1) r(1) assms(2)] by blast
  have "get_answered ms src key st req w (sv_controller sv) c2 d"
    if hdr: "fw_sent (wp_workers (ct_workers c2) ! w) = fw_sent (wp_workers (ct_workers (sv_controller sv)) ! w) @ [(hdr, d)]"
      "length hdr = IPC_BUF_SIZE" "set_ipc_total_length (i32_of_size (length d)) hdr = hdr" "length d < 2 ^ 31"
      "parse_message hdr = Inr (GetRequestV m)" "gr_name m = key" "src = ANY \<or> gr_process_id m = src" for c2 hdr m d
  proof -
    obtain cs where cs: "ipc_send_accessor ms hdr \<lparr>acc_ptr = Some d, acc_len = length d\<rparr> = Some (hdr, cs)" "framed ms hdr d cs"
      using accessor_send_framed [OF assms(2) hdr(2,4)] hdr(3) by auto
    from call [OF cs(2) hdr(5-7)] hdr(1) cs(1) show ?thesis unfolding get_answered_def by blast
  qed
  with asked req(2-5) that show ?thesis by blast
qed

lemma message_served:
  assumes reader: "peer_ready ms a sk' key w ch st sb" "IPC_BUF_SIZE \<le> ms"
    and names: "name_ok a" "name_ok key" "a \<noteq> SELF_PROCESS" "src = a \<or> src = ANY_PROCESS"
    and buf: "call_ok b (ServerPutMessage b key buf)" "length (buffer_data buf) < 2 ^ 31"
    and sa: "ct_process_id (sv_controller sa) = a" "sv_connections sa b = Some pb" "cn_conn pb = Some sk" "sv_sent sa sk = []"
  shows "\<exists>sa'. perform_call (ServerPutMessage b key buf) sa = Inr sa' \<and>
     (\<exists>c2. message_then_get ser now now' ms (concat (sv_sent sa' sk)) sk' src key w ch st sb c2 (buffer_data buf) \<and> restored (sv_controller sb) c2) \<and>
     (\<exists>c2. get_then_message ser now now' ms (concat (sv_sent sa' sk)) sk' src key w ch st sb c2 (buffer_data buf) \<and> restored (sv_controller sb) c2)"
proof -
  let ?c = "sv_controller sb" and ?call = "ServerPutMessage b key buf"
  from reader(1) obtain pa where r: "sv_context sb sk' = Some a" "sv_connections sb a = Some pa" "sv_buffers sb = []"
      "cn_type pa = PROCESS" "cn_id pa = Some a" "cn_bytes_to_read pa = 0" "quiet ?c" "w < length (wp_workers (ct_workers ?c))"
      "ms_msgs (ct_mailbox ?c) key = None" "fst (find_get key a (ct_pending ?c)) = None"
    by (auto simp: peer_ready_def)
  have src: "name_ok src" using names(1,4) by (auto simp: name_ok_def ANY_PROCESS_def no_nul_def)
  obtain h q req ch' b' where ask: "receive ch req = Inr (ch', [], True, b')" "ch_msg ch' = h" "parse_message h = Inr (GetRequestV q)"
      "gr_process_id q = src" "gr_name q = key" "\<not> gr_state q"
      and answered: "\<And>c2 hdr m. fw_sent (wp_workers (ct_workers c2) ! w) = fw_sent (wp_workers (ct_workers ?c) ! w) @ [(hdr, buffer_data buf)] \<Longrightarrow>
       length hdr = IPC_BUF_SIZE \<Longrightarrow> set_ipc_total_length (i32_of_size (length (buffer_data buf))) hdr = hdr \<Longrightarrow>
       parse_message hdr = Inr (GetRequestV m) \<Longrightarrow> gr_name m = key \<Longrightarrow> src = ANY \<or> gr_process_id m = src \<Longrightarrow>
       get_answered ms src key st req w ?c c2 (buffer_data buf)"
    using reader_asks [OF reader src names(2)] buf(2) by metis
  have run: "get_request_run ser now' w ch req c1 c2" if "poll_iteration ser now' [WorkerMessage w h b'] c1 = Inr c2" for c1 c2
    unfolding get_request_run_def using ask(1,2) that by blast
  note travels = put_travels [OF buf(1) names(1) sa _ _ r(4-6)]
  note serves = message_answers_reader [OF r(7-10) _ buf(2) names(1,2,4,3) ask(3-6)]
  have "ct_external ?c = []" using r(7) by (simp add: quiet_def)
  from travels [OF r(1-3) this] obtain sa' sb1 m where t: "perform_call ?call sa = Inr sa'"
      "handle_message sk' (concat (sv_sent sa' sk)) sb = Inr ([], sb1)" "sv_controller sb1 = ?c\<lparr>ct_external := [m]\<rparr>" "arrives a ?call m"
    by blast
  have any: "src = ANY \<or> a = src" using names(4) by (auto simp: ANY_def ANY_PROCESS_def)
  obtain c1 c2 hdr m1 where c: "poll_iteration ser now [WakeUp] (?c\<lparr>ct_external := [m]\<rparr>) = Inr c1"
      "poll_iteration ser now' [WorkerMessage w h b'] c1 = Inr c2"
      "fw_sent (wp_workers (ct_workers c2) ! w) = fw_sent (wp_workers (ct_workers ?c) ! w) @ [(hdr, buffer_data buf)]" "length hdr = IPC_BUF_SIZE"
      "set_ipc_total_length (i32_of_size (length (buffer_data buf))) hdr = hdr" "parse_message hdr = Inr (GetRequestV m1)"
      "gr_name m1 = key" "gr_process_id m1 = src" "ms_msgs (ct_mailbox c2) = ms_msgs (ct_mailbox ?c)" "ct_pending c2 = ct_pending ?c"
    using serves(1) [OF t(4), of ser now now' b'] by blast
  have "get_answered ms src key st req w ?c c2 (buffer_data buf)" using answered [OF c(3-7)] c(8) by blast
  then have 1: "message_then_get ser now now' ms (concat (sv_sent sa' sk)) sk' src key w ch st sb c2 (buffer_data buf) \<and> restored ?c c2"
    unfolding message_then_get_def restored_def using t(2,3) c(1,9,10) run [OF c(2)] by metis
  obtain c3 where c3: "poll_iteration ser now' [WorkerMessage w h b'] ?c = Inr c3" "ct_external c3 = []"
    using serves(2) [OF t(4), of ser now' b' now] by blast
  let ?sb = "sb\<lparr>sv_controller := c3\<rparr>"
  have "sv_context ?sb sk' = Some a" "sv_connections ?sb a = Some pa" "sv_buffers ?sb = []" "ct_external (sv_controller ?sb) = []"
    using r(1-3) c3(2) by simp_all
  from travels [OF this] t(1) obtain sb2 m2 where s: "handle_message sk' (concat (sv_sent sa' sk)) ?sb = Inr ([], sb2)"
      "sv_controller sb2 = c3\<lparr>ct_external := [m2]\<rparr>" "arrives a ?call m2"
    by auto
  obtain c4 hdr' m3 where d: "poll_iteration ser now [WakeUp] (c3\<lparr>ct_external := [m2]\<rparr>) = Inr c4"
      "fw_sent (wp_workers (ct_workers c4) ! w) = fw_sent (wp_workers (ct_workers ?c) ! w) @ [(hdr', buffer_data buf)]" "length hdr' = IPC_BUF_SIZE"
      "set_ipc_total_length (i32_of_size (length (buffer_data buf))) hdr' = hdr'" "parse_message hdr' = Inr (GetRequestV m3)"
      "gr_name m3 = key" "gr_process_id m3 = a" "ms_msgs (ct_mailbox c4) = ms_msgs (ct_mailbox ?c)" "ct_pending c4 = ct_pending ?c"
    using serves(2) [OF s(3), of ser now' b' now] c3(1) by auto
  have "get_answered ms src key st req w ?c c4 (buffer_data buf)" using answered [OF d(2-6)] d(7) any by blast
  then have "get_then_message ser now now' ms (concat (sv_sent sa' sk)) sk' src key w ch st sb c4 (buffer_data buf) \<and> restored ?c c4"
    unfolding get_then_message_def restored_def using s(1,2) d(1,8,9) run [OF c3(1)] by metis
  with 1 show ?thesis using t(1) by blast
qed

section \<open>Properties\<close>

text \<open>
  C3. A message reaches the function it is for. A function of a process a puts a buffer it holds
  for a connected process b, and a function of b gets that key from a or from anyone. The
  first controller makes one call of its server, the bytes that this sends are one message
  for the second, and the function of b returns with a view of exactly the bytes of the buffer,
  whether the message arrives before the function asks for it or while it waits; afterwards the mailbox and
  the waiting requests of b are what they were.
\<close>

theorem peer_message_end_to_end:
  assumes sender: "reachable runtime_initial runtime_step st" "rt_write st = Some chw" "ch_msg_size chw = ms" "IPC_BUF_SIZE \<le> ms"
      "between_messages ms cha" "chan_wf cha" "quiet (sv_controller sa)" "ct_process_id (sv_controller sa) = a"
    and held: "ob \<in> set (cx_user_buffers st)" "vw_ptr v = owned_ptr ob" "vw_len v \<le> ow_size ob" "vw_len v < 2 ^ 31"
    and names: "name_ok a" "name_ok b" "name_ok key" "a \<noteq> b" "a \<noteq> SELF_PROCESS" "b \<noteq> SELF_PROCESS" "src = a \<or> src = ANY_PROCESS"
    and peer: "sv_connections sa b = Some pb" "cn_conn pb = Some sk" "sv_sent sa sk = []"
    and reader: "peer_ready ms a sk' key w chb st' sb"
  shows "\<exists>d call ca sa'.
     put_run ser now b key v st w' cha (sv_controller sa) d call ca \<and>
     perform_call call (sa\<lparr>sv_controller := ca\<rparr>) = Inr sa' \<and>
     (\<exists>c2. message_then_get ser now now' ms (concat (sv_sent sa' sk)) sk' src key w chb st' sb c2 d \<and> restored (sv_controller sb) c2) \<and>
     (\<exists>c2. get_then_message ser now now' ms (concat (sv_sent sa' sk)) sk' src key w chb st' sb c2 d \<and> restored (sv_controller sb) c2)"
proof -
  let ?ca = "sv_controller sa"
  have inv: "runtime_inv st" using sender(1) by (rule invoker_run.reachable_good)
  have b: "b \<noteq> ct_process_id ?ca" using names(4) sender(8) by blast
  obtain d buf where put: "put_run ser now b key v st w' cha ?ca d (ServerPutMessage b key buf) (server_call (ServerPutMessage b key buf) ?ca)"
      "buffer_data buf = d" "call_ok b (ServerPutMessage b key buf)" "length d < 2 ^ 31"
    using put_leaves [OF inv sender(2-4) held names(3,2,6) b sender(7,5,6)] by blast
  let ?sa = "sa\<lparr>sv_controller := server_call (ServerPutMessage b key buf) ?ca\<rparr>"
  have "ct_process_id (sv_controller ?sa) = a" "sv_connections ?sa b = Some pb" "sv_sent ?sa sk = []"
    using peer sender(8) by (simp_all add: server_call_def)
  from message_served [OF reader sender(4) names(1,3,5,7) put(3) _ this(1,2) peer(2) this(3)] put(1,2,4)
  show ?thesis by blast
qed

text \<open>A process \<open>a\<close> and a process \<open>proc\<close> that are connected.\<close>

definition example_sender_node :: tcp_server where
  "example_sender_node =
     set_connection ''proc'' (Connection CONNECTED PROCESS (Some ''proc'') (Some 4) ''10.0.0.2'' 8000)
       (TCPServer (example_controller\<lparr>ct_process_id := ''a''\<rparr>))"

definition example_reader_node :: tcp_server where
  "example_reader_node =
     (set_connection ''a'' (Connection CONNECTED PROCESS (Some ''a'') (Some 6) ''10.0.0.1'' 8000)
       (TCPServer example_controller))\<lparr>sv_context := [6 \<mapsto> ''a'']\<rparr>"

lemma example_queues_opened:
  "rt_read example_invoker = Some (opened ''/w_write'' 1024 False)" "rt_write example_invoker = Some (opened ''/w_read'' 1024 False)"
proof -
  obtain st where st: "Invoker ''p'' POSIX_MQ ''/w'' example_queues = Inr (st, example_queues)"
      "rt_read st = Some (opened ''/w_write'' 1024 False)" "rt_write st = Some (opened ''/w_read'' 1024 False)"
    using invoker_opens [of example_queues "''/w''" 1024 "[]" "[]" "''p''"] by (auto simp: example_queues_def)
  then show "rt_read example_invoker = Some (opened ''/w_write'' 1024 False)" "rt_write example_invoker = Some (opened ''/w_read'' 1024 False)"
    by (simp_all add: example_invoker_def create_context_def new_array_def Let_def)
qed

lemma opened_wf: "chan_wf (opened q sz create)"
  by (simp add: chan_wf_def opened_def BufferQueue_def list_all_iff)

lemma example_reader_ready:
  "peer_ready 1024 ''a'' 6 ''key'' 1 example_receiver example_invoker example_reader_node"
  using example_controller_inv
  by (simp add: peer_ready_def example_reader_node_def TCPServer_def set_connection_def Connection_def quiet_def example_queues_opened
      example_controller_def WorkQueue_def MessageStore_def PendingMessages_def example_receiver_def opened_between_messages opened_wf)
    (simp add: opened_def)

theorem peer_message_end_to_end_witness:
  "\<exists>v st d call ca sa'. get_buffer 4 example_invoker = (v, st) \<and>
     put_run (\<lambda>_. []) 3 ''proc'' ''key'' (v\<lparr>vw_len := 4\<rparr>) st 0 example_receiver (sv_controller example_sender_node) d call ca \<and>
     perform_call call (example_sender_node\<lparr>sv_controller := ca\<rparr>) = Inr sa' \<and>
     (\<exists>c2. message_then_get (\<lambda>_. []) 3 5 1024 (concat (sv_sent sa' 4)) 6 ''a'' ''key'' 1 example_receiver example_invoker
        example_reader_node c2 d \<and> restored (sv_controller example_reader_node) c2) \<and>
     (\<exists>c2. get_then_message (\<lambda>_. []) 3 5 1024 (concat (sv_sent sa' 4)) 6 ''a'' ''key'' 1 example_receiver example_invoker
        example_reader_node c2 d \<and> restored (sv_controller example_reader_node) c2)"
proof -
  obtain v st where b: "get_buffer 4 example_invoker = (v, st)" by fastforce
  let ?ob = "\<lparr>ow_ptr = Some (rt_next example_invoker), ow_size = 4, ow_len = 0\<rparr>"
  have 1: "reachable runtime_initial runtime_step st"
    using reachable_step [OF example_invoker_reachable step_user [OF step_get_buffer [OF b]]] .
  have 2: "rt_write st = Some (opened ''/w_read'' 1024 False)" "ch_msg_size (opened ''/w_read'' 1024 False) = 1024"
      "?ob \<in> set (cx_user_buffers st)" "vw_ptr (v\<lparr>vw_len := 4\<rparr>) = owned_ptr ?ob"
    using b example_queues_opened by (auto simp: get_buffer_def new_array_def add_user_buffer_def owned_view_def opened_def)
  have 3: "quiet (sv_controller example_sender_node)" "ct_process_id (sv_controller example_sender_node) = ''a''"
    using example_controller_inv
    by (simp_all add: example_sender_node_def TCPServer_def set_connection_def quiet_def controller_inv_def example_controller_def WorkQueue_def)
  have 4: "sv_connections example_sender_node ''proc'' = Some (Connection CONNECTED PROCESS (Some ''proc'') (Some 4) ''10.0.0.2'' 8000)"
      "cn_conn (Connection CONNECTED PROCESS (Some ''proc'') (Some 4) ''10.0.0.2'' 8000) = Some 4" "sv_sent example_sender_node 4 = []"
    by (simp_all add: example_sender_node_def TCPServer_def set_connection_def Connection_def)
  have 5: "between_messages 1024 example_receiver" "chan_wf example_receiver"
    by (simp_all add: example_receiver_def opened_between_messages opened_wf)
  show ?thesis
    using peer_message_end_to_end [OF 1 2(1,2) _ 5 3 2(3,4) _ _ _ _ _ _ _ _ _ 4 example_reader_ready, where src = "''a''"] b
    by (simp add: name_ok_def no_nul_def SELF_PROCESS_def)
qed

end
