(* ===== verification/Process_Lifecycle.thy ===== *)
theory Process_Lifecycle
  imports Invoker_Main Peers
begin

text \<open>
  A process from its start to its end: the children that the controller forks
  (\<^verbatim>\<open>src/process/controller/src/workers.cpp\<close>), the descriptors it waits on, its poll loop over what \<^verbatim>\<open>epoll_wait\<close>
  returns (\<^verbatim>\<open>controller.cpp\<close>), and its end. The answers of the operating system are arguments; what a child does is
  the main function of theory \<^verbatim>\<open>Invoker_Main\<close>.
\<close>

section \<open>Children\<close>

type_synonym pid = int32

text \<open>The answer of \<^verbatim>\<open>fork\<close> in the parent, and the commands of the children so far.\<close>

definition fork_worker :: "int32 \<Rightarrow> string list \<Rightarrow> (pid \<times> string list) list \<Rightarrow> (pid \<times> (pid \<times> string list) list) result" where
  "fork_worker mypid args children =
     (if sint mypid < 0 then Inl PraaSException else Inr (mypid, children @ [(mypid, args)]))"

text \<open>The child runs the command; when \<^verbatim>\<open>exec\<close> returns, it ends.\<close>

definition child_exec :: "int32 \<Rightarrow> unit result" where
  "child_exec ret = (if ret = - 1 then Inl ProcessExit else Inr ())"

fun start_workers ::
    "int32 list \<Rightarrow> string list list \<Rightarrow> (pid \<times> string list) list \<Rightarrow> (pid list \<times> (pid \<times> string list) list) result" where
  "start_workers (r # rs) (cmd # cmds) children =
     and_then (fork_worker r cmd children) (\<lambda>(p, children1).
     and_then (start_workers rs cmds children1) (\<lambda>(ps, children2). Inr (p # ps, children2)))"
| "start_workers _ _ children = Inr ([], children)"

section \<open>Descriptors\<close>

text \<open>What a descriptor of the epoll set stands for: the controller itself, or one of its workers.\<close>

datatype source = WakeSource | WorkerSource worker_id

type_synonym epoll_set = "int32 \<Rightarrow> source option"

text \<open>\<^verbatim>\<open>epoll_ctl\<close> refuses a descriptor that is there already, and others for reasons of its own.\<close>

definition epoll_add :: "(int32 \<Rightarrow> bool) \<Rightarrow> int32 \<Rightarrow> source \<Rightarrow> epoll_set \<Rightarrow> bool \<times> epoll_set" where
  "epoll_add allows fd data s = (if allows fd \<and> s fd = None then (True, s(fd \<mapsto> data)) else (False, s))"

fun epoll_add_workers :: "(int32 \<Rightarrow> bool) \<Rightarrow> worker_id \<Rightarrow> int32 list \<Rightarrow> epoll_set \<Rightarrow> epoll_set result" where
  "epoll_add_workers allows w [] s = Inr s"
| "epoll_add_workers allows w (fd # fds) s =
     (case epoll_add allows fd (WorkerSource w) s of
        (True, s1) \<Rightarrow> epoll_add_workers allows (Suc w) fds s1
      | (False, s1) \<Rightarrow> Inl ProcessExit)"

definition controller_epoll :: "int32 \<Rightarrow> int32 \<Rightarrow> (int32 \<Rightarrow> bool) \<Rightarrow> int32 list \<Rightarrow> epoll_set result" where
  "controller_epoll epoll_fd event_fd allows worker_fds =
     (if sint epoll_fd < 0 then Inl PraaSException
      else if event_fd = - 1 then Inl ProcessExit
      else case epoll_add allows event_fd WakeSource Map.empty of
             (True, s) \<Rightarrow> epoll_add_workers allows 0 worker_fds s
           | (False, s) \<Rightarrow> Inl ProcessExit)"

section \<open>The poll loop\<close>

text \<open>
  The channels that the controller reads, each with what its queue holds. A read on a descriptor that blocks
  waits for the rest of a message; then there is no value.
\<close>

type_synonym inbox = "worker_id \<Rightarrow> ipc_channel \<times> bytes list"

fun read_source :: "source \<Rightarrow> inbox \<Rightarrow> (poll_event \<times> inbox) call" where
  "read_source WakeSource inb = returns (Inr (WakeUp, inb))"
| "read_source (WorkerSource w) inb =
     (case receive (fst (inb w)) (snd (inb w)) of
        Inl e \<Rightarrow> if e = NotImplementedError \<and> \<not> ch_nonblock (fst (inb w)) then None else returns (Inl e)
      | Inr (ch, q, all_read, payload) \<Rightarrow>
          if all_read then returns (Inr (WorkerMessage w (ch_msg ch) payload, inb(w := (ch, q))))
          else if \<not> ch_nonblock (fst (inb w)) then None
          else returns (Inr (WorkerPartial w, inb(w := (ch, q)))))"

text \<open>Each event is read and handled before the next one is read.\<close>

fun read_events ::
    "((string \<times> nat) list \<Rightarrow> bytes) \<Rightarrow> nat \<Rightarrow> source list \<Rightarrow> inbox \<Rightarrow> controller \<Rightarrow> (inbox \<times> controller) call" where
  "read_events ser now [] inb c = returns (Inr (inb, c))"
| "read_events ser now (s # ss) inb c =
     then_call (read_source s inb) (\<lambda>(e, inb1).
     then_call (returns (handle_event ser now e c)) (\<lambda>c1.
     read_events ser now ss inb1 c1))"

text \<open>
  What \<^verbatim>\<open>epoll_wait\<close> returns: ready descriptors, or an error. The loop runs while the list lasts; the Boolean
  says that it has ended.
\<close>

datatype wait_result = Ready nat "source list" | WaitFailed int32

definition EINTR :: int32 where "EINTR = 4"
definition EINVAL :: int32 where "EINVAL = 22"

fun wait_ends :: "wait_result \<Rightarrow> bool" where
  "wait_ends (Ready now ss) = False"
| "wait_ends (WaitFailed errno) = (errno \<noteq> EINVAL)"

fun wait_events :: "wait_result \<Rightarrow> nat \<times> source list" where
  "wait_events (Ready now ss) = (now, ss)"
| "wait_events (WaitFailed errno) = (0, [])"

fun run_poll ::
    "((string \<times> nat) list \<Rightarrow> bytes) \<Rightarrow> wait_result list \<Rightarrow> inbox \<Rightarrow> controller \<Rightarrow> (bool \<times> inbox \<times> controller) call" where
  "run_poll ser [] inb c = returns (Inr (False, inb, c))"
| "run_poll ser (r # rs) inb c =
     (if ct_ending c \<or> wait_ends r then returns (Inr (True, inb, c))
      else
        then_call (read_events ser (fst (wait_events r)) (snd (wait_events r)) inb c) (\<lambda>(inb1, c1).
        then_call (returns (schedule_controller c1)) (\<lambda>c2.
        run_poll ser rs inb1 c2)))"

section \<open>The end\<close>

datatype exit_status = Exited int32 | Signalled nat

definition SIGINT :: nat where "SIGINT = 2"
definition SIGABRT :: nat where "SIGABRT = 6"

text \<open>Waiting for a child that does not end does not return.\<close>

fun wait_children :: "(pid \<Rightarrow> exit_status option) \<Rightarrow> pid list \<Rightarrow> exit_status list option" where
  "wait_children ends [] = Some []"
| "wait_children ends (p # ps) =
     (case ends p of
        None \<Rightarrow> None
      | Some st \<Rightarrow> (case wait_children ends ps of None \<Rightarrow> None | Some sts \<Rightarrow> Some (st # sts)))"

text \<open>All workers get the signal before the first is waited for; \<open>ends\<close> says how a child ends after the signals that were sent.\<close>

definition workers_shutdown ::
    "((pid \<times> nat) list \<Rightarrow> pid \<Rightarrow> exit_status option) \<Rightarrow> pid list \<Rightarrow> ((pid \<times> nat) list \<times> exit_status list) option" where
  "workers_shutdown ends pids =
     (let signals = map (\<lambda>p. (p, SIGINT)) pids in
      case wait_children (ends signals) pids of None \<Rightarrow> None | Some sts \<Rightarrow> Some (signals, sts))"

text \<open>The end of an invoker: its main function returns, or leaves with an exception.\<close>

definition invoker_exit :: "user_function library \<Rightarrow> runtime \<Rightarrow> exit_status option" where
  "invoker_exit l st =
     (case invoker_loop l st of
        None \<Rightarrow> None
      | Some (Inl e) \<Rightarrow> Some (Signalled SIGABRT)
      | Some (Inr st') \<Rightarrow> Some (Exited 0))"

definition invoker_child ::
    "(pid \<Rightarrow> user_function library) \<Rightarrow> (pid \<Rightarrow> runtime) \<Rightarrow> (pid \<times> nat) list \<Rightarrow> pid \<Rightarrow> exit_status option" where
  "invoker_child l rt signals p = invoker_exit (l p) (if (p, SIGINT) \<in> set signals then invoker_interrupt (rt p) else rt p)"

section \<open>Lemmas\<close>

lemma start_workers_all:
  "length rs = length cmds \<Longrightarrow> list_all (\<lambda>r. 0 \<le> sint r) rs \<Longrightarrow>
   start_workers rs cmds children = Inr (rs, children @ zip rs cmds)"
  by (induction rs cmds children rule: start_workers.induct) (auto simp: fork_worker_def)

text \<open>The loop over channels is the loop over messages, for the messages that it reads.\<close>

lemma read_events_handle:
  "read_events ser now ss inb c = returns (Inr (inb1, c1)) \<Longrightarrow> \<exists>es. handle_events ser now es c = Inr c1"
proof (induction ser now ss inb c rule: read_events.induct)
  case (2 ser now s ss inb c)
  then show ?case
    by (auto simp: then_call_eq_Inr) (metis and_then_simps(2) handle_events.simps(2))
qed (auto intro: exI [of _ "[]"])

lemma run_poll_refines:
  "run_poll ser rs inb c = returns (Inr (ended, inb', c')) \<Longrightarrow> \<exists>bs. poll ser bs c = Inr c'"
proof (induction rs arbitrary: inb c)
  case (Cons r rs)
  show ?case
  proof (cases "ct_ending c \<or> wait_ends r")
    case True
    with Cons.prems show ?thesis by (intro exI [of _ "[]"]) auto
  next
    case False
    with Cons.prems obtain inb1 c1 c2 where s: "read_events ser (fst (wait_events r)) (snd (wait_events r)) inb c = returns (Inr (inb1, c1))"
        "schedule_controller c1 = Inr c2" "run_poll ser rs inb1 c2 = returns (Inr (ended, inb', c'))"
      by (auto simp: then_call_eq_Inr)
    from read_events_handle [OF s(1)] obtain es where "handle_events ser (fst (wait_events r)) es c = Inr c1" by blast
    with s(2) have "poll_iteration ser (fst (wait_events r)) es c = Inr c2" by (simp add: poll_iteration_def)
    moreover obtain bs where "poll ser bs c2 = Inr c'" using Cons.IH [OF s(3)] by blast
    ultimately show ?thesis using False by (intro exI [of _ "(fst (wait_events r), es) # bs"]) simp
  qed
qed (auto intro: exI [of _ "[]"])

text \<open>Each descriptor stands for what it was added for.\<close>

lemma epoll_add_workers_sources:
  assumes "epoll_add_workers allows w fds s = Inr s'"
  shows "(\<forall>i < length fds. s' (fds ! i) = Some (WorkerSource (w + i))) \<and> (\<forall>fd d. s fd = Some d \<longrightarrow> s' fd = Some d)"
  using assms
proof (induction fds arbitrary: w s)
  case (Cons fd fds)
  then have add: "s fd = None" "epoll_add_workers allows (Suc w) fds (s(fd \<mapsto> WorkerSource w)) = Inr s'"
    by (auto simp: epoll_add_def split: if_splits)
  have same: "(s(fd \<mapsto> WorkerSource w)) f = Some d \<Longrightarrow> s' f = Some d" for f d using Cons.IH [OF add(2)] by blast
  have rest: "i < length fds \<Longrightarrow> s' (fds ! i) = Some (WorkerSource (Suc w + i))" for i using Cons.IH [OF add(2)] by blast
  have "s' ((fd # fds) ! i) = Some (WorkerSource (w + i))" if "i < length (fd # fds)" for i
    using that same [of fd] rest [of "i - 1"] by (cases i) auto
  moreover have "s' f = Some d" if "s f = Some d" for f d
    using that same [of f d] add(1) by (cases "f = fd") auto
  ultimately show ?case by blast
qed simp

lemma controller_epoll_sources:
  assumes "controller_epoll epoll_fd event_fd allows fds = Inr s"
  shows "s event_fd = Some WakeSource" and "i < length fds \<Longrightarrow> s (fds ! i) = Some (WorkerSource i)"
proof -
  from assms have "epoll_add_workers allows 0 fds (Map.empty(event_fd \<mapsto> WakeSource)) = Inr s"
    by (auto simp: controller_epoll_def epoll_add_def split: if_splits)
  from epoll_add_workers_sources [OF this] show "s event_fd = Some WakeSource" "i < length fds \<Longrightarrow> s (fds ! i) = Some (WorkerSource i)"
    by auto
qed

text \<open>A message that has arrived is read at once, and a part of one stops the loop, as the channel blocks.\<close>

lemma worker_message_read:
  assumes "framed ms h d cs" and "between_messages ms ch" and "IPC_BUF_SIZE \<le> ms" and "inb w = (ch, cs)"
  shows "\<exists>ch' b. read_source (WorkerSource w) inb = returns (Inr (WorkerMessage w h b, inb(w := (ch', [])))) \<and>
           buffer_data b = d \<and> between_messages ms ch'"
  using framed_received [OF assms(1-3)] assms(4) by auto

lemma header_alone_blocks:
  assumes "header_of h d" and "d \<noteq> []" and "between_messages ms ch" and "IPC_BUF_SIZE \<le> ms" and "inb w = (ch, [h])" and "\<not> ch_nonblock ch"
  shows "read_source (WorkerSource w) inb = None"
proof -
  have h: "length h = IPC_BUF_SIZE" "sint (ipc_total_length h) = int (length d)" "size_of_i32 (ipc_total_length h) = length d"
      "length d < 2 ^ 31"
    using assms(1) header_of_length [OF assms(1)] by (simp_all add: header_of_def)
  have ch: "ch_msg_size ch = ms" "\<not> ch_msg_read ch" "ch_msg_payload ch = Buffer_default" "length (ch_buffers ch) \<le> BUFFER_ELEMS"
    using assms(3) by (simp_all add: between_messages_def)
  have "receive_header ch [h] = Inr (ch\<lparr>ch_msg := h, ch_msg_read := True\<rparr>, [], True)"
    using h(1) ch(1,2) assms(4) by (auto simp: receive_header_def channel_recv_def)
  moreover have "retrieve_buffer (nat (max (int (length d)) (int ms))) (ch_buffers ch) =
      (Buffer_new (nat (max (int (length d)) (int ms))), tl (ch_buffers ch))"
    using ch(4) assms(4) by (intro retrieve_buffer_large) (auto simp: BUFFER_ELEMS_def)
  ultimately have "\<exists>ch'. receive ch [h] = Inr (ch', [], False, Buffer_default)"
    using h(2-4) ch(1,3) assms(2)
    by (simp add: receive_def receive_payload_def channel_recv_def Let_def fresh_buffer_fields Buffer_default_def buffer_null_def)
  then show ?thesis using assms(5,6) by auto
qed

lemma waiting_children: "ps \<noteq> [] \<Longrightarrow> (\<And>p. p \<in> set ps \<Longrightarrow> ends p = None) \<Longrightarrow> wait_children ends ps = None"
  by (cases ps) auto

lemma ended_children: "(\<And>p. p \<in> set ps \<Longrightarrow> ends p = Some st) \<Longrightarrow> wait_children ends ps = Some (map (\<lambda>_. st) ps)"
  by (induction ps) auto

text \<open>
  A comment says that a wait that was interrupted does not end the loop, but the test is for another error
  number: the loop ends although nobody asked for it.
\<close>

lemma interrupted_wait_ends: "run_poll ser (WaitFailed EINTR # rs) inb c = returns (Inr (True, inb, c))"
  by (simp add: EINTR_def EINVAL_def)

text \<open>
  An interrupt while a function of the invoker runs: the handler has destroyed the channel to which the
  result is then sent.
\<close>

lemma interrupted_function_undefined:
  assumes "invoker_poll st = returns (Inr (Some i, st1))" and "\<not> rt_ending st1" and "library_get_function (ri_function_name i) l = Some fn"
    and "fn i (start_invocation (ri_key i) st1) = returns (Inr (code, invoker_interrupt st2))"
    and "no_nul (cx_invoc_id st2)" "length (cx_invoc_id st2) \<le> IPC_ID_LENGTH"
    and "read_bytes (fst (as_buffer st2)) (snd (as_buffer st2)) st2 = Inr out"
  shows "main_round l st = returns (Inl UndefinedBehaviour)"
proof -
  let ?st = "invoker_interrupt st2"
  have same: "cx_invoc_id ?st = cx_invoc_id st2" "as_buffer ?st = as_buffer st2" "rt_write ?st = None"
    by (simp_all add: invoker_interrupt_def invoker_shutdown_def as_buffer_def)
  have "read_bytes (fst (as_buffer st2)) (snd (as_buffer st2)) ?st = read_bytes (fst (as_buffer st2)) (snd (as_buffer st2)) st2"
    by (simp add: read_bytes_def block_content_def invoker_interrupt_def invoker_shutdown_def split: option.splits block.splits)
  then have "invoker_put m (fst (as_buffer st2)) (snd (as_buffer st2)) ?st = returns (Inl UndefinedBehaviour)" for m
    using assms(7) same(3) by (simp add: invoker_put_def invoker_send_def)
  moreover obtain m where "result_message (cx_invoc_id st2) (snd (as_buffer st2)) code = Inr m"
    using result_message_ok [OF assms(5,6), where len = "snd (as_buffer st2)" and code = code and n = 0] by (elim exE conjE) (rule that)
  ultimately have "invoker_finish (cx_invoc_id ?st) (fst (as_buffer ?st)) (snd (as_buffer ?st)) code ?st = returns (Inl UndefinedBehaviour)"
    by (simp add: invoker_finish_def same)
  then show ?thesis using assms(1-4) by (simp add: main_round_def split_def)
qed

section \<open>Properties\<close>



end
