(* ===== verification/Spec2Isabelle.thy ===== *)
theory Spec2Isabelle
  imports Prelude Wire_Messages Ipc_Messages Buffers Ipc_Channel Application_Status Message_Store
    Process_Config Work_Queue Controller Remote Control_Process Control_Application Control_Server Invoker Sdk Serving
    Control_Config Engine_Http Object_Moves Buffer_Archive Completion Worker_Launch Invoker_Main Message_Types End_To_End Peers Process_Lifecycle
begin

text \<open>
  A verification of PraaS, a serverless platform with long-lived processes. The sources are under
  \<^verbatim>\<open>src/\<close>; every definition that models code keeps the name of the function or class it
  translates, with a prefix where two of them share it.

  \<^bold>\<open>The program.\<close> A control plane accepts HTTP requests, keeps applications and their processes, and
  asks a cloud backend to start processes. A process is a controller with a TCP server and a pool
  of function invokers. The control plane, other processes and clients of the SDK talk to the TCP
  server with messages of a 70 byte header and a payload; the controller and its invokers talk
  over POSIX message queues with messages of a 128 byte header and a payload. The controller
  queues invocations, hands them to idle invokers, keeps a mailbox of messages and state, and
  returns results to whoever asked. A user function runs in an invoker, with a context through
  which it reads and writes messages and state and invokes other functions.

  \<^bold>\<open>Theories and sources.\<close>

  \<^item> \<^verbatim>\<open>Prelude\<close>: exceptions as the values of \<open>error\<close> (\<^verbatim>\<open>common/exceptions.hpp\<close>), fallible code as a sum,
    little-endian integers in byte arrays, \<^verbatim>\<open>strncpy\<close> and \<^verbatim>\<open>strnlen\<close>, byte streams of frames, the
    locale \<open>fixed_width_codec\<close> of encodings at an offset, which integers and names interpret, and
    the locale \<open>invariant_machine\<close>: a step relation with an invariant, reachable states are good.
  \<^item> \<^verbatim>\<open>Wire_Messages\<close>: the messages over TCP (\<^verbatim>\<open>common/messages.hpp\<close>); each class interprets the locale
    \<open>message_class\<close>. Round trips of every class, and which headers the parser accepts.
  \<^item> \<^verbatim>\<open>Ipc_Messages\<close>: the messages between controller and invoker (\<^verbatim>\<open>ipc/messages.hpp\<close>,
    \<^verbatim>\<open>internal/messages.cpp\<close>). Round trips, and the overflow of the array of buffer lengths.
  \<^item> \<^verbatim>\<open>Buffers\<close>: owning buffers, accessors and the buffer queue (\<^verbatim>\<open>internal/buffer.hpp\<close>).
  \<^item> \<^verbatim>\<open>Ipc_Channel\<close>: the POSIX queue channel (\<^verbatim>\<open>internal/ipc.cpp\<close>). The kernel queue is a bounded list;
    sender and receiver interleave as a step relation. What is received is what was sent, in
    order, in every reachable state, and a drained queue has delivered everything.
  \<^item> \<^verbatim>\<open>Application_Status\<close>: the view a process has of its application (\<^verbatim>\<open>common/application.hpp\<close>).
  \<^item> \<^verbatim>\<open>Message_Store\<close>: mailbox, state keys and waiting workers (\<^verbatim>\<open>controller/src/messages.cpp\<close>). The
    locales \<open>mailbox\<close> and \<open>pending_store\<close> are the contracts the controller relies on, interpreted on
    the operations of the two classes.
  \<^item> \<^verbatim>\<open>Message_Types\<close>: both families of messages again, as objects that setters are called on in any
    order, two \<open>invariant_machine\<close>s: a message is parsed as the class it was built as.
  \<^item> \<^verbatim>\<open>Process_Config\<close>: configuration, from file, defaults and environment, and function table
    (\<^verbatim>\<open>controller/src/config.cpp\<close>, \<^verbatim>\<open>cli.cpp\<close>, \<^verbatim>\<open>internal/functions.cpp\<close>).
  \<^item> \<^verbatim>\<open>Work_Queue\<close>: invocations, the work queue and the pool of workers (\<^verbatim>\<open>controller/src/workers.cpp\<close>).
    An invocation is unknown, pending or active, and each operation moves it as it should.
  \<^item> \<^verbatim>\<open>Controller\<close>: all handlers, the scheduler and the poll loop (\<^verbatim>\<open>controller/src/controller.cpp\<close>), an
    \<open>invariant_machine\<close>. An external invocation reaches an idle worker, its result goes back to its
    source and to no other, local results reach exactly the workers that wait, a get and a put meet
    in either order, waiting invocations start in order of arrival.
  \<^item> \<^verbatim>\<open>Completion\<close>: the controller runs dry. As long as invocations are outstanding some invoker works, and
    each result that an invoker returns settles one of them, until every source has its answer.
  \<^item> \<^verbatim>\<open>Remote\<close>: the TCP server of a process (\<^verbatim>\<open>controller/src/remote.cpp\<close>) and its main function. However a stream of frames is
    cut into chunks, the controller gets a prefix of them, unchanged and in order; calls to a peer
    that is not connected yet arrive there in order once it is.
  \<^item> \<^verbatim>\<open>Control_Process\<close>: a process as the control plane sees it (\<^verbatim>\<open>control-plane/src/process.cpp\<close>).
    Waiting invocations are sent once, in order; the order of connection and allocation does not
    matter; a result answers the client that asked.
  \<^item> \<^verbatim>\<open>Control_Application\<close>: the tables of an application (\<^verbatim>\<open>control-plane/src/application.cpp\<close>), an
    \<open>invariant_machine\<close> that refines an abstract table: a name is added, connects, swaps out and
    becomes swapped in that order, or is removed.
  \<^item> \<^verbatim>\<open>Control_Server\<close>: table of applications, worker tasks, HTTP handlers and TCP server of the control
    plane (\<^verbatim>\<open>resources.cpp\<close>, \<^verbatim>\<open>worker.cpp\<close>, \<^verbatim>\<open>http.cpp\<close>, \<^verbatim>\<open>tcpserver.cpp\<close>). Reports of a process have the
    same effect in whatever pieces they arrive.
  \<^item> \<^verbatim>\<open>Invoker\<close>: the invoker, the context of user functions and the C++ main loop
    (\<^verbatim>\<open>internal/invoker.cpp\<close>, \<^verbatim>\<open>context.cpp\<close>, \<^verbatim>\<open>invoker/cpp\<close>), with an explicit heap because the context
    compares pointers and frees arrays. Memory safety of the calls a function can make as an
    \<open>invariant_machine\<close>, and that an invocation is answered with what the function produced.
  \<^item> \<^verbatim>\<open>Sdk\<close>: the client library and the routes of the control plane (\<^verbatim>\<open>sdk/src\<close>, \<^verbatim>\<open>http.hpp\<close>), composed
    with \<^verbatim>\<open>Remote\<close> and \<^verbatim>\<open>Control_Server\<close>.
  \<^item> \<^verbatim>\<open>Serving\<close>: the serving daemon (\<^verbatim>\<open>serving/src/server.cpp\<close>, \<^verbatim>\<open>containers.cpp\<close>), which turns requests of the
    control plane into requests to a Docker engine, and the backends that call it
    (\<^verbatim>\<open>control-plane/src/backend.cpp\<close>, \<^verbatim>\<open>deployment.cpp\<close>). Each request to the engine is recorded with the
    callback that waits for its reply, an \<open>invariant_machine\<close>: no client is answered twice, a
    finite number of replies answers everybody, and an allocation gives the control plane the
    container's address and leaves it in the daemon's table.
  \<^item> \<^verbatim>\<open>Control_Config\<close>: the configuration of the control plane, the server that is built from it, and
    the daemon's options (\<^verbatim>\<open>control-plane/src/config.cpp\<close>, \<^verbatim>\<open>server.cpp\<close>, \<^verbatim>\<open>common/util.hpp\<close>, \<^verbatim>\<open>serving/src/opts.cpp\<close>).
    Which documents are accepted, and with which values and defaults.
  \<^item> \<^verbatim>\<open>Engine_Http\<close>: the requests between Docker backend, daemon and engine as paths, parameters and JSON
    documents (\<^verbatim>\<open>common/src/http.cpp\<close>), and the main functions of daemon and control plane. What one side
    writes is what the other reads, down to the documents of the engine.
  \<^item> \<^verbatim>\<open>Worker_Launch\<close>: the message queues between the controller and its invokers, from their creation
    (\<^verbatim>\<open>process/controller/src/workers.cpp\<close>) to their removal. Each invoker finds on its command line the
    queues of its worker, and no two workers share one.
  \<^item> \<^verbatim>\<open>Object_Moves\<close>: moving applications and processes with their locks, and the \<^verbatim>\<open>add_process\<close> that waits
    (\<^verbatim>\<open>application.hpp\<close>, \<^verbatim>\<open>process.hpp\<close>). \<^verbatim>\<open>Buffer_Archive\<close>: objects in the buffers of functions, over any archive
    (\<^verbatim>\<open>runtime/buffer.hpp\<close>), with their round trip.
  \<^item> \<^verbatim>\<open>Invoker_Main\<close>: the main function of the C++ invoker (\<^verbatim>\<open>invoker/cpp/cli.cpp\<close>, \<^verbatim>\<open>opts.cpp\<close>). The command
    line of the controller starts it on its worker's queues, and its loop, a partial function, answers a
    queue of requests in order and waits for more until it is interrupted.
  \<^item> \<^verbatim>\<open>End_To_End\<close>: \<^verbatim>\<open>Sdk\<close>, \<^verbatim>\<open>Remote\<close>, \<^verbatim>\<open>Controller\<close>, \<^verbatim>\<open>Ipc_Channel\<close> and \<^verbatim>\<open>Invoker\<close> composed: the call of a client
    returns what the user's function computes from the client's input. A process that is started
    from a configuration is ready for each function that its invokers load.
  \<^item> \<^verbatim>\<open>Peers\<close>: \<^verbatim>\<open>Invoker\<close>, \<^verbatim>\<open>Ipc_Channel\<close>, \<^verbatim>\<open>Controller\<close> and \<^verbatim>\<open>Remote\<close> of two processes composed: what a function of one
    puts for the other is what a function of the other gets, whichever of the two comes first.
  \<^item> \<^verbatim>\<open>Process_Lifecycle\<close>: the children of the controller, the descriptors it waits on, its poll loop over what
    \<^verbatim>\<open>epoll_wait\<close> returns and what the channels hold, and its end (\<^verbatim>\<open>controller.cpp\<close>, \<^verbatim>\<open>workers.cpp\<close>). A process starts,
    waits, and ends with all its children and queues.
  \<^item> This theory: an invocation from a client of the control plane to a process and back, over
    \<^verbatim>\<open>Control_Process\<close>, \<^verbatim>\<open>Remote\<close> and \<^verbatim>\<open>Control_Server\<close>, first with any result of the controller and then with
    the run of the process between; and the start of a process, from the configuration of the
    control plane over the container's environment to the registration of the process, over
    \<^verbatim>\<open>Control_Config\<close>, \<^verbatim>\<open>Serving\<close>, \<^verbatim>\<open>Process_Config\<close>, \<^verbatim>\<open>Remote\<close> and \<^verbatim>\<open>Control_Server\<close>.

  \<^bold>\<open>Conventions.\<close> A handler is a function of the state that returns the new state or an error; what
  C++ leaves undefined is the error \<open>UndefinedBehaviour\<close>, and that a handler never returns it is
  part of the invariants and of the functional properties. Threads only meet at queues and tables
  with locks, so an operation is one step. Integers of the messages and return codes are 16, 32 or
  64 bit words and conversions between \<^verbatim>\<open>int32_t\<close> and \<^verbatim>\<open>size_t\<close> are written out; sizes of arrays in
  memory are natural numbers. Loops are functions with a termination proof: receive loops shorten
  the buffer or the queue, the scheduler shortens the list of waiting invocations. The only bounded
  loop is \<open>poll\<close> of the controller, which takes the list of batches of events that arrive. A call
  that waits for a message that has not arrived has the value \<open>None\<close>. Clocks, random identifiers,
  the number reader, limits of the backend, the serialisation of state keys, user functions and
  the dynamic linker are arguments.

  \<^bold>\<open>Other programs.\<close> The Docker engine and AWS are not part of the program: their replies are
  arguments, also the missing reply of an engine that cannot be reached. A user function is an
  argument of which the end-to-end theorems ask that it computes its output from its input through
  the calls of the context, as the function \<open>no_op\<close> of the benchmarks does. The library that reads archives is known by the text of its
  exceptions, which the code inspects; the hypothesis \<open>cereal_names\<close> states what it relies on, and
  a concrete instance satisfies it.

  \<^bold>\<open>Not modelled.\<close> The Python bindings and the Python invoker, the other benchmarks and the
  tests, and the old workers under \<^verbatim>\<open>serving/docker\<close> that no build file compiles. The installation of signal handlers and the handlers of failures,
  logging, event loops, and the start and stop of HTTP and TCP servers:
  calls to the operating system and to libraries
  without logic of the program. The set-up of the AWS clients. Locks that the code takes and releases too early are listed among the
  findings and are not part of the sequential model.
\<close>

section \<open>An invocation through the control plane\<close>

lemma control_frame:
  assumes "carries (req, cl, fname, start, uuid) (h, req)" and "cn_type cn = CONTROL_PLANE"
  shows "is_frame cn (h, req)"
  using assms by (auto simp: is_frame_def payload_length_def accepts_def)

lemma result_is_report:
  assumes "parse h = Inr (InvocationResultPtr m)" and "length h = BUF_SIZE"
    and "total_length m = i32_of_size (length out)" and "length out < 2 ^ 31"
  shows "is_report (h, out)" and "report_effect now (h, out) = finish_invocation (result_id m) (return_code m) out"
proof -
  have "size_of_i32 (total_length m) = length out" unfolding assms(3) by (rule size_of_i32_of_size [OF assms(4)])
  then show "is_report (h, out)" using assms(1,2) unfolding is_report_def fst_conv snd_conv by simp
  show "report_effect now (h, out) = finish_invocation (result_id m) (return_code m) out"
    using assms(1) unfolding report_effect_def fst_conv snd_conv by simp
qed

lemma submitted_at_once:
  assumes "pr_status p = ALLOCATED" and "pr_connection p = Some conn"
    and "invocation_header (cp_Invocation req cl fname uuid start) = Inr h"
  shows "add_invocation req cl fname start uuid p =
           Inr (p\<lparr>pr_active_invocations := pr_active_invocations p + 1, pr_sent := pr_sent p @ [h, req],
             pr_invocations := pr_invocations p @ [(cp_Invocation req cl fname uuid start)\<lparr>ci_submitted := True\<rparr>]\<rparr>)"
  using assms by (simp add: add_invocation_def Let_def send_invocation_def tcp_send_def cp_Invocation_def)

lemma answered_by_result:
  assumes "list_all (\<lambda>i. short_id (ci_invocation_id i) \<noteq> short_id uuid) ivs"
    and "pr_invocations p = ivs @ [(cp_Invocation req cl fname uuid start)\<lparr>ci_submitted := True\<rparr>]"
  shows "pr_invocations (finish_invocation (short_id uuid) code out p) = ivs"
    and "pr_responses (finish_invocation (short_id uuid) code out p) =
           pr_responses p @ [(cl, InvocationResponse fname (short_id uuid) code out)]"
  using split_invocations_first [OF assms(1), of "(cp_Invocation req cl fname uuid start)\<lparr>ci_submitted := True\<rparr>" "[]"] assms(2)
  by (simp_all add: finish_invocation_def respond_def cp_Invocation_def)

lemma result_reaches_client:
  assumes out: "length out < 2 ^ 31" and id: "no_nul (short_id uuid)" "length (short_id uuid) \<le> ID_LENGTH"
    and sv: "sv_connections sv k = Some cn" "cn_conn cn = Some sk" "sv_control_plane sv = Some k" "sv_sent sv sk = []"
    and ivs: "list_all (\<lambda>i. short_id (ci_invocation_id i) \<noteq> short_id uuid) ivs"
    and cloud: "cl_context s conn = Some d" "cd_bytes_to_read d = 0"
    and p1: "pr_invocations p1 = ivs @ [(cp_Invocation req cl fname uuid start)\<lparr>ci_submitted := True\<rparr>]" "pr_responses p1 = rs"
  shows "\<exists>sv2. perform_call (ServerInvocationResult CONTROL_PLANE None (short_id uuid) code out) sv = Inr sv2 \<and>
      (\<forall>chunks. chunks \<noteq> [] \<and> concat chunks = concat (sv_sent sv2 sk) \<longrightarrow>
        (\<exists>s' p2. cloud_receive now uid conn chunks [] (s\<lparr>cl_store := (cl_store s)(cd_process d \<mapsto> p1)\<rparr>) = Inr ([], s') \<and> cl_store s' (cd_process d) = Some p2 \<and>
           pr_invocations p2 = ivs \<and> pr_responses p2 = rs @ [(cl, InvocationResponse fname (short_id uuid) code out)]))"
proof -
  let ?id = "short_id uuid" and ?s = "s\<lparr>cl_store := (cl_store s)(cd_process d \<mapsto> p1)\<rparr>"
  obtain sv2 g m where res: "perform_call (ServerInvocationResult CONTROL_PLANE None ?id code out) sv = Inr sv2"
      "concat (sv_sent sv2 sk) = g @ out" "length g = BUF_SIZE" "parse g = Inr (InvocationResultPtr m)"
      "result_id m = ?id" "return_code m = code" "total_length m = i32_of_size (length out)"
    using perform_result [OF sv(1,2) id, of CONTROL_PLANE None code out] sv(3,4) by auto
  note report = result_is_report [OF res(4,3,7) out]
  let ?p2 = "finish_invocation ?id code out p1"
  have p2: "pr_invocations ?p2 = ivs" "pr_responses ?p2 = rs @ [(cl, InvocationResponse fname ?id code out)]"
    using answered_by_result [OF ivs p1(1)] p1(2) by simp_all
  have st: "cl_context ?s conn = Some d" "cl_store ?s (cd_process d) = Some p1" using cloud(1) by simp_all
  have answer: "\<exists>s'. cloud_receive now uid conn chunks [] ?s = Inr ([], s') \<and> cl_store s' (cd_process d) = Some ?p2"
    if c: "chunks \<noteq> []" "concat chunks = concat (sv_sent sv2 sk)" for chunks
  proof -
    have "report_rest d [(g, out)] ([] @ concat chunks)" using cloud(2) c(2) res(2) by (simp add: report_rest_def)
    from receive_reports [OF st _ this c(1)] report res show ?thesis by fastforce
  qed
  have "\<forall>chunks. chunks \<noteq> [] \<and> concat chunks = concat (sv_sent sv2 sk) \<longrightarrow>
      (\<exists>s' p2. cloud_receive now uid conn chunks [] ?s = Inr ([], s') \<and> cl_store s' (cd_process d) = Some p2 \<and>
         pr_invocations p2 = ivs \<and> pr_responses p2 = rs @ [(cl, InvocationResponse fname ?id code out)])"
    using answer p2 by blast
  with res(1) show ?thesis by blast
qed

text \<open>A session of the control plane with a process, with whatever its controller does between request and result.\<close>

lemma control_plane_session:
  assumes p: "pr_status p = ALLOCATED" "pr_connection p = Some conn"
      "list_all (\<lambda>i. short_id (ci_invocation_id i) \<noteq> short_id uuid) (pr_invocations p)"
    and req: "request_ok (req, cl, fname, start, uuid)"
    and sv: "sv_context sv sk = Some k" "sv_connections sv k = Some cn" "sv_buffers sv = []" "cn_bytes_to_read cn = 0"
      "cn_type cn = CONTROL_PLANE" "cn_conn cn = Some sk" "sv_control_plane sv = Some k" "sv_sent sv sk = []"
    and cloud: "cl_context s conn = Some d" "cd_bytes_to_read d = 0"
  shows "\<exists>p1 body sv1 r.
           add_invocation req cl fname start uuid p = Inr p1 \<and> pr_sent p1 = pr_sent p @ body \<and>
           handle_message sk (concat body) sv = Inr ([], sv1) \<and>
           sv_controller sv1 = deliver
             [\<lparr>em_source_type = CONTROL_PLANE, em_source = None, em_msg = hd body, em_payload = payload_buffer_of req\<rparr>] (sv_controller sv) \<and>
           parse (hd body) = Inr (InvocationRequestPtr r) \<and> function_name r = fname \<and> invocation_id r = short_id uuid \<and>
           (\<forall>c code out. length out < 2 ^ 31 \<longrightarrow>
             (\<exists>sv2. perform_call (ServerInvocationResult CONTROL_PLANE None (short_id uuid) code out) (sv1\<lparr>sv_controller := c\<rparr>) = Inr sv2 \<and>
               (\<forall>chunks. chunks \<noteq> [] \<and> concat chunks = concat (sv_sent sv2 sk) \<longrightarrow>
                 (\<exists>s' p2. cloud_receive now uid conn chunks [] (s\<lparr>cl_store := (cl_store s)(cd_process d \<mapsto> p1)\<rparr>) = Inr ([], s') \<and> cl_store s' (cd_process d) = Some p2 \<and>
                    pr_invocations p2 = pr_invocations p \<and>
                    pr_responses p2 = pr_responses p @ [(cl, InvocationResponse fname (short_id uuid) code out)]))))"
proof -
  let ?i = "cp_Invocation req cl fname uuid start" and ?id = "short_id uuid"
  have id: "no_nul ?id" "length ?id \<le> ID_LENGTH"
    using req by (auto simp: short_id_def no_nul_def dest: in_set_takeD)
  obtain h r where h: "invocation_header ?i = Inr h" "carries (req, cl, fname, start, uuid) (h, req)"
      "parse h = Inr (InvocationRequestPtr r)" "function_name r = fname" "invocation_id r = ?id"
    using invocation_header_ok [OF req] by (auto simp: cp_Invocation_def)
  define p1 where "p1 = p\<lparr>pr_active_invocations := pr_active_invocations p + 1, pr_sent := pr_sent p @ [h, req],
      pr_invocations := pr_invocations p @ [?i\<lparr>ci_submitted := True\<rparr>]\<rparr>"
  have add: "add_invocation req cl fname start uuid p = Inr p1" "pr_sent p1 = pr_sent p @ [h, req]"
    using submitted_at_once [OF p(1,2) h(1)] by (simp_all add: p1_def)
  have frames: "list_all (is_frame cn) [(h, req)]" "concat [h, req] @ [] = byte_stream [(h, req)]"
    using control_frame [OF h(2) sv(5)] by simp_all
  obtain cn' where rc: "handle_message sk (concat [h, req]) sv = Inr ([], delivered k cn cn' [(h, req)] sv)" "same_peer cn cn'"
    using handle_message_boundary [OF sv(1-4) frames] by auto
  let ?sv = "delivered k cn cn' [(h, req)] sv"
  have sv1: "sv_connections ?sv k = Some cn'" "cn_conn cn' = Some sk" "sv_control_plane ?sv = Some k" "sv_sent ?sv sk = []"
    using rc(2) sv by (auto simp: same_peer_def reading_def delivered_def set_connection_def)
  have ext: "sv_controller ?sv = deliver
      [\<lparr>em_source_type = CONTROL_PLANE, em_source = None, em_msg = h, em_payload = payload_buffer_of req\<rparr>] (sv_controller sv)"
    using sv(5) by (simp add: incoming_def delivered_def)
  have answer: "\<exists>sv2. perform_call (ServerInvocationResult CONTROL_PLANE None ?id code out) (?sv\<lparr>sv_controller := c\<rparr>) = Inr sv2 \<and>
      (\<forall>chunks. chunks \<noteq> [] \<and> concat chunks = concat (sv_sent sv2 sk) \<longrightarrow>
        (\<exists>s' p2. cloud_receive now uid conn chunks [] (s\<lparr>cl_store := (cl_store s)(cd_process d \<mapsto> p1)\<rparr>) = Inr ([], s') \<and> cl_store s' (cd_process d) = Some p2 \<and>
           pr_invocations p2 = pr_invocations p \<and> pr_responses p2 = pr_responses p @ [(cl, InvocationResponse fname ?id code out)]))"
    if out: "length out < 2 ^ 31" for c code out
    by (rule result_reaches_client [OF out id _ _ _ _ p(3) cloud]) (use sv1 in \<open>simp_all add: p1_def\<close>)
  with add rc(1) ext h(3-5) show ?thesis
    by (intro exI [of _ p1] exI [of _ "[h, req]"] exI [of _ ?sv] exI [of _ r]) simp
qed

text \<open>
  C9. An invocation travels from the client of the control plane to the process and back. The
  control plane sends the request on the connection of an allocated process; the TCP server of
  the process hands its controller exactly one message with the function, the short identifier
  and the body; when the controller answers with that identifier, the bytes its server sends,
  received by the control plane in any pieces, give the client that asked the function, the
  identifier, the return code and the output, and the invocation is no longer pending.
\<close>

theorem invocation_round_trip:
  assumes p: "pr_status p = ALLOCATED" "pr_connection p = Some conn"
      "list_all (\<lambda>i. short_id (ci_invocation_id i) \<noteq> short_id uuid) (pr_invocations p)"
    and req: "request_ok (req, cl, fname, start, uuid)" and out: "length out < 2 ^ 31"
    and sv: "sv_context sv sk = Some k" "sv_connections sv k = Some cn" "sv_buffers sv = []" "cn_bytes_to_read cn = 0"
      "cn_type cn = CONTROL_PLANE" "cn_conn cn = Some sk" "sv_control_plane sv = Some k" "sv_sent sv sk = []"
    and cloud: "cl_context s conn = Some d" "cd_bytes_to_read d = 0"
  shows "\<exists>p1 body sv1 r sv2.
           add_invocation req cl fname start uuid p = Inr p1 \<and> pr_sent p1 = pr_sent p @ body \<and>
           handle_message sk (concat body) sv = Inr ([], sv1) \<and>
           ct_external (sv_controller sv1) = ct_external (sv_controller sv) @
             [\<lparr>em_source_type = CONTROL_PLANE, em_source = None, em_msg = hd body, em_payload = payload_buffer_of req\<rparr>] \<and>
           parse (hd body) = Inr (InvocationRequestPtr r) \<and> function_name r = fname \<and> invocation_id r = short_id uuid \<and>
           perform_call (ServerInvocationResult CONTROL_PLANE None (invocation_id r) code out) sv1 = Inr sv2 \<and>
           (\<forall>chunks. chunks \<noteq> [] \<and> concat chunks = concat (sv_sent sv2 sk) \<longrightarrow>
              (\<exists>s' p2. cloud_receive now uid conn chunks [] (s\<lparr>cl_store := (cl_store s)(cd_process d \<mapsto> p1)\<rparr>) = Inr ([], s') \<and> cl_store s' (cd_process d) = Some p2 \<and>
                 pr_invocations p2 = pr_invocations p \<and>
                 pr_responses p2 = pr_responses p @ [(cl, InvocationResponse fname (short_id uuid) code out)]))"
proof -
  obtain p1 body sv1 r where b: "add_invocation req cl fname start uuid p = Inr p1" "pr_sent p1 = pr_sent p @ body"
      "handle_message sk (concat body) sv = Inr ([], sv1)"
      "sv_controller sv1 = deliver
        [\<lparr>em_source_type = CONTROL_PLANE, em_source = None, em_msg = hd body, em_payload = payload_buffer_of req\<rparr>] (sv_controller sv)"
      "parse (hd body) = Inr (InvocationRequestPtr r)" "function_name r = fname" "invocation_id r = short_id uuid" and
    answer: "\<And>c code out. length out < 2 ^ 31 \<Longrightarrow>
       \<exists>sv2. perform_call (ServerInvocationResult CONTROL_PLANE None (short_id uuid) code out) (sv1\<lparr>sv_controller := c\<rparr>) = Inr sv2 \<and>
         (\<forall>chunks. chunks \<noteq> [] \<and> concat chunks = concat (sv_sent sv2 sk) \<longrightarrow>
           (\<exists>s' p2. cloud_receive now uid conn chunks [] (s\<lparr>cl_store := (cl_store s)(cd_process d \<mapsto> p1)\<rparr>) = Inr ([], s') \<and> cl_store s' (cd_process d) = Some p2 \<and>
              pr_invocations p2 = pr_invocations p \<and> pr_responses p2 = pr_responses p @ [(cl, InvocationResponse fname (short_id uuid) code out)]))"
    using control_plane_session [OF p req sv cloud, of now uid] by blast
  have same: "sv1\<lparr>sv_controller := sv_controller sv1\<rparr> = sv1" by simp
  have ext: "ct_external (sv_controller sv1) = ct_external (sv_controller sv) @
      [\<lparr>em_source_type = CONTROL_PLANE, em_source = None, em_msg = hd body, em_payload = payload_buffer_of req\<rparr>]"
    using b(4) by (simp add: deliver_simps)
  obtain sv2 where v: "perform_call (ServerInvocationResult CONTROL_PLANE None (short_id uuid) code out) sv1 = Inr sv2"
      "\<forall>chunks. chunks \<noteq> [] \<and> concat chunks = concat (sv_sent sv2 sk) \<longrightarrow>
        (\<exists>s' p2. cloud_receive now uid conn chunks [] (s\<lparr>cl_store := (cl_store s)(cd_process d \<mapsto> p1)\<rparr>) = Inr ([], s') \<and> cl_store s' (cd_process d) = Some p2 \<and>
           pr_invocations p2 = pr_invocations p \<and> pr_responses p2 = pr_responses p @ [(cl, InvocationResponse fname (short_id uuid) code out)])"
    using answer [OF out, of code "sv_controller sv1", unfolded same] by blast
  from v(1) have "perform_call (ServerInvocationResult CONTROL_PLANE None (invocation_id r) code out) sv1 = Inr sv2" unfolding b(7) .
  with b(1-3) ext b(5-7) v(2) show ?thesis by blast
qed

definition example_control_plane :: connection where
  "example_control_plane = Connection CONNECTED CONTROL_PLANE None (Some 3) [] 0"

definition example_node :: tcp_server where
  "example_node = (set_connection CONTROLPLANE_ID example_control_plane (TCPServer example_controller))
     \<lparr>sv_context := [3 \<mapsto> CONTROLPLANE_ID], sv_control_plane := Some CONTROLPLANE_ID\<rparr>"

lemma example_session:
  "pr_status example_process = ALLOCATED" "pr_connection example_process = Some 7"
  "list_all (\<lambda>i. short_id (ci_invocation_id i) \<noteq> short_id ''id-3'') (pr_invocations example_process)"
  "request_ok (''in'', 9, ''add'', 0, ''id-3'')"
  "sv_context example_node 3 = Some CONTROLPLANE_ID" "sv_connections example_node CONTROLPLANE_ID = Some example_control_plane"
  "sv_buffers example_node = []" "cn_bytes_to_read example_control_plane = 0" "cn_type example_control_plane = CONTROL_PLANE"
  "cn_conn example_control_plane = Some 3" "sv_control_plane example_node = Some CONTROLPLANE_ID" "sv_sent example_node 3 = []"
  "cl_context example_cloud 7 = Some \<lparr>cd_process = 0, cd_cur_msg = replicate BUF_SIZE NUL, cd_bytes_to_read = 0\<rparr>"
  "cd_bytes_to_read \<lparr>cd_process = 0, cd_cur_msg = replicate BUF_SIZE NUL, cd_bytes_to_read = 0\<rparr> = 0"
  by (simp_all add: example_process_def Process_def cp_Invocation_def short_id_def no_nul_def example_node_def TCPServer_def
      example_control_plane_def Connection_def example_cloud_def)

theorem invocation_round_trip_witness:
  "\<exists>p1 body sv1. add_invocation ''in'' 9 ''add'' 0 ''id-3'' example_process = Inr p1 \<and>
     handle_message 3 (concat body) example_node = Inr ([], sv1) \<and>
     (\<exists>sv2. perform_call (ServerInvocationResult CONTROL_PLANE None ''id-3'' 0 ''out'') sv1 = Inr sv2 \<and>
        (\<exists>s' p2. cloud_receive 0 ''u'' 7 [concat (sv_sent sv2 3)] [] (example_cloud\<lparr>cl_store := (cl_store example_cloud)(0 \<mapsto> p1)\<rparr>) =
             Inr ([], s') \<and> cl_store s' 0 = Some p2 \<and>
           pr_responses p2 = pr_responses example_process @ [(9, InvocationResponse ''add'' ''id-3'' 0 ''out'')]))"
proof -
  let ?d = "\<lparr>cd_process = 0, cd_cur_msg = replicate BUF_SIZE NUL, cd_bytes_to_read = 0\<rparr>"
  have out: "length ''out'' < 2 ^ 31" by simp
  have "short_id ''id-3'' = ''id-3''" by (simp add: short_id_def)
  note trip = invocation_round_trip [OF example_session(1-4) out example_session(5-14), of 0 0 "''u''", unfolded this, simplified conn_data.simps]
  from trip obtain p1 body sv1 r sv2 where 1: "add_invocation ''in'' 9 ''add'' 0 ''id-3'' example_process = Inr p1"
      "handle_message 3 (concat body) example_node = Inr ([], sv1)"
      "invocation_id r = ''id-3''" "perform_call (ServerInvocationResult CONTROL_PLANE None (invocation_id r) 0 ''out'') sv1 = Inr sv2"
      "\<exists>s' p2. cloud_receive 0 ''u'' 7 [concat (sv_sent sv2 3)] [] (example_cloud\<lparr>cl_store := (cl_store example_cloud)(0 \<mapsto> p1)\<rparr>) =
             Inr ([], s') \<and> cl_store s' 0 = Some p2 \<and>
           pr_responses p2 = pr_responses example_process @ [(9, InvocationResponse ''add'' ''id-3'' 0 ''out'')]"
    by (metis (no_types, lifting) concat.simps append_Nil2 list.distinct(1))
  then show ?thesis by metis
qed

text \<open>
  C2. An invocation through the control plane from end to end. The control plane sends the request
  of a client to an allocated process that is ready for the function; its server hands it to the
  controller, which has it computed by the user's function in the invoker of an idle worker, as in
  a run of the process, and asks the server once to return the result; and the bytes
  the server sends, received by the control plane in any pieces, give the client that asked the
  code and the output the function computed, and the invocation is no longer pending.
\<close>

theorem client_end_to_end:
  assumes p: "pr_status p = ALLOCATED" "pr_connection p = Some conn"
      "list_all (\<lambda>i. short_id (ci_invocation_id i) \<noteq> short_id uuid) (pr_invocations p)"
    and req: "request_ok (req, cl, fname, start, uuid)"
    and sv: "sv_context sv sk = Some k" "sv_connections sv k = Some cn" "sv_buffers sv = []" "cn_bytes_to_read cn = 0"
      "cn_type cn = CONTROL_PLANE" "cn_conn cn = Some sk" "sv_control_plane sv = Some k" "sv_sent sv sk = []"
    and cloud: "cl_context s conn = Some d" "cd_bytes_to_read d = 0"
    and process: "process_ready ms l rt rd fname req code out (sv_controller sv)" "status_of (ct_queue (sv_controller sv)) (short_id uuid) = Absent"
  shows "\<exists>p1 body sv1 call c2 sv2.
           add_invocation req cl fname start uuid p = Inr p1 \<and> pr_sent p1 = pr_sent p @ body \<and>
           handle_message sk (concat body) sv = Inr ([], sv1) \<and>
           process_run ser t1 t2 ms l rt rd (sv_controller sv1) req c2 \<and> ct_server c2 = ct_server (sv_controller sv) @ [call] \<and>
           status_of (ct_queue c2) (short_id uuid) = Absent \<and> perform_call call (sv1\<lparr>sv_controller := c2\<rparr>) = Inr sv2 \<and>
           (\<forall>chunks. chunks \<noteq> [] \<and> concat chunks = concat (sv_sent sv2 sk) \<longrightarrow>
              (\<exists>s' p2. cloud_receive now uid conn chunks [] (s\<lparr>cl_store := (cl_store s)(cd_process d \<mapsto> p1)\<rparr>) = Inr ([], s') \<and> cl_store s' (cd_process d) = Some p2 \<and>
                 pr_invocations p2 = pr_invocations p \<and>
                 pr_responses p2 = pr_responses p @ [(cl, InvocationResponse fname (short_id uuid) code out)]))"
proof -
  obtain p1 body sv1 r where b: "add_invocation req cl fname start uuid p = Inr p1" "pr_sent p1 = pr_sent p @ body"
      "handle_message sk (concat body) sv = Inr ([], sv1)"
      "sv_controller sv1 = deliver
        [\<lparr>em_source_type = CONTROL_PLANE, em_source = None, em_msg = hd body, em_payload = payload_buffer_of req\<rparr>] (sv_controller sv)"
      "parse (hd body) = Inr (InvocationRequestPtr r)" "function_name r = fname" "invocation_id r = short_id uuid" and
    answer: "\<And>c code out. length out < 2 ^ 31 \<Longrightarrow>
       \<exists>sv2. perform_call (ServerInvocationResult CONTROL_PLANE None (short_id uuid) code out) (sv1\<lparr>sv_controller := c\<rparr>) = Inr sv2 \<and>
         (\<forall>chunks. chunks \<noteq> [] \<and> concat chunks = concat (sv_sent sv2 sk) \<longrightarrow>
           (\<exists>s' p2. cloud_receive now uid conn chunks [] (s\<lparr>cl_store := (cl_store s)(cd_process d \<mapsto> p1)\<rparr>) = Inr ([], s') \<and> cl_store s' (cd_process d) = Some p2 \<and>
              pr_invocations p2 = pr_invocations p \<and> pr_responses p2 = pr_responses p @ [(cl, InvocationResponse fname (short_id uuid) code out)]))"
    using control_plane_session [OF p req sv cloud, of now uid] by blast
  let ?m = "\<lparr>em_source_type = CONTROL_PLANE, em_source = None, em_msg = hd body, em_payload = payload_buffer_of req\<rparr>"
  have src: "message_source ?m = from_source CONTROL_PLANE" "is_remote (message_source ?m)"
    by (simp_all add: message_source_def is_remote_def from_source_def)
  have c: "sv_controller sv1 = (sv_controller sv)\<lparr>ct_external := [?m]\<rparr>"
    using b(4) process(1) by (simp add: deliver_def process_ready_def)
  have len: "length req < 2 ^ 31" using req by simp
  let ?call = "ServerInvocationResult CONTROL_PLANE None (short_id uuid) code out"
  obtain c2 where c2: "process_run ser t1 t2 ms l rt rd (sv_controller sv1) req c2" "length out < 2 ^ 31"
      "ct_server c2 = ct_server (sv_controller sv) @ [?call]" "status_of (ct_queue c2) (short_id uuid) = Absent"
    using process_computes [of ?m r req ms l rt rd code out "sv_controller sv" ser t1 t2] b(5-7) src len process
    unfolding c by (auto simp: from_source_def)
  from answer [OF c2(2), of code c2] b(1-3) c2(1,3,4) show ?thesis by blast
qed

theorem client_end_to_end_witness:
  "\<exists>p1 body sv1 call c2 sv2 s' p2. add_invocation ''in'' 9 ''add'' 0 ''id-3'' example_process = Inr p1 \<and>
     handle_message 3 (concat body) example_node = Inr ([], sv1) \<and>
     process_run (\<lambda>_. []) 3 4 1024 (\<lambda>_. echo_library) (\<lambda>_. example_invoker) (\<lambda>_. example_receiver) (sv_controller sv1) ''in'' c2 \<and>
     perform_call call (sv1\<lparr>sv_controller := c2\<rparr>) = Inr sv2 \<and>
     cloud_receive 0 ''u'' 7 [concat (sv_sent sv2 3)] [] (example_cloud\<lparr>cl_store := (cl_store example_cloud)(0 \<mapsto> p1)\<rparr>) = Inr ([], s') \<and>
     cl_store s' 0 = Some p2 \<and> pr_responses p2 = pr_responses example_process @ [(9, InvocationResponse ''add'' ''id-3'' 0 ''in'')]"
proof -
  let ?d = "\<lparr>cd_process = 0, cd_cur_msg = replicate BUF_SIZE NUL, cd_bytes_to_read = 0\<rparr>"
  have id: "short_id ''id-3'' = ''id-3''" by (simp add: short_id_def)
  have node: "sv_controller example_node = example_controller" by (simp add: example_node_def TCPServer_def)
  have process: "process_ready 1024 (\<lambda>_. echo_library) (\<lambda>_. example_invoker) (\<lambda>_. example_receiver) ''add'' ''in'' 0 ''in''
      (sv_controller example_node)" "status_of (ct_queue (sv_controller example_node)) (short_id ''id-3'') = Absent"
    unfolding node using example_process_ready [of "''in''"] by (simp_all add: example_controller_def WorkQueue_def status_of_def)
  note trip = client_end_to_end [OF example_session process, of "\<lambda>_. []" 3 4 0 "''u''", unfolded id conn_data.simps]
  from trip obtain p1 body sv1 call c2 sv2 where 1: "add_invocation ''in'' 9 ''add'' 0 ''id-3'' example_process = Inr p1"
      "handle_message 3 (concat body) example_node = Inr ([], sv1)"
      "process_run (\<lambda>_. []) 3 4 1024 (\<lambda>_. echo_library) (\<lambda>_. example_invoker) (\<lambda>_. example_receiver) (sv_controller sv1) ''in'' c2"
      "perform_call call (sv1\<lparr>sv_controller := c2\<rparr>) = Inr sv2"
      "\<forall>chunks. chunks \<noteq> [] \<and> concat chunks = concat (sv_sent sv2 3) \<longrightarrow>
        (\<exists>s' p2. cloud_receive 0 ''u'' 7 chunks [] (example_cloud\<lparr>cl_store := (cl_store example_cloud)(0 \<mapsto> p1)\<rparr>) = Inr ([], s') \<and>
           cl_store s' 0 = Some p2 \<and> pr_invocations p2 = pr_invocations example_process \<and>
           pr_responses p2 = pr_responses example_process @ [(9, InvocationResponse ''add'' ''id-3'' 0 ''in'')])"
    by blast
  have "[concat (sv_sent sv2 3)] \<noteq> [] \<and> concat [concat (sv_sent sv2 3)] = concat (sv_sent sv2 3)" by simp
  from 1(5) [rule_format, OF this] obtain s' p2 where
    "cloud_receive 0 ''u'' 7 [concat (sv_sent sv2 3)] [] (example_cloud\<lparr>cl_store := (cl_store example_cloud)(0 \<mapsto> p1)\<rparr>) = Inr ([], s')"
    "cl_store s' 0 = Some p2" "pr_responses p2 = pr_responses example_process @ [(9, InvocationResponse ''add'' ''id-3'' 0 ''in'')]"
    by (elim exE conjE)
  with 1(1-4) show ?thesis by (intro exI conjI)
qed

section \<open>A process starts\<close>

text \<open>
  The environment of a container: the engine is given strings of the form name=value.
\<close>

definition container_environment :: "string list \<Rightarrow> environment" where
  "container_environment kvs =
     map_of (map (\<lambda>kv. (takeWhile (\<lambda>c. c \<noteq> CHR ''='') kv, tl (dropWhile (\<lambda>c. c \<noteq> CHR ''='') kv))) kvs)"

lemma process_environment:
  fixes addr name :: string
  defines "env \<equiv> container_environment [''CONTROLPLANE_ADDR='' @ addr, ''PROCESS_ID='' @ name]"
  shows "env ''CONTROLPLANE_ADDR'' = Some addr" "env ''PROCESS_ID'' = Some name"
  by (simp_all add: env_def container_environment_def)

lemma split_address_port:
  assumes "CHR '':'' \<notin> set ip"
  shows "split_address (ip @ '':'' @ pt) = (ip, pt)"
  using assms by (induction ip) (auto simp: split_address_def split: if_splits)

lemma process_config:
  assumes "process_configuration ce files config (container_environment [''CONTROLPLANE_ADDR='' @ addr, ''PROCESS_ID='' @ name]) = Inr cfg"
  shows "cfg_control_plane_addr cfg = Some addr" "cfg_process_id cfg = name"
  using process_environment [of addr name] environment_overrides [OF assms] by simp_all

text \<open>
  C10. From the configuration of the control plane to the connection of a process. The container
  that the serving daemon requests for a process of the Docker backend is given an environment
  from which the controller of the process, with or without a configuration file, reads the
  address of the control plane and its own name; its server opens a connection to the public address of the configuration and to the port
  on which the control plane listens, and announces that name; and the control plane,
  which receives the announcement on a new connection, connects it with the process it
  is waiting for, which is then allocated, and waits for it no longer.
\<close>

theorem allocation_handshake:
  assumes plane: "server_construct fg listen cp = Inr srv" "cf_backend_type cp = DOCKER" "CHR '':'' \<notin> set (cf_public_ip_address cp)"
    and request: "sg_requests s = []" "name \<noteq> []" "name_ok name"
      "map fst (sg_requests (serving_create cl name (allocate_request (ss_tcp srv) app) s)) = [ContainerCreate n img env ports]"
    and process: "process_configuration ce files config (container_environment env) = Inr cfg"
      "Controller self_dir self_pid cfg doc = Inr c"
    and cloud: "cl_context cs conn = None" "cl_pending cs name = Some pid" "cl_store cs pid = Some p" "proc_inv p"
      "connect conn uuid p = Inr p1"
  shows "\<exists>sv1 cn sv2 w cs'. process_main ce files config (container_environment env) self_dir self_pid doc = Inr sv1 \<and>
           sv_connections sv1 ''CONTROLPLANE'' = Some cn \<and>
           cn_client cn = Some (cf_public_ip_address cp, ucast (listen (ts_port (cf_tcpserver cp)))) \<and>
           control_plane_connected sk sv1 = Inr sv2 \<and> sv_sent sv2 sk = [w] \<and>
           cloud_handle_message now uuid conn w cs = Inr ([], cs') \<and> cl_store cs' = (cl_store cs)(pid \<mapsto> p1) \<and>
           pr_status p1 = ALLOCATED \<and> cl_pending cs' name = None \<and> map_option cd_process (cl_context cs' conn) = Some pid"
proof -
  let ?ip = "cf_public_ip_address cp" and ?port = "listen (ts_port (cf_tcpserver cp))"
  have b: "db_tcp_ip (ss_tcp srv) = ?ip" "db_tcp_port (ss_tcp srv) = ?port" using configured_server [OF plane(1,2)] by auto
  have env: "env = [''CONTROLPLANE_ADDR='' @ (?ip @ '':'' @ decimal_int ?port), ''PROCESS_ID='' @ name]"
    using request(1,2,4) by (auto simp: serving_create_def allocate_request_def sg_post_def b)
  note cfg = process_config [OF process(1) [unfolded env]]
  have c: "ct_process_id c = name" using process(2) cfg(2) by (auto simp: Controller_def and_then_eq_Inr)
  let ?cn = "(Connection CONNECTING CONTROL_PLANE None None [] 0)\<lparr>cn_client := Some (?ip, ucast (?port))\<rparr>"
  define sv1 where "sv1 = set_connection ''CONTROLPLANE'' ?cn ((TCPServer c)\<lparr>sv_control_plane := Some ''CONTROLPLANE''\<rparr>)"
  have "server_poll (cfg_control_plane_addr cfg) (TCPServer c) = Inr sv1"
    using split_address_port [OF plane(3)] by (simp add: cfg(1) server_poll_def stoi_decimal_int sv1_def TCPServer_def)
  then have poll: "process_main ce files config (container_environment env) self_dir self_pid doc = Inr sv1"
    by (simp add: process_main_def process)
  have sv1: "sv_connections sv1 ''CONTROLPLANE'' = Some ?cn" "cn_client ?cn = Some (?ip, ucast (?port))"
      "sv_controller sv1 = c" "sv_sent sv1 = (\<lambda>_. [])"
    by (simp_all add: sv1_def TCPServer_def)
  obtain w m where w: "build_registration sv1 = Inr w" "length w = BUF_SIZE" "parse w = Inr (ProcessConnectionPtr m)" "process_name m = name"
    using registration_ok [of sv1] request(3) c sv1(3) by auto
  have conn: "control_plane_connected sk sv1 =
      Inr (set_connection ''CONTROLPLANE'' (?cn\<lparr>cn_conn := Some sk\<rparr>) ((sock_send sk w sv1)\<lparr>sv_context := (sv_context sv1)(sk \<mapsto> ''CONTROLPLANE'')\<rparr>))"
    using sv1(1) w(1) by (simp add: control_plane_connected_def)
  obtain cs' where cs': "cloud_handle_connection conn m uuid cs = Inr cs'" "cl_store cs' = (cl_store cs)(pid \<mapsto> p1)"
      "cl_pending cs' name = None" "map_option cd_process (cl_context cs' conn) = Some pid"
    using cloud w(4) by (simp add: cloud_handle_connection_def set_context_def Let_def)
  have "cloud_handle_message now uuid conn w cs = Inr ([], cs')"
    using cloud(1) w(2,3) cs'(1) by (subst cloud_handle_message.simps) simp
  moreover have "sv_sent (set_connection ''CONTROLPLANE'' (?cn\<lparr>cn_conn := Some sk\<rparr>)
      ((sock_send sk w sv1)\<lparr>sv_context := (sv_context sv1)(sk \<mapsto> ''CONTROLPLANE'')\<rparr>)) sk = [w]"
    by (simp add: sock_send_def sv1(4))
  ultimately show ?thesis using poll sv1(1,2) conn cs'(2-4) connect_inv [OF cloud(5,4)] by blast
qed

definition example_plane :: cp_config where
  "example_plane = example_start\<lparr>cf_backend_type := DOCKER, cf_backend := Some docker_set_defaults,
     cf_public_ip_address := ''10.0.0.2'', cf_tcpserver := \<lparr>ts_port = 7000, ts_io_threads = 1\<rparr>\<rparr>"

definition example_backend :: docker_backend where
  "example_backend = \<lparr>db_tcp_ip = ''10.0.0.2'', db_tcp_port = 7000\<rparr>"

definition example_starting :: cloud where
  "example_starting = cloud_start\<lparr>cl_store := [0 \<mapsto> Process ''p'' example_resources], cl_pending := [''p'' \<mapsto> 0]\<rparr>"

theorem allocation_handshake_witness:
  "\<exists>env sv1 cn sv2 w cs'. env ''CONTROLPLANE_ADDR'' = Some ''10.0.0.2:7000'' \<and> env ''PROCESS_ID'' = Some ''p'' \<and>
     process_main \<lparr>what_missing = id, what_type = []\<rparr> Map.empty None env ''/bin'' 7 example_functions = Inr sv1 \<and>
     sv_connections sv1 ''CONTROLPLANE'' = Some cn \<and> cn_client cn = Some (''10.0.0.2'', 7000) \<and>
     control_plane_connected 3 sv1 = Inr sv2 \<and> sv_sent sv2 3 = [w] \<and>
     cloud_handle_message 0 ''u'' 9 w example_starting = Inr ([], cs') \<and> map_option pr_status (cl_store cs' 0) = Some ALLOCATED"
proof -
  let ?s = "serving_start example_options" and ?app = "Application ''app'' ''img''"
  let ?env = "[''CONTROLPLANE_ADDR='' @ db_tcp_ip example_backend @ '':'' @ decimal_int (db_tcp_port example_backend), ''PROCESS_ID='' @ ''p'']"
  obtain cfg where cfg: "process_configuration \<lparr>what_missing = id, what_type = []\<rparr> Map.empty None (container_environment ?env) = Inr cfg"
      "code_language (cfg_code cfg) = CPP"
    using default_configuration by blast
  obtain srv where srv: "server_construct False id example_plane = Inr srv" "ss_tcp srv = example_backend"
    by (simp add: server_construct_def example_plane_def backend_construct_def docker_set_defaults_def configure_tcpserver_def example_backend_def)
  have plane: "cf_backend_type example_plane = DOCKER" "CHR '':'' \<notin> set (cf_public_ip_address example_plane)"
      "cf_public_ip_address example_plane = ''10.0.0.2''" "ts_port (cf_tcpserver example_plane) = 7000"
    by (simp_all add: example_plane_def)
  have request: "sg_requests ?s = []" "''p'' \<noteq> []" "name_ok ''p''"
      "map fst (sg_requests (serving_create 1 ''p'' (allocate_request (ss_tcp srv) ?app) ?s)) =
         [ContainerCreate ''p'' (ap_code_resource ?app) ?env (configure_ports ?s)]"
    by (simp_all add: srv(2) serving_start_def name_ok_def no_nul_def example_backend_def serving_create_def allocate_request_def sg_post_def)
  from cfg(2) obtain c where c: "Controller ''/bin'' 7 cfg example_functions = Inr c"
    by (simp add: Controller_def Workers_def example_functions_def Functions_initialize_def json_member_def
        parse_function_def parse_trigger_def)
  let ?p = "Process ''p'' example_resources"
  have cloud: "cl_context example_starting 9 = None" "cl_pending example_starting ''p'' = Some 0" "cl_store example_starting 0 = Some ?p" "proc_inv ?p"
    by (simp_all add: example_starting_def cloud_start_def Process_inv)
  obtain p1 where p1: "connect 9 ''u'' ?p = Inr p1" by (simp add: connect_def Process_def send_invocations_def created_callback_def)
  have seven: "ucast (7000 :: int32) = (7000 :: int16)" by simp
  have address: "db_tcp_ip example_backend @ '':'' @ decimal_int (db_tcp_port example_backend) = ''10.0.0.2:7000''"
    by (simp add: example_backend_def decimal_int_def decimal.simps [of 7000] decimal.simps [of 700] decimal.simps [of 70]
        decimal.simps [of 7] char_of_def bit_0)
  have env: "container_environment ?env ''CONTROLPLANE_ADDR'' = Some ''10.0.0.2:7000''" "container_environment ?env ''PROCESS_ID'' = Some ''p''"
    using process_environment [of "db_tcp_ip example_backend @ '':'' @ decimal_int (db_tcp_port example_backend)" "''p''"] address by simp_all
  note allocation_handshake [OF srv(1) plane(1,2) request cfg(1) c cloud p1, of 3 0]
  then obtain sv1 cn sv2 w cs' where h:
      "process_main \<lparr>what_missing = id, what_type = []\<rparr> Map.empty None (container_environment ?env) ''/bin'' 7 example_functions = Inr sv1"
      "sv_connections sv1 ''CONTROLPLANE'' = Some cn" "control_plane_connected 3 sv1 = Inr sv2" "sv_sent sv2 3 = [w]"
      "cloud_handle_message 0 ''u'' 9 w example_starting = Inr ([], cs')" and
      e: "cn_client cn = Some (cf_public_ip_address example_plane, ucast (id (ts_port (cf_tcpserver example_plane))))"
      "cl_store cs' = (cl_store example_starting)(0 \<mapsto> p1)" "pr_status p1 = ALLOCATED"
    by blast
  have "cn_client cn = Some (''10.0.0.2'', 7000)" "map_option pr_status (cl_store cs' 0) = Some ALLOCATED"
    using e plane(3,4) by simp_all
  with env h show ?thesis by blast
qed

end
